(* ===== verification/Command_Line.thy ===== *)
theory Command_Line
  imports Prelude
begin

text \<open>
  The option parser, \<open>src/common/command_line.h\<close>. An option carries the closure that
  assigns its text, as the C++ \<open>std::function\<close> does; what the closures write to (the
  variables bound by \<open>value\<close> and \<open>flag\<close>) is the state \<open>'s\<close>. An exception is the
  left injection with its \<open>what()\<close>; the texts of \<open>std::stoll\<close> and \<open>std::stoull\<close>
  are those of libstdc++.
\<close>

section \<open>The string operations the parser uses\<close>

fun find_idx :: "(char \<Rightarrow> bool) \<Rightarrow> string \<Rightarrow> nat option" where
  "find_idx P [] = None"
| "find_idx P (c # cs) = (if P c then Some 0 else map_option Suc (find_idx P cs))"

definition find_char :: "string \<Rightarrow> char \<Rightarrow> nat option" where
  "find_char s c = find_idx (\<lambda>x. x = c) s"

definition find_first_not_of :: "string \<Rightarrow> string \<Rightarrow> nat \<Rightarrow> nat option" where
  "find_first_not_of s cs pos = map_option (\<lambda>i. pos + i) (find_idx (\<lambda>x. x \<notin> set cs) (drop pos s))"

definition is_space :: "char \<Rightarrow> bool" where
  "is_space c = ((of_char c :: nat) = 32 \<or> 9 \<le> (of_char c :: nat) \<and> (of_char c :: nat) \<le> 13)"

text \<open>
  \<open>strtoll\<close> and \<open>strtoull\<close> with base 10: leading white space, an optional sign, and
  the longest run of digits; no digits is no conversion.
\<close>

definition strto :: "string \<Rightarrow> (bool \<times> nat) option" where
  "strto text =
     (let s = dropWhile is_space text;
          neg = (s \<noteq> [] \<and> hd s = CHR ''-'');
          ds = takeWhile is_digit (if s \<noteq> [] \<and> hd s \<in> {CHR ''+'', CHR ''-''} then tl s else s)
      in if ds = [] then None else Some (neg, read_digits ds))"

definition stoll :: "string \<Rightarrow> string + int" where
  "stoll text = (case strto text of
      None \<Rightarrow> Inl ''stoll''
    | Some (neg, n) \<Rightarrow>
        let v = (if neg then - int n else int n)
        in if - (2 ^ 63) \<le> v \<and> v < 2 ^ 63 then Inr v else Inl ''stoll'')"

definition stoull :: "string \<Rightarrow> string + int" where
  "stoull text = (case strto text of
      None \<Rightarrow> Inl ''stoull''
    | Some (neg, n) \<Rightarrow>
        if n < 2 ^ 64 then Inr ((if neg then - int n else int n) mod 2 ^ 64) else Inl ''stoull'')"

section \<open>Integer targets\<close>

datatype int_type = Int_Type (it_signed: bool) (it_bits: nat)

definition it_min :: "int_type \<Rightarrow> int" where
  "it_min ty = (if it_signed ty then - (2 ^ (it_bits ty - 1)) else 0)"

definition it_max :: "int_type \<Rightarrow> int" where
  "it_max ty = (if it_signed ty then 2 ^ (it_bits ty - 1) - 1 else 2 ^ it_bits ty - 1)"

definition it_cast :: "int_type \<Rightarrow> int \<Rightarrow> int" where
  "it_cast ty i = (if it_signed ty
     then (i + 2 ^ (it_bits ty - 1)) mod 2 ^ it_bits ty - 2 ^ (it_bits ty - 1)
     else i mod 2 ^ it_bits ty)"

definition uint32_type :: int_type where
  "uint32_type = Int_Type False 32"

definition uint64_type :: int_type where
  "uint64_type = Int_Type False 64"

definition int32_type :: int_type where
  "int32_type = Int_Type True 32"

definition value_assign :: "int_type \<Rightarrow> string \<Rightarrow> string + int" where
  "value_assign ty text =
     (case find_first_not_of text ''+-'' 0 of
        None \<Rightarrow> Inl ''expected a decimal integer''
      | Some first \<Rightarrow>
          if text = [] \<or> first > 1 \<or> find_first_not_of text ''0123456789'' first \<noteq> None
          then Inl ''expected a decimal integer''
          else if it_signed ty then
            (case stoll text of
               Inl e \<Rightarrow> Inl e
             | Inr parsed \<Rightarrow>
                 if parsed < it_min ty \<or> parsed > it_max ty then Inl ''integer out of range''
                 else Inr (it_cast ty parsed))
          else if text ! 0 = CHR ''-'' then Inl ''expected a nonnegative integer''
          else
            (case stoull text of
               Inl e \<Rightarrow> Inl e
             | Inr parsed \<Rightarrow>
                 if parsed > it_max ty then Inl ''integer out of range''
                 else Inr (it_cast ty parsed)))"

section \<open>The parser and its options\<close>

record 's cl_option =
  opt_name :: string
  opt_alias :: string
  opt_description :: string
  opt_group :: string
  opt_is_flag :: bool
  opt_assign :: "string \<Rightarrow> 's \<Rightarrow> string + 's"

record 's command_line =
  cl_title :: string
  cl_group :: string
  cl_options :: "'s cl_option list"

definition CommandLine :: "string \<Rightarrow> 's command_line" where
  "CommandLine title = \<lparr>cl_title = title, cl_group = '''', cl_options = []\<rparr>"

definition cl_set_group :: "string \<Rightarrow> 's command_line \<Rightarrow> 's command_line" where
  "cl_set_group name cl = cl\<lparr>cl_group := name\<rparr>"

definition cl_add ::
    "string \<Rightarrow> string \<Rightarrow> bool \<Rightarrow> (string \<Rightarrow> 's \<Rightarrow> string + 's) \<Rightarrow> 's command_line \<Rightarrow> 's command_line" where
  "cl_add names description is_flag assign cl =
     (let comma = find_char names (CHR '','') in
      cl\<lparr>cl_options := cl_options cl @
        [\<lparr>opt_name = (case comma of None \<Rightarrow> names | Some c \<Rightarrow> take c names),
          opt_alias = (case comma of None \<Rightarrow> '''' | Some c \<Rightarrow> drop (Suc c) names),
          opt_description = description, opt_group = cl_group cl,
          opt_is_flag = is_flag, opt_assign = assign\<rparr>]\<rparr>)"

definition cl_value ::
    "int_type \<Rightarrow> string \<Rightarrow> (int \<Rightarrow> 's \<Rightarrow> 's) \<Rightarrow> int \<Rightarrow> string \<Rightarrow> 's command_line \<times> 's \<Rightarrow> 's command_line \<times> 's" where
  "cl_value ty names target default_value description = (\<lambda>(cl, s).
     let v = it_cast ty default_value in
     (cl_add names (description @ '' (default: '' @ show_int v @ '')'') False
        (\<lambda>text s. map_sum id (\<lambda>v. target v s) (value_assign ty text)) cl,
      target v s))"

definition cl_flag ::
    "string \<Rightarrow> (bool \<Rightarrow> 's \<Rightarrow> 's) \<Rightarrow> string \<Rightarrow> 's command_line \<times> 's \<Rightarrow> 's command_line \<times> 's" where
  "cl_flag names target description = (\<lambda>(cl, s).
     (cl_add names description True (\<lambda>text s. Inr (target True s)) cl, target False s))"

fun find_option :: "('s cl_option \<Rightarrow> bool) \<Rightarrow> 's cl_option list \<Rightarrow> nat" where
  "find_option P [] = 0"
| "find_option P (opt # opts) = (if P opt then 0 else Suc (find_option P opts))"

definition long_option :: "string \<Rightarrow> bool" where
  "long_option arg = (take 2 arg = ''--'')"

definition option_index :: "'s cl_option list \<Rightarrow> string \<Rightarrow> nat" where
  "option_index opts arg =
     (if long_option arg
      then let name = (case find_char arg (CHR ''='') of
                         None \<Rightarrow> drop 2 arg
                       | Some equal \<Rightarrow> take (equal - 2) (drop 2 arg))
           in find_option (\<lambda>opt. opt_name opt = name) opts
      else find_option (\<lambda>opt. opt_alias opt = take 1 (drop 1 arg)) opts)"

text \<open>The text of an option and the arguments left after it.\<close>

definition option_text :: "'s cl_option \<Rightarrow> string \<Rightarrow> string list \<Rightarrow> string + string \<times> string list" where
  "option_text opt arg rest =
     (let equal = find_char arg (CHR ''='');
          attached = (if long_option arg then equal \<noteq> None else length arg > 2)
      in if opt_is_flag opt then
           (if attached then Inl (''option takes no value: --'' @ opt_name opt)
            else Inr ('''', rest))
         else if attached then
           Inr (if long_option arg then drop (Suc (the equal)) arg else drop 2 arg, rest)
         else
           (case rest of
              [] \<Rightarrow> Inl (''missing value: --'' @ opt_name opt)
            | text # rest' \<Rightarrow>
                if take 2 text = ''--'' then Inl (''missing value: --'' @ opt_name opt)
                else Inr (text, rest')))"

lemma option_text_rest: "option_text opt arg rest = Inr (text, rest') \<Longrightarrow> length rest' \<le> length rest"
  by (auto simp: option_text_def Let_def split: if_splits list.splits)

function parse_args ::
    "'s cl_option list \<Rightarrow> bool list \<Rightarrow> string list \<Rightarrow> 's \<Rightarrow> string + 's" where
  "parse_args opts seen [] s = Inr s"
| "parse_args opts seen (arg # rest) s =
     (if arg = ''--'' \<and> rest = [] then Inr s
      else if length arg < 2 \<or> arg ! 0 \<noteq> CHR ''-'' \<or> arg = ''--''
      then Inl (''unexpected argument: '' @ arg)
      else let index = option_index opts arg in
        if index = length opts then Inl (''unknown option: '' @ arg)
        else let opt = opts ! index in
          if seen ! index then Inl (''duplicate option: --'' @ opt_name opt)
          else (case option_text opt arg rest of
                  Inl e \<Rightarrow> Inl e
                | Inr (text, rest') \<Rightarrow>
                    (case opt_assign opt text s of
                       Inl err \<Rightarrow> Inl (''invalid value for --'' @ opt_name opt @ '': '' @ text @
                                        '' ('' @ err @ '')'')
                     | Inr s' \<Rightarrow> parse_args opts (seen[index := True]) rest' s')))"
  by pat_completeness auto
termination
  by (relation "measure (\<lambda>(opts, seen, args, s). length args)")
     (auto dest!: option_text_rest)

declare parse_args.simps(2) [simp del]

definition cl_parse :: "'s command_line \<Rightarrow> string list \<Rightarrow> 's \<Rightarrow> string + 's" where
  "cl_parse cl args s =
     parse_args (cl_options cl) (replicate (length (cl_options cl)) False) args s"

abbreviation newline :: string where
  "newline \<equiv> [CHR 0x0A]"

fun help_options :: "string \<Rightarrow> 's cl_option list \<Rightarrow> string" where
  "help_options previous_group [] = ''''"
| "help_options previous_group (opt # opts) =
     (if opt_group opt \<noteq> previous_group
      then newline @ opt_group opt @ '':'' @ newline else '''') @
     ''  --'' @ opt_name opt @
     (if opt_alias opt \<noteq> '''' then '', -'' @ opt_alias opt else '''') @
     (if opt_is_flag opt then '''' else '' VALUE'') @ newline @ ''      '' @
     opt_description opt @ newline @
     help_options (opt_group opt) opts"

definition cl_help :: "'s command_line \<Rightarrow> string" where
  "cl_help cl = cl_title cl @ newline @ help_options '''' (cl_options cl)"

end
