(* ===== verification/Option_Grammar.thy ===== *)
theory Option_Grammar
  imports Command_Line
begin

text \<open>
  What the option parser accepts. The abstract specification is a grammar of command
  lines (\<open>lexes\<close>): which sequence of options and texts an argument list spells. The
  parser refines it: it succeeds exactly on the command lines of the grammar that use no
  option twice and whose texts every option accepts, and then performs the assignments in
  order.
\<close>

section \<open>Integer texts\<close>

lemma find_idx_None [simp]: "find_idx P s = None \<longleftrightarrow> (\<forall>c \<in> set s. \<not> P c)"
  by (induction s) auto

lemma find_idx_Some:
  "find_idx P s = Some i \<longleftrightarrow> i < length s \<and> P (s ! i) \<and> (\<forall>j < i. \<not> P (s ! j))"
proof (induction s arbitrary: i)
  case (Cons c cs)
  show ?case
    by (cases i) (auto simp: Cons.IH All_less_Suc2)
qed simp

lemma digits_string: "c \<in> set ''0123456789'' \<longleftrightarrow> is_digit c"
proof -
  have "c \<in> set ''0123456789'' \<longleftrightarrow> (of_char c :: nat) \<in> of_char ` set ''0123456789''"
    by (auto simp: of_char_eq_iff simp del: list.set)
  also have "of_char ` set ''0123456789'' = {48, 49, 50, 51, 52, 53, 54, 55, 56, 57 :: nat}"
    by simp
  also have "(of_char c :: nat) \<in> \<dots> \<longleftrightarrow> is_digit c"
    unfolding is_digit_def by (simp add: le_eq_less_or_eq [of _ "_ :: nat"]) arith
  finally show ?thesis .
qed

text \<open>A decimal integer as the options take it: at most one sign, then at least one digit.\<close>

definition decimal_text :: "string \<Rightarrow> bool \<Rightarrow> string \<Rightarrow> bool" where
  "decimal_text text neg ds =
     (ds \<noteq> [] \<and> list_all is_digit ds \<and>
      (if neg then text = CHR ''-'' # ds else text = ds \<or> text = CHR ''+'' # ds))"

definition decimal_value :: "bool \<Rightarrow> string \<Rightarrow> int" where
  "decimal_value neg ds = (if neg then - int (read_digits ds) else int (read_digits ds))"

lemma is_digit_not_sign:
  "is_digit c \<Longrightarrow> c \<noteq> CHR ''+''" "is_digit c \<Longrightarrow> c \<noteq> CHR ''-''" "is_digit c \<Longrightarrow> \<not> is_space c"
  by (auto simp: is_digit_def is_space_def)

lemma sign_not_digit [simp]: "\<not> is_digit (CHR ''+'')" "\<not> is_digit (CHR ''-'')"
  by (simp_all add: is_digit_def)

lemma only_digits_from:
  "find_first_not_of s ''0123456789'' pos = None \<longleftrightarrow> list_all is_digit (drop pos s)"
  unfolding find_first_not_of_def
  by (simp add: digits_string list_all_iff del: list.set)

lemma first_not_sign:
  "find_first_not_of (c # cs) ''+-'' 0 =
     (if c = CHR ''+'' \<or> c = CHR ''-'' then map_option Suc (find_first_not_of cs ''+-'' 0) else Some 0)"
  by (simp add: find_first_not_of_def option.map_ident)

text \<open>The check of \<open>value\<close> before the conversion is exactly this syntax.\<close>

definition value_ok :: "string \<Rightarrow> bool" where
  "value_ok text = (case find_first_not_of text ''+-'' 0 of
      None \<Rightarrow> False
    | Some first \<Rightarrow> \<not> (text = [] \<or> first > 1 \<or> find_first_not_of text ''0123456789'' first \<noteq> None))"

lemma value_ok_decimal: "value_ok text \<longleftrightarrow> (\<exists>neg ds. decimal_text text neg ds)"
proof (cases "text")
  case Nil
  then show ?thesis by (auto simp: value_ok_def find_first_not_of_def decimal_text_def)
next
  case (Cons c cs)
  consider (sign) "c = CHR ''+'' \<or> c = CHR ''-''" | (plain) "c \<noteq> CHR ''+''" "c \<noteq> CHR ''-''" by blast
  then show ?thesis
  proof cases
    case plain
    then have "value_ok text \<longleftrightarrow> list_all is_digit text"
      by (simp add: value_ok_def Cons first_not_sign only_digits_from)
    also have "\<dots> \<longleftrightarrow> (\<exists>neg ds. decimal_text text neg ds)"
      using plain by (auto simp: decimal_text_def Cons)
    finally show ?thesis .
  next
    case sign
    have "value_ok text \<longleftrightarrow> cs \<noteq> [] \<and> list_all is_digit cs"
    proof (cases cs)
      case Nil
      then show ?thesis using sign by (auto simp: value_ok_def Cons first_not_sign find_first_not_of_def)
    next
      case (Cons d ds)
      then show ?thesis
        using sign \<open>text = c # cs\<close>
        by (auto simp: value_ok_def first_not_sign only_digits_from split: option.split)
    qed
    also have "\<dots> \<longleftrightarrow> (\<exists>neg ds. decimal_text text neg ds)"
      using sign Cons by (auto simp: decimal_text_def)
    finally show ?thesis .
  qed
qed

lemma decimal_text_unique:
  "decimal_text text neg ds \<Longrightarrow> decimal_text text neg' ds' \<Longrightarrow> neg' = neg \<and> ds' = ds"
  using is_digit_not_sign by (auto simp: decimal_text_def split: if_splits)

lemma strto_decimal: "decimal_text text neg ds \<Longrightarrow> strto text = Some (neg, read_digits ds)"
proof -
  assume d: "decimal_text text neg ds"
  then have ds: "ds \<noteq> []" "\<forall>c \<in> set ds. is_digit c" by (auto simp: decimal_text_def list_all_iff)
  then obtain e es where es: "ds = e # es" "is_digit e" by (cases ds) auto
  have tw: "takeWhile is_digit es = es" using ds(2) es(1) by (simp add: takeWhile_eq_all_conv)
  have sp: "\<not> is_space (CHR ''-'')" "\<not> is_space (CHR ''+'')" by (simp_all add: is_space_def)
  show ?thesis
    using d es is_digit_not_sign [OF es(2)] sp
    by (auto simp: decimal_text_def strto_def Let_def tw split: if_splits)
qed

lemma it_cast_id:
  assumes "0 < it_bits ty" and "it_min ty \<le> v" and "v \<le> it_max ty"
  shows "it_cast ty v = v"
proof (cases "it_signed ty")
  case True
  have "(2 :: int) ^ it_bits ty = 2 ^ (it_bits ty - 1) + 2 ^ (it_bits ty - 1)"
    using assms(1) by (cases "it_bits ty") simp_all
  with True assms show ?thesis
    by (simp add: it_cast_def it_min_def it_max_def mod_pos_pos_trivial)
next
  case False
  with assms show ?thesis
    by (simp add: it_cast_def it_min_def it_max_def mod_pos_pos_trivial)
qed

text \<open>The range of a type of at most 64 bits lies within that of the conversion.\<close>

lemma it_range_64:
  assumes "it_bits ty \<le> 64"
  shows "it_signed ty \<Longrightarrow> it_min ty \<le> v \<Longrightarrow> v \<le> it_max ty \<Longrightarrow> - (2 ^ 63) \<le> v \<and> v < 2 ^ 63"
    and "\<not> it_signed ty \<Longrightarrow> v \<le> it_max ty \<Longrightarrow> v < 2 ^ 64"
proof -
  have "(2 :: int) ^ (it_bits ty - 1) \<le> 2 ^ 63" "(2 :: int) ^ it_bits ty \<le> 2 ^ 64"
    using power_increasing [of "it_bits ty - 1" 63 "2 :: int"] power_increasing [of "it_bits ty" 64 "2 :: int"]
      assms by linarith+
  then show "it_signed ty \<Longrightarrow> it_min ty \<le> v \<Longrightarrow> v \<le> it_max ty \<Longrightarrow> - (2 ^ 63) \<le> v \<and> v < 2 ^ 63"
    and "\<not> it_signed ty \<Longrightarrow> v \<le> it_max ty \<Longrightarrow> v < 2 ^ 64"
    by (auto simp: it_min_def it_max_def)
qed

lemma value_assign_decimal:
  assumes "decimal_text text neg ds" and "0 < it_bits ty" and "it_bits ty \<le> 64"
  shows "value_assign ty text = Inr v \<longleftrightarrow>
    (neg \<longrightarrow> it_signed ty) \<and> v = decimal_value neg ds \<and> it_min ty \<le> v \<and> v \<le> it_max ty"
proof -
  obtain first where f: "find_first_not_of text ''+-'' 0 = Some first"
    "\<not> (text = [] \<or> first > 1 \<or> find_first_not_of text ''0123456789'' first \<noteq> None)"
    using value_ok_decimal [of "text"] assms(1) by (auto simp: value_ok_def split: option.splits)
  have neg: "text ! 0 = CHR ''-'' \<longleftrightarrow> neg"
    using assms(1) is_digit_not_sign(2)
    by (cases ds) (auto simp: decimal_text_def split: if_splits)
  note st = strto_decimal [OF assms(1)]
  note range = it_range_64 [OF assms(3), of "decimal_value neg ds"]
    it_cast_id [OF assms(2), of "decimal_value neg ds"]
  show ?thesis
  proof (cases "it_signed ty")
    case True
    with range show ?thesis
      unfolding value_assign_def f(1) option.case if_not_P [OF f(2)]
      by (auto simp: stoll_def st Let_def decimal_value_def)
  next
    case False
    have min0: "it_min ty = 0" using False by (simp add: it_min_def)
    show ?thesis
      unfolding value_assign_def f(1) option.case if_not_P [OF f(2)] neg
      using False range min0 it_range_64(2) [OF assms(3) False, of "int (read_digits ds)"]
      by (auto simp: stoull_def st decimal_value_def mod_pos_pos_trivial)
  qed
qed

lemma value_assign_rejects:
  "\<not> (\<exists>neg ds. decimal_text text neg ds) \<Longrightarrow>
     value_assign ty text = Inl ''expected a decimal integer''"
  using value_ok_decimal [of "text"] by (auto simp: value_ok_def value_assign_def split: option.splits)

lemma decimal_text_show_int: "decimal_text (show_int v) (v < 0) (show_nat (nat \<bar>v\<bar>))"
  using show_nat_digits by (auto simp: decimal_text_def show_int_def list_all_iff)

lemma decimal_value_show_int: "decimal_value (v < 0) (show_nat (nat \<bar>v\<bar>)) = v"
  by (simp add: decimal_value_def)

lemma value_assign_show_int:
  assumes "0 < it_bits ty" and "it_bits ty \<le> 64" and "it_min ty \<le> v" and "v \<le> it_max ty"
  shows "value_assign ty (show_int v) = Inr v"
proof -
  have "v < 0 \<longrightarrow> it_signed ty" using assms(3) by (auto simp: it_min_def split: if_splits)
  with value_assign_decimal [OF decimal_text_show_int [of v] assms(1,2), of v] assms(3,4)
  show ?thesis by (simp add: decimal_value_show_int)
qed

section \<open>The grammar of command lines\<close>

definition by_name :: "'s cl_option list \<Rightarrow> string \<Rightarrow> nat" where
  "by_name opts n = find_option (\<lambda>opt. opt_name opt = n) opts"

definition by_alias :: "'s cl_option list \<Rightarrow> char \<Rightarrow> nat" where
  "by_alias opts c = find_option (\<lambda>opt. opt_alias opt = [c]) opts"

text \<open>
  \<open>lexes opts args ts\<close>: the arguments \<open>args\<close> spell the options \<open>ts\<close>, each the index
  of the first option with that name or alias together with its text. The forms are
  \<open>--flag\<close>, \<open>-f\<close>, \<open>--name=text\<close>, \<open>--name text\<close>, \<open>-ntext\<close> and \<open>-n text\<close>; a last
  argument \<open>--\<close> ends the options.
\<close>

inductive lexes :: "'s cl_option list \<Rightarrow> string list \<Rightarrow> (nat \<times> string) list \<Rightarrow> bool"
  for opts :: "'s cl_option list" where
  lex_end: "lexes opts [] []"
| lex_dashes: "lexes opts [''--''] []"
| lex_flag_long: "n \<noteq> [] \<Longrightarrow> CHR ''='' \<notin> set n \<Longrightarrow> by_name opts n = i \<Longrightarrow> i < length opts \<Longrightarrow>
    opt_is_flag (opts ! i) \<Longrightarrow> lexes opts rest ts \<Longrightarrow>
    lexes opts ((''--'' @ n) # rest) ((i, '''') # ts)"
| lex_flag_short: "c \<noteq> CHR ''-'' \<Longrightarrow> by_alias opts c = i \<Longrightarrow> i < length opts \<Longrightarrow>
    opt_is_flag (opts ! i) \<Longrightarrow> lexes opts rest ts \<Longrightarrow>
    lexes opts ([CHR ''-'', c] # rest) ((i, '''') # ts)"
| lex_value_eq: "CHR ''='' \<notin> set n \<Longrightarrow> by_name opts n = i \<Longrightarrow> i < length opts \<Longrightarrow>
    \<not> opt_is_flag (opts ! i) \<Longrightarrow> lexes opts rest ts \<Longrightarrow>
    lexes opts ((''--'' @ n @ ''='' @ v) # rest) ((i, v) # ts)"
| lex_value_sep: "n \<noteq> [] \<Longrightarrow> CHR ''='' \<notin> set n \<Longrightarrow> by_name opts n = i \<Longrightarrow> i < length opts \<Longrightarrow>
    \<not> opt_is_flag (opts ! i) \<Longrightarrow> take 2 v \<noteq> ''--'' \<Longrightarrow> lexes opts rest ts \<Longrightarrow>
    lexes opts ((''--'' @ n) # v # rest) ((i, v) # ts)"
| lex_short_att: "c \<noteq> CHR ''-'' \<Longrightarrow> v \<noteq> [] \<Longrightarrow> by_alias opts c = i \<Longrightarrow> i < length opts \<Longrightarrow>
    \<not> opt_is_flag (opts ! i) \<Longrightarrow> lexes opts rest ts \<Longrightarrow>
    lexes opts ((CHR ''-'' # c # v) # rest) ((i, v) # ts)"
| lex_short_sep: "c \<noteq> CHR ''-'' \<Longrightarrow> by_alias opts c = i \<Longrightarrow> i < length opts \<Longrightarrow>
    \<not> opt_is_flag (opts ! i) \<Longrightarrow> take 2 v \<noteq> ''--'' \<Longrightarrow> lexes opts rest ts \<Longrightarrow>
    lexes opts ([CHR ''-'', c] # v # rest) ((i, v) # ts)"

inductive_cases lexes_NilE: "lexes opts [] ts"
inductive_cases lexes_ConsE: "lexes opts (arg # rest) ts"

text \<open>The assignments of a list of options and texts, in order, up to the first failure.\<close>

fun assign_all :: "'s cl_option list \<Rightarrow> (nat \<times> string) list \<Rightarrow> 's \<Rightarrow> string + 's" where
  "assign_all opts [] s = Inr s"
| "assign_all opts ((i, v) # ts) s =
     (case opt_assign (opts ! i) v s of Inl e \<Rightarrow> Inl e | Inr s' \<Rightarrow> assign_all opts ts s')"

text \<open>One argument, taken apart as the parser does it.\<close>

definition step_text :: "'s cl_option list \<Rightarrow> string \<Rightarrow> string list \<Rightarrow> (nat \<times> string \<times> string list) option" where
  "step_text opts arg rest =
     (if length arg < 2 \<or> arg ! 0 \<noteq> CHR ''-'' \<or> arg = ''--'' then None
      else let i = option_index opts arg in
        if i = length opts then None
        else (case option_text (opts ! i) arg rest of
                Inl _ \<Rightarrow> None
              | Inr (v, rest') \<Rightarrow> Some (i, v, rest')))"

lemma find_option_le: "find_option P opts \<le> length opts"
  by (induction opts) auto

lemma option_index_le: "option_index opts arg \<le> length opts"
  by (simp add: option_index_def find_option_le Let_def split: option.split)

lemma find_char_None: "find_char s c = None \<longleftrightarrow> c \<notin> set s"
  by (auto simp: find_char_def)

lemma find_char_split: "c \<notin> set xs \<Longrightarrow> find_char (xs @ c # ys) c = Some (length xs)"
  by (auto simp: find_char_def find_idx_Some nth_append)

lemma find_char_SomeE:
  assumes "find_char s c = Some i"
  obtains xs ys where "s = xs @ c # ys" "c \<notin> set xs" "length xs = i"
proof -
  have i: "i < length s" "s ! i = c" "\<forall>j < i. s ! j \<noteq> c"
    using assms by (auto simp: find_char_def find_idx_Some)
  show thesis
  proof (rule that)
    show "s = take i s @ c # drop (Suc i) s" using id_take_nth_drop [OF i(1)] i(2) by simp
    show "c \<notin> set (take i s)" using i by (auto simp: in_set_conv_nth)
    show "length (take i s) = i" using i by simp
  qed
qed

text \<open>How an argument of each form is taken apart.\<close>

abbreviation separate_text :: "string list \<Rightarrow> (string \<times> string list) option" where
  "separate_text rest \<equiv> (case rest of [] \<Rightarrow> None
     | v # rest' \<Rightarrow> if take 2 v = ''--'' then None else Some (v, rest'))"

lemma step_text_long:
  assumes "n \<noteq> []" and "CHR ''='' \<notin> set n"
  shows "step_text opts (''--'' @ n) rest =
    (let i = by_name opts n in
     if i = length opts then None
     else if opt_is_flag (opts ! i) then Some (i, '''', rest)
     else map_option (Pair i) (separate_text rest))"
proof -
  have "find_char (''--'' @ n) (CHR ''='') = None" using assms(2) by (simp add: find_char_None)
  with assms(1) show ?thesis
    by (auto simp: step_text_def option_index_def long_option_def option_text_def by_name_def Let_def
        split: list.split)
qed

lemma step_text_long_eq:
  assumes "CHR ''='' \<notin> set n"
  shows "step_text opts (''--'' @ n @ ''='' @ v) rest =
    (let i = by_name opts n in
     if i = length opts \<or> opt_is_flag (opts ! i) then None else Some (i, v, rest))"
proof -
  have "find_char ((''--'' @ n) @ CHR ''='' # v) (CHR ''='') = Some (length (''--'' @ n))"
    using assms by (intro find_char_split) simp
  then have f: "find_char (CHR ''-'' # CHR ''-'' # n @ CHR ''='' # v) (CHR ''='') = Some (Suc (Suc (length n)))"
    by simp
  show ?thesis
    by (auto simp: step_text_def option_index_def long_option_def option_text_def by_name_def Let_def f)
qed

lemma step_text_short:
  assumes "c \<noteq> CHR ''-''"
  shows "step_text opts (CHR ''-'' # c # v) rest =
    (let i = by_alias opts c in
     if i = length opts then None
     else if opt_is_flag (opts ! i) then (if v = [] then Some (i, '''', rest) else None)
     else if v \<noteq> [] then Some (i, v, rest)
     else map_option (Pair i) (separate_text rest))"
  using assms
  by (cases v) (auto simp: step_text_def option_index_def long_option_def option_text_def by_alias_def
      Let_def split: list.split)

lemma argument_forms:
  assumes "\<not> (length arg < 2 \<or> arg ! 0 \<noteq> CHR ''-'' \<or> arg = ''--'')"
  obtains (long) n where "n \<noteq> []" "CHR ''='' \<notin> set n" "arg = ''--'' @ n"
  | (long_eq) n v where "CHR ''='' \<notin> set n" "arg = ''--'' @ n @ ''='' @ v"
  | (short) c v where "c \<noteq> CHR ''-''" "arg = CHR ''-'' # c # v"
proof -
  from assms obtain c m where arg: "arg = CHR ''-'' # c # m"
    by (cases arg; cases "tl arg") auto
  show thesis
  proof (cases "c = CHR ''-''")
    case False
    with arg show thesis by (intro short)
  next
    case True
    with arg assms have m: "arg = ''--'' @ m" "m \<noteq> []" by auto
    show thesis
    proof (cases "find_char m (CHR ''='')")
      case None
      with m show thesis by (intro long [of m]) (auto simp: find_char_None)
    next
      case (Some e)
      then show thesis by (rule find_char_SomeE) (use m in \<open>auto intro: long_eq\<close>)
    qed
  qed
qed

lemma by_name_le: "by_name opts n \<le> length opts" and by_alias_le: "by_alias opts c \<le> length opts"
  by (simp_all add: by_name_def by_alias_def find_option_le)

lemma lexes_step:
  assumes "step_text opts arg rest = Some (i, v, rest')" and "lexes opts rest' ts"
  shows "lexes opts (arg # rest) ((i, v) # ts)"
proof -
  from assms(1) have "\<not> (length arg < 2 \<or> arg ! 0 \<noteq> CHR ''-'' \<or> arg = ''--'')"
    by (auto simp: step_text_def split: if_splits)
  then show ?thesis
  proof (cases rule: argument_forms)
    case (long n)
    show ?thesis
      using assms long le_neq_implies_less [OF by_name_le [of opts n]]
      by (auto simp: step_text_long [simplified] Let_def split: if_splits list.splits
          intro: lex_flag_long [of n, simplified] lex_value_sep [of n, simplified])
  next
    case (long_eq n w)
    show ?thesis
      using assms long_eq le_neq_implies_less [OF by_name_le [of opts n]]
      by (auto simp: step_text_long_eq [simplified] Let_def split: if_splits
          intro: lex_value_eq [of n, simplified])
  next
    case (short c w)
    show ?thesis
      using assms short le_neq_implies_less [OF by_alias_le [of opts c]]
      by (auto simp: step_text_short Let_def split: if_splits list.splits
          intro: lex_flag_short lex_short_att lex_short_sep)
  qed
qed

lemma lexes_inv:
  assumes "lexes opts (arg # rest) ts'"
  shows "arg = ''--'' \<and> rest = [] \<and> ts' = [] \<or>
    (\<exists>i v rest' ts. step_text opts arg rest = Some (i, v, rest') \<and> ts' = (i, v) # ts \<and> lexes opts rest' ts)"
  using assms
  by (cases rule: lexes_ConsE)
     (auto simp: step_text_long [simplified] step_text_long_eq [simplified] step_text_short Let_def)

section \<open>The parser refines the grammar\<close>

lemma step_text_bounds:
  "step_text opts arg rest = Some (i, v, rest') \<Longrightarrow> i < length opts \<and> length rest' \<le> length rest"
  using option_index_le [of opts arg]
  by (auto simp: step_text_def Let_def split: if_splits sum.splits dest: option_text_rest)

lemma parse_args_step:
  "parse_args opts seen (arg # rest) s = Inr s' \<longleftrightarrow>
     arg = ''--'' \<and> rest = [] \<and> s' = s \<or>
     (\<exists>i v rest' s1. step_text opts arg rest = Some (i, v, rest') \<and> \<not> seen ! i \<and>
        opt_assign (opts ! i) v s = Inr s1 \<and>
        parse_args opts (seen[i := True]) rest' s1 = Inr s')"
  by (subst parse_args.simps(2)) (auto simp: step_text_def Let_def split: sum.split)

lemma lexes_bounds: "lexes opts args ts \<Longrightarrow> i \<in> fst ` set ts \<Longrightarrow> i < length opts"
  by (induction rule: lexes.induct) auto

lemma parse_args_refines:
  assumes "length seen = length opts"
  shows "parse_args opts seen args s = Inr s' \<longleftrightarrow>
    (\<exists>ts. lexes opts args ts \<and> distinct (map fst ts) \<and> (\<forall>i \<in> fst ` set ts. \<not> seen ! i) \<and>
       assign_all opts ts s = Inr s')"
  using assms
proof (induction "length args" arbitrary: args seen s rule: less_induct)
  case less
  show ?case
  proof (cases args)
    case Nil
    then show ?thesis by (auto intro: lex_end elim: lexes_NilE)
  next
    case (Cons arg rest)
    show ?thesis
    proof
      assume "parse_args opts seen args s = Inr s'"
      then consider "arg = ''--'' \<and> rest = [] \<and> s' = s"
        | i v rest' s1 where "step_text opts arg rest = Some (i, v, rest')" "\<not> seen ! i"
          "opt_assign (opts ! i) v s = Inr s1" "parse_args opts (seen[i := True]) rest' s1 = Inr s'"
        unfolding Cons parse_args_step by blast
      then show "\<exists>ts. lexes opts args ts \<and> distinct (map fst ts) \<and>
          (\<forall>i \<in> fst ` set ts. \<not> seen ! i) \<and> assign_all opts ts s = Inr s'"
      proof cases
        case 1
        then show ?thesis using Cons lex_dashes by (intro exI [of _ "[]"]) auto
      next
        case 2
        note b = step_text_bounds [OF 2(1)]
        obtain ts where ts: "lexes opts rest' ts" "distinct (map fst ts)"
          "\<forall>j \<in> fst ` set ts. \<not> seen[i := True] ! j" "assign_all opts ts s1 = Inr s'"
          using less.hyps [of rest' "seen[i := True]" s1] 2(4) b less.prems Cons by auto
        have "\<forall>j \<in> fst ` set ts. j \<noteq> i \<and> \<not> seen ! j"
          using ts(3) b less.prems by (metis nth_list_update_eq nth_list_update_neq)
        with ts 2 lexes_step [OF 2(1) ts(1)] Cons show ?thesis
          by (intro exI [of _ "(i, v) # ts"]) auto
      qed
    next
      assume "\<exists>ts. lexes opts args ts \<and> distinct (map fst ts) \<and>
          (\<forall>i \<in> fst ` set ts. \<not> seen ! i) \<and> assign_all opts ts s = Inr s'"
      then obtain ts' where ts': "lexes opts (arg # rest) ts'" "distinct (map fst ts')"
        "\<forall>i \<in> fst ` set ts'. \<not> seen ! i" "assign_all opts ts' s = Inr s'"
        unfolding Cons by blast
      from lexes_inv [OF ts'(1)] show "parse_args opts seen args s = Inr s'"
      proof (elim disjE exE conjE)
        assume "arg = ''--''" "rest = []" "ts' = []"
        with ts'(4) show ?thesis unfolding Cons parse_args_step by simp
      next
        fix i v rest' ts
        assume st: "step_text opts arg rest = Some (i, v, rest')"
          and eq: "ts' = (i, v) # ts" and lx: "lexes opts rest' ts"
        obtain s1 where s1: "opt_assign (opts ! i) v s = Inr s1" "assign_all opts ts s1 = Inr s'"
          using ts'(4) eq by (auto split: sum.splits)
        have "\<forall>j \<in> fst ` set ts. \<not> seen[i := True] ! j"
          using ts'(2,3) eq by (auto simp: image_iff nth_list_update split: if_splits)
        then have "parse_args opts (seen[i := True]) rest' s1 = Inr s'"
          using less.hyps [of rest' "seen[i := True]" s1] lx ts'(2) eq s1(2)
            step_text_bounds [OF st] less.prems Cons by auto
        with st s1(1) ts'(3) eq show ?thesis unfolding Cons parse_args_step by auto
      qed
    qed
  qed
qed

section \<open>Consequences the configuration uses\<close>

text \<open>A property of the state that every assignment keeps is kept by the parser.\<close>

lemma assign_all_preserves:
  assumes "\<And>i v s s'. i < length opts \<Longrightarrow> P s \<Longrightarrow> opt_assign (opts ! i) v s = Inr s' \<Longrightarrow> P s'"
  shows "assign_all opts ts s = Inr s' \<Longrightarrow> fst ` set ts \<subseteq> {..< length opts} \<Longrightarrow> P s \<Longrightarrow> P s'"
proof (induction ts arbitrary: s)
  case (Cons t ts)
  obtain i v where t: "t = (i, v)" by fastforce
  obtain s1 where s1: "opt_assign (opts ! i) v s = Inr s1" "assign_all opts ts s1 = Inr s'"
    using Cons.prems(1) t by (auto split: sum.splits)
  have "i < length opts" "fst ` set ts \<subseteq> {..< length opts}" using Cons.prems(2) t by auto
  from Cons.IH [OF s1(2) this(2) assms [OF this(1) Cons.prems(3) s1(1)]] show ?case .
qed simp

lemma cl_parse_assigns:
  "cl_parse cl args s = Inr s' \<longleftrightarrow>
     (\<exists>ts. lexes (cl_options cl) args ts \<and> distinct (map fst ts) \<and>
        assign_all (cl_options cl) ts s = Inr s')"
proof -
  have unseen: "\<forall>i \<in> fst ` set ts. \<not> replicate (length (cl_options cl)) False ! i"
    if "lexes (cl_options cl) args ts" for ts
  proof
    fix i assume "i \<in> fst ` set ts"
    from lexes_bounds [OF that this] show "\<not> replicate (length (cl_options cl)) False ! i" by simp
  qed
  have "lexes (cl_options cl) args ts \<and> distinct (map fst ts) \<and>
      (\<forall>i \<in> fst ` set ts. \<not> replicate (length (cl_options cl)) False ! i) \<and>
      assign_all (cl_options cl) ts s = Inr s' \<longleftrightarrow>
    lexes (cl_options cl) args ts \<and> distinct (map fst ts) \<and>
      assign_all (cl_options cl) ts s = Inr s'" for ts
    using unseen [of ts] by argo
  then show ?thesis
    unfolding cl_parse_def parse_args_refines [of "replicate n False" for n, OF length_replicate]
    by (simp only:)
qed

lemma cl_parse_preserves:
  assumes "cl_parse cl args s = Inr s'" and "P s"
    and "\<And>opt v s s'. opt \<in> set (cl_options cl) \<Longrightarrow> P s \<Longrightarrow> opt_assign opt v s = Inr s' \<Longrightarrow> P s'"
  shows "P s'"
proof -
  obtain ts where ts: "lexes (cl_options cl) args ts" "assign_all (cl_options cl) ts s = Inr s'"
    using assms(1) unfolding cl_parse_assigns by blast
  have b: "fst ` set ts \<subseteq> {..< length (cl_options cl)}" using lexes_bounds [OF ts(1)] by auto
  have keep: "P s2" if "i < length (cl_options cl)" "P s1" "opt_assign (cl_options cl ! i) v s1 = Inr s2" for i v s1 s2
    by (rule assms(3) [OF nth_mem [OF that(1)] that(2,3)])
  show ?thesis
    by (rule assign_all_preserves [where P = P, OF keep ts(2) b assms(2)])
qed

lemma by_name_distinct:
  assumes "distinct (map opt_name opts)" and "i < length opts"
  shows "by_name opts (opt_name (opts ! i)) = i"
  using assms
proof (induction opts arbitrary: i)
  case (Cons opt opts)
  then show ?case
    by (cases i) (auto simp: by_name_def image_iff dest: nth_mem)
qed simp

text \<open>Spelling a list of options and texts: each as \<open>--name=text\<close> or \<open>--flag\<close>.\<close>

definition spell :: "'s cl_option list \<Rightarrow> nat \<times> string \<Rightarrow> string" where
  "spell opts t = ''--'' @ opt_name (opts ! fst t) @
     (if opt_is_flag (opts ! fst t) then '''' else ''='' @ snd t)"

lemma lexes_spell:
  assumes "distinct (map opt_name opts)"
    and "\<And>opt. opt \<in> set opts \<Longrightarrow> opt_name opt \<noteq> [] \<and> CHR ''='' \<notin> set (opt_name opt)"
    and "\<And>i v. (i, v) \<in> set ts \<Longrightarrow> i < length opts \<and> (opt_is_flag (opts ! i) \<longrightarrow> v = '''')"
  shows "lexes opts (map (spell opts) ts) ts"
  using assms(3)
proof (induction ts)
  case (Cons t ts)
  obtain i v where t: "t = (i, v)" by fastforce
  have i: "i < length opts" "by_name opts (opt_name (opts ! i)) = i" "opt_name (opts ! i) \<noteq> []"
    "CHR ''='' \<notin> set (opt_name (opts ! i))" "opt_is_flag (opts ! i) \<longrightarrow> v = ''''"
    using Cons.prems [of i v] t assms(2) [OF nth_mem, of i] by_name_distinct [OF assms(1)] by auto
  have ih: "lexes opts (map (spell opts) ts) ts"
    by (rule Cons.IH, rule Cons.prems) simp
  show ?case
  proof (cases "opt_is_flag (opts ! i)")
    case True
    then show ?thesis
      using lex_flag_long [OF i(3,4,2,1) True ih] i(5) t by (simp add: spell_def [of opts "(i, v)" for v])
  next
    case False
    then show ?thesis
      using lex_value_eq [OF i(4,2,1) False ih, of v] t by (simp add: spell_def [of opts "(i, v)"])
  qed
qed (simp add: lex_end)

lemma parse_single:
  assumes "step_text (cl_options cl) arg rest = Some (i, v, [])"
  shows "cl_parse cl (arg # rest) s =
    (case opt_assign (cl_options cl ! i) v s of
       Inl err \<Rightarrow> Inl (''invalid value for --'' @ opt_name (cl_options cl ! i) @ '': '' @ v @
                       '' ('' @ err @ '')'')
     | Inr s' \<Rightarrow> Inr s')"
  using assms step_text_bounds [OF assms] unfolding cl_parse_def
  by (subst parse_args.simps(2)) (auto simp: step_text_def Let_def split: if_splits sum.splits)

end
