(* ===== verification/Option_Errors.thy ===== *)
theory Option_Errors
  imports Option_Grammar
begin

text \<open>
  When the option parser rejects its arguments, and with which message. An argument names an
  option, which may not exist, and may bring a text with it; the rules below say for each
  error what is wrong with the first argument that cannot be taken.
\<close>

section \<open>What an argument names\<close>

text \<open>
  The option an argument names, \<open>length opts\<close> when there is none of that name, and the text
  attached to it.
\<close>

inductive names_option :: "'s cl_option list \<Rightarrow> string \<Rightarrow> nat \<Rightarrow> string option \<Rightarrow> bool" where
  name_long: "n \<noteq> [] \<Longrightarrow> CHR ''='' \<notin> set n \<Longrightarrow> names_option opts (''--'' @ n) (by_name opts n) None"
| name_long_eq: "CHR ''='' \<notin> set n \<Longrightarrow> names_option opts (''--'' @ n @ ''='' @ v) (by_name opts n) (Some v)"
| name_short: "c \<noteq> CHR ''-'' \<Longrightarrow> names_option opts [CHR ''-'', c] (by_alias opts c) None"
| name_short_text: "c \<noteq> CHR ''-'' \<Longrightarrow> v \<noteq> [] \<Longrightarrow> names_option opts (CHR ''-'' # c # v) (by_alias opts c) (Some v)"

text \<open>The text an option gets: none for a flag, the attached one, or else the next argument.\<close>

inductive gets_text :: "'s cl_option \<Rightarrow> string option \<Rightarrow> string list \<Rightarrow> string \<Rightarrow> bool" where
  flag_text: "opt_is_flag opt \<Longrightarrow> gets_text opt None rest ''''"
| attached_text: "\<not> opt_is_flag opt \<Longrightarrow> gets_text opt (Some v) rest v"
| next_text: "\<not> opt_is_flag opt \<Longrightarrow> take 2 v \<noteq> ''--'' \<Longrightarrow> gets_text opt None (v # rest) v"

inductive_simps gets_text_simps: "gets_text opt att rest v"

text \<open>
  \<open>rejects opts used arg rest s msg\<close>: with the options in \<open>used\<close> given already, the argument
  \<open>arg\<close> followed by \<open>rest\<close> cannot be taken in the state \<open>s\<close>.
\<close>

inductive rejects :: "'s cl_option list \<Rightarrow> nat set \<Rightarrow> string \<Rightarrow> string list \<Rightarrow> 's \<Rightarrow> string \<Rightarrow> bool" where
  not_an_option: "length arg < 2 \<or> take 1 arg \<noteq> ''-'' \<or> arg = ''--'' \<and> rest \<noteq> [] \<Longrightarrow>
    rejects opts used arg rest s (''unexpected argument: '' @ arg)"
| unknown_option: "names_option opts arg (length opts) att \<Longrightarrow>
    rejects opts used arg rest s (''unknown option: '' @ arg)"
| duplicate_option: "names_option opts arg i att \<Longrightarrow> i < length opts \<Longrightarrow> i \<in> used \<Longrightarrow>
    rejects opts used arg rest s (''duplicate option: --'' @ opt_name (opts ! i))"
| flag_with_value: "names_option opts arg i (Some v) \<Longrightarrow> i < length opts \<Longrightarrow> i \<notin> used \<Longrightarrow>
    opt_is_flag (opts ! i) \<Longrightarrow>
    rejects opts used arg rest s (''option takes no value: --'' @ opt_name (opts ! i))"
| missing_value: "names_option opts arg i None \<Longrightarrow> i < length opts \<Longrightarrow> i \<notin> used \<Longrightarrow>
    \<not> opt_is_flag (opts ! i) \<Longrightarrow> rest = [] \<or> take 2 (hd rest) = ''--'' \<Longrightarrow>
    rejects opts used arg rest s (''missing value: --'' @ opt_name (opts ! i))"
| invalid_value: "names_option opts arg i att \<Longrightarrow> i < length opts \<Longrightarrow> i \<notin> used \<Longrightarrow>
    gets_text (opts ! i) att rest v \<Longrightarrow> opt_assign (opts ! i) v s = Inl err \<Longrightarrow>
    rejects opts used arg rest s
      (''invalid value for --'' @ opt_name (opts ! i) @ '': '' @ v @ '' ('' @ err @ '')'')"

inductive_simps rejects_iff: "rejects opts used arg rest s msg"

section \<open>How the parser reads it\<close>

abbreviation no_option :: "string \<Rightarrow> bool" where
  "no_option arg \<equiv> length arg < 2 \<or> arg ! 0 \<noteq> CHR ''-'' \<or> arg = ''--''"

lemma names_option_exists:
  assumes "\<not> no_option arg"
  shows "\<exists>i att. names_option opts arg i att"
  using assms
proof (cases rule: argument_forms)
  case (long n)
  from name_long [OF long(1,2), of opts] long(3) show ?thesis by blast
next
  case (long_eq n v)
  from name_long_eq [OF long_eq(1), of opts v] long_eq(2) show ?thesis by blast
next
  case (short c v)
  from name_short [OF short(1), of opts] name_short_text [OF short(1), of v opts] short(2) show ?thesis
    by (cases "v = []") blast+
qed

text \<open>What the parser makes of the text attached to an argument.\<close>

definition text_with :: "'s cl_option \<Rightarrow> string option \<Rightarrow> string list \<Rightarrow> string + string \<times> string list" where
  "text_with opt att rest =
     (case att of
        Some v \<Rightarrow> if opt_is_flag opt then Inl (''option takes no value: --'' @ opt_name opt) else Inr (v, rest)
      | None \<Rightarrow>
          if opt_is_flag opt then Inr ('''', rest)
          else (case rest of
                  [] \<Rightarrow> Inl (''missing value: --'' @ opt_name opt)
                | v # rest' \<Rightarrow>
                    if take 2 v = ''--'' then Inl (''missing value: --'' @ opt_name opt) else Inr (v, rest')))"

lemma names_option_read:
  assumes "names_option opts arg i att"
  shows "\<not> no_option arg" "option_index opts arg = i" "option_text opt arg rest = text_with opt att rest"
proof -
  have "\<not> no_option arg \<and> option_index opts arg = i \<and> option_text opt arg rest = text_with opt att rest"
    using assms
  proof cases
    case (name_long n)
    moreover have "find_char (''--'' @ n) (CHR ''='') = None" using name_long by (simp add: find_char_None)
    ultimately show ?thesis
      by (auto simp: option_index_def long_option_def option_text_def text_with_def by_name_def Let_def
          split: list.split)
  next
    case (name_long_eq n v)
    have "find_char ((''--'' @ n) @ CHR ''='' # v) (CHR ''='') = Some (length (''--'' @ n))"
      using name_long_eq by (intro find_char_split) simp
    with name_long_eq show ?thesis
      by (auto simp: option_index_def long_option_def option_text_def text_with_def by_name_def Let_def)
  next
    case (name_short c)
    then show ?thesis
      by (auto simp: option_index_def long_option_def option_text_def text_with_def by_alias_def Let_def
          split: list.split)
  next
    case (name_short_text c v)
    then show ?thesis
      by (cases v) (auto simp: option_index_def long_option_def option_text_def text_with_def by_alias_def Let_def)
  qed
  then show "\<not> no_option arg" "option_index opts arg = i" "option_text opt arg rest = text_with opt att rest"
    by blast+
qed

lemma names_option_unique:
  assumes "names_option opts arg i att" and "names_option opts arg j att'"
  shows "j = i" "att' = att"
proof -
  show "j = i" using names_option_read(2) assms by metis
  let ?opt = "\<lparr>opt_name = [], opt_alias = [], opt_description = [], opt_group = [], opt_is_flag = False,
    opt_assign = \<lambda>v s. Inr s\<rparr> :: unit cl_option"
  have "text_with ?opt att' [] = text_with ?opt att []" using names_option_read(3) assms by metis
  then show "att' = att" by (auto simp: text_with_def split: option.splits)
qed

lemma gets_text_with: "gets_text opt att rest v \<longleftrightarrow> (\<exists>rest'. text_with opt att rest = Inr (v, rest'))"
  by (auto simp: gets_text_simps text_with_def split: option.splits list.splits if_splits)

lemma text_with_error:
  "text_with opt att rest = Inl msg \<longleftrightarrow>
     opt_is_flag opt \<and> (\<exists>v. att = Some v) \<and> msg = ''option takes no value: --'' @ opt_name opt \<or>
     \<not> opt_is_flag opt \<and> att = None \<and> (rest = [] \<or> take 2 (hd rest) = ''--'') \<and>
       msg = ''missing value: --'' @ opt_name opt"
  by (cases att; cases rest) (auto simp: text_with_def)

text \<open>When an argument that names an unused option is rejected.\<close>

lemma rejects_named:
  assumes nm: "names_option opts arg i att" and i: "i < length opts" and fresh: "i \<notin> used"
  shows "rejects opts used arg rest s msg \<longleftrightarrow>
    text_with (opts ! i) att rest = Inl msg \<or>
    (\<exists>v err. gets_text (opts ! i) att rest v \<and> opt_assign (opts ! i) v s = Inl err \<and>
      msg = ''invalid value for --'' @ opt_name (opts ! i) @ '': '' @ v @ '' ('' @ err @ '')'')"
    (is "?R \<longleftrightarrow> ?E")
proof -
  note used = names_option_unique [OF nm]
  have dash: "\<not> no_option arg" by (rule names_option_read(1) [OF nm])
  then have one: "take 1 arg = ''-''" by (cases arg) auto
  show ?thesis
  proof
    assume ?R
    then show ?E
    proof cases
      case not_an_option
      with dash one show ?thesis by blast
    next
      case (unknown_option att')
      with used(1) [of "length opts" att'] i show ?thesis by simp
    next
      case (duplicate_option j att')
      with used(1) [of j att'] fresh show ?thesis by simp
    next
      case (flag_with_value j v)
      with used [of j "Some v"] have "j = i" "att = Some v" by auto
      with flag_with_value show ?thesis by (simp add: text_with_def)
    next
      case (missing_value j)
      with used [of j None] have "j = i" "att = None" by auto
      with missing_value show ?thesis unfolding text_with_error by blast
    next
      case (invalid_value j att' v err)
      with used [of j att'] have "j = i" "att' = att" by auto
      with invalid_value show ?thesis by blast
    qed
  next
    assume ?E
    then consider (flag) v where "opt_is_flag (opts ! i)" "att = Some v"
          "msg = ''option takes no value: --'' @ opt_name (opts ! i)"
      | (miss) "\<not> opt_is_flag (opts ! i)" "att = None" "rest = [] \<or> take 2 (hd rest) = ''--''"
          "msg = ''missing value: --'' @ opt_name (opts ! i)"
      | (bad) v err where "gets_text (opts ! i) att rest v" "opt_assign (opts ! i) v s = Inl err"
          "msg = ''invalid value for --'' @ opt_name (opts ! i) @ '': '' @ v @ '' ('' @ err @ '')''"
      unfolding text_with_error by metis
    then show ?R
    proof cases
      case flag
      show ?R unfolding flag(3) by (rule flag_with_value [OF nm [unfolded flag(2)] i fresh flag(1)])
    next
      case miss
      show ?R unfolding miss(4) by (rule missing_value [OF nm [unfolded miss(2)] i fresh miss(1,3)])
    next
      case bad
      show ?R unfolding bad(3) by (rule invalid_value [OF nm i fresh bad(1,2)])
    qed
  qed
qed

section \<open>Every error has its rule\<close>

text \<open>An argument that is no option at all, or names none that may still be given.\<close>

lemma parse_args_no_option:
  assumes bare: "no_option arg"
  shows "parse_args opts seen (arg # rest) s = Inl msg \<longleftrightarrow>
    rejects opts {i. i < length opts \<and> seen ! i} arg rest s msg \<or>
    (\<exists>i v rest' s1. step_text opts arg rest = Some (i, v, rest') \<and> \<not> seen ! i \<and>
       opt_assign (opts ! i) v s = Inr s1 \<and> parse_args opts (seen[i := True]) rest' s1 = Inl msg)"
proof -
  have none: "\<not> names_option opts arg i att" for i att using names_option_read(1) bare by blast
  have one: "take 1 arg = ''-'' \<longleftrightarrow> arg ! 0 = CHR ''-''" if "\<not> length arg < 2"
    using that by (cases arg) auto
  have parse: "parse_args opts seen (arg # rest) s =
    (if arg = ''--'' \<and> rest = [] then Inr s else Inl (''unexpected argument: '' @ arg))"
    by (subst parse_args.simps(2)) (rule if_cong [OF refl refl if_P [OF bare]])
  have reject: "rejects opts {i. i < length opts \<and> seen ! i} arg rest s msg \<longleftrightarrow>
    (length arg < 2 \<or> take 1 arg \<noteq> ''-'' \<or> arg = ''--'' \<and> rest \<noteq> []) \<and> msg = ''unexpected argument: '' @ arg"
    by (auto simp: rejects_iff none)
  have "(length arg < 2 \<or> take 1 arg \<noteq> ''-'' \<or> arg = ''--'' \<and> rest \<noteq> []) \<longleftrightarrow> \<not> (arg = ''--'' \<and> rest = [])"
  proof (cases "length arg < 2 \<or> arg = ''--''")
    case False
    with bare one show ?thesis by blast
  qed auto
  moreover have "step_text opts arg rest = None" unfolding step_text_def using bare by (simp only: if_True)
  ultimately show ?thesis unfolding parse reject by (cases "arg = ''--'' \<and> rest = []") auto
qed

lemma parse_args_bad_option:
  assumes nm: "names_option opts arg i att" and taken: "i = length opts \<or> seen ! i" and le: "i \<le> length opts"
  shows "parse_args opts seen (arg # rest) s = Inl msg \<longleftrightarrow>
    rejects opts {i. i < length opts \<and> seen ! i} arg rest s msg \<or>
    (\<exists>i v rest' s1. step_text opts arg rest = Some (i, v, rest') \<and> \<not> seen ! i \<and>
       opt_assign (opts ! i) v s = Inr s1 \<and> parse_args opts (seen[i := True]) rest' s1 = Inl msg)"
proof -
  have option: "\<not> no_option arg" by (rule names_option_read(1) [OF nm])
  then have dash: "take 1 arg = ''-''" by (cases arg) auto
  have used: "names_option opts arg j att' \<longleftrightarrow> j = i \<and> att' = att" for j att'
    using nm names_option_unique by blast
  note read = names_option_read [OF nm]
  have parse: "parse_args opts seen (arg # rest) s =
    (if i = length opts then Inl (''unknown option: '' @ arg) else Inl (''duplicate option: --'' @ opt_name (opts ! i)))"
    using option taken read(2) unfolding parse_args.simps(2) Let_def by (elim disjE) simp_all
  have reject: "rejects opts {i. i < length opts \<and> seen ! i} arg rest s msg \<longleftrightarrow>
    (if i = length opts then msg = ''unknown option: '' @ arg else msg = ''duplicate option: --'' @ opt_name (opts ! i))"
    unfolding rejects_iff used using option dash taken le by auto
  have "\<not> (\<exists>v rest' s1. step_text opts arg rest = Some (j, v, rest') \<and> \<not> seen ! j)" for j
    using taken read by (auto simp: step_text_def split: sum.splits)
  then show ?thesis unfolding parse reject by auto
qed

text \<open>One argument: it is rejected, or taken and the rest rejected.\<close>

lemma parse_args_error:
  assumes "length seen = length opts"
  shows "parse_args opts seen (arg # rest) s = Inl msg \<longleftrightarrow>
    rejects opts {i. i < length opts \<and> seen ! i} arg rest s msg \<or>
    (\<exists>i v rest' s1. step_text opts arg rest = Some (i, v, rest') \<and> \<not> seen ! i \<and>
       opt_assign (opts ! i) v s = Inr s1 \<and> parse_args opts (seen[i := True]) rest' s1 = Inl msg)"
proof (cases "no_option arg")
  case True
  then show ?thesis by (rule parse_args_no_option)
next
  case False
  then obtain i att where nm: "names_option opts arg i att" using names_option_exists by blast
  have le: "i \<le> length opts" using option_index_le [of opts arg] names_option_read(2) [OF nm] by simp
  show ?thesis
  proof (cases "i = length opts \<or> seen ! i")
    case True
    with nm show ?thesis using le by (rule parse_args_bad_option)
  next
    case unused: False
    then have i: "i < length opts" "\<not> seen ! i" "i \<noteq> length opts" using le by auto
    note read = names_option_read [OF nm]
    have parse: "parse_args opts seen (arg # rest) s =
      (case text_with (opts ! i) att rest of
         Inl e \<Rightarrow> Inl e
       | Inr (v, rest') \<Rightarrow>
           (case opt_assign (opts ! i) v s of
              Inl err \<Rightarrow> Inl (''invalid value for --'' @ opt_name (opts ! i) @ '': '' @ v @ '' ('' @ err @ '')'')
            | Inr s' \<Rightarrow> parse_args opts (seen[i := True]) rest' s'))"
      by (subst parse_args.simps(2)) (use False i in \<open>simp add: Let_def read\<close>)
    have fresh: "i \<notin> {i. i < length opts \<and> seen ! i}" using i(2) by simp
    have step: "step_text opts arg rest =
      (case text_with (opts ! i) att rest of Inl _ \<Rightarrow> None | Inr (v, rest') \<Rightarrow> Some (i, v, rest'))"
      using False i by (simp add: step_text_def read)
    show ?thesis
      unfolding parse step rejects_named [OF nm i(1) fresh] gets_text_with
      using i(2) by (cases "text_with (opts ! i) att rest") (auto split: sum.splits)
  qed
qed

text \<open>What an argument takes does not depend on the arguments after its own.\<close>

lemma option_text_append:
  "option_text opt arg rest = Inr (v, rest') \<Longrightarrow> option_text opt arg (rest @ others) = Inr (v, rest' @ others)"
  by (auto simp: option_text_def Let_def split: if_splits list.splits)

lemma step_text_append:
  "step_text opts arg rest = Some (i, v, rest') \<Longrightarrow> step_text opts arg (rest @ others) = Some (i, v, rest' @ others)"
  by (auto simp: step_text_def Let_def option_text_append split: if_splits sum.splits)

lemma option_text_subset: "option_text opt arg rest = Inr (v, rest') \<Longrightarrow> \<exists>taken. rest = taken @ rest' \<and> ''--'' \<notin> set taken"
  by (auto simp: option_text_def Let_def split: if_splits list.splits)

lemma step_text_rest:
  assumes "step_text opts arg rest = Some (i, v, rest')"
  obtains taken where "rest = taken @ rest'" "''--'' \<notin> set taken" "arg \<noteq> ''--''"
  using assms option_text_subset [of "opts ! i" arg rest v rest']
  by (auto simp: step_text_def Let_def split: if_splits sum.splits)

text \<open>
  The parser fails exactly on the first argument that is rejected, after arguments that spell
  options it has not seen, whose texts have been assigned.
\<close>

definition stops_at ::
    "'s cl_option list \<Rightarrow> nat set \<Rightarrow> string list \<Rightarrow> 's \<Rightarrow> string \<Rightarrow> bool" where
  "stops_at opts used args s msg \<longleftrightarrow>
     (\<exists>before arg rest ts s1. args = before @ arg # rest \<and> lexes opts before ts \<and> ''--'' \<notin> set before \<and>
        distinct (map fst ts) \<and> used \<inter> fst ` set ts = {} \<and> assign_all opts ts s = Inr s1 \<and>
        rejects opts (used \<union> fst ` set ts) arg rest s1 msg)"

lemma stops_at_Nil: "\<not> stops_at opts used [] s msg"
  by (simp add: stops_at_def)

lemma stops_at_Cons:
  "stops_at opts used (arg # rest) s msg \<longleftrightarrow>
     rejects opts used arg rest s msg \<or>
     (\<exists>i v rest' s1. step_text opts arg rest = Some (i, v, rest') \<and> i \<notin> used \<and>
        opt_assign (opts ! i) v s = Inr s1 \<and> stops_at opts (insert i used) rest' s1 msg)"
    (is "?L \<longleftrightarrow> ?now \<or> ?later")
proof
  assume ?L
  then obtain before a r ts s1 where h: "arg # rest = before @ a # r" "lexes opts before ts" "''--'' \<notin> set before"
    "distinct (map fst ts)" "used \<inter> fst ` set ts = {}" "assign_all opts ts s = Inr s1"
    "rejects opts (used \<union> fst ` set ts) a r s1 msg"
    by (auto simp: stops_at_def)
  show "?now \<or> ?later"
  proof (cases before)
    case Nil
    with h show ?thesis by (auto elim!: lexes_NilE)
  next
    case (Cons b bs)
    then obtain i v r' ts' where st: "step_text opts b bs = Some (i, v, r')" "ts = (i, v) # ts'" "lexes opts r' ts'"
      using lexes_inv [of opts b bs ts] h(2,3) by auto
    obtain s2 where s2: "opt_assign (opts ! i) v s = Inr s2" "assign_all opts ts' s2 = Inr s1"
      using h(6) st(2) by (auto split: sum.splits)
    obtain taken where "bs = taken @ r'" using step_text_rest [OF st(1)] by blast
    then have "''--'' \<notin> set r'" using h(3) Cons by auto
    then have "stops_at opts (insert i used) (r' @ a # r) s2 msg"
      using st(2,3) s2(2) h(4,5,7) unfolding stops_at_def
      by (intro exI [of _ r'] exI [of _ a] exI [of _ r] exI [of _ ts'] exI [of _ s1]) auto
    moreover have "step_text opts arg rest = Some (i, v, r' @ a # r)"
      using step_text_append [OF st(1), of "a # r"] h(1) Cons by simp
    ultimately show ?thesis using s2(1) h(5) st(2) by auto
  qed
next
  assume "?now \<or> ?later"
  then show ?L
  proof
    assume ?now
    then show ?L unfolding stops_at_def
      by (intro exI [of _ "[]"] exI [of _ arg] exI [of _ rest] exI [of _ "[]"] exI [of _ s]) (simp add: lex_end)
  next
    assume ?later
    then obtain i v rest' s1 before a r ts s2 where st: "step_text opts arg rest = Some (i, v, rest')" "i \<notin> used"
      "opt_assign (opts ! i) v s = Inr s1"
      and h: "rest' = before @ a # r" "lexes opts before ts" "''--'' \<notin> set before" "distinct (map fst ts)"
        "insert i used \<inter> fst ` set ts = {}" "assign_all opts ts s1 = Inr s2"
        "rejects opts (insert i used \<union> fst ` set ts) a r s2 msg"
      by (auto simp: stops_at_def)
    obtain taken where taken: "rest = taken @ rest'" "''--'' \<notin> set taken" "arg \<noteq> ''--''"
      using step_text_rest [OF st(1)] by blast
    have "step_text opts arg (taken @ before) = Some (i, v, before)"
      using st(1) taken(1) h(1) by (auto simp: step_text_def option_text_def Let_def split: if_splits list.splits sum.splits)
    from lexes_step [OF this h(2)] have "lexes opts (arg # taken @ before) ((i, v) # ts)" .
    then show ?L unfolding stops_at_def
      using taken h st(2,3)
      by (intro exI [of _ "arg # taken @ before"] exI [of _ a] exI [of _ r] exI [of _ "(i, v) # ts"] exI [of _ s2])
         (auto simp: Un_commute)
  qed
qed

lemma parse_args_stops:
  assumes "length seen = length opts"
  shows "parse_args opts seen args s = Inl msg \<longleftrightarrow> stops_at opts {i. i < length opts \<and> seen ! i} args s msg"
  using assms
proof (induction "length args" arbitrary: args seen s rule: less_induct)
  case less
  show ?case
  proof (cases args)
    case (Cons arg rest)
    have "parse_args opts (seen[i := True]) rest' s1 = Inl msg \<longleftrightarrow>
        stops_at opts (insert i {i. i < length opts \<and> seen ! i}) rest' s1 msg"
      if "step_text opts arg rest = Some (i, v, rest')" for i v rest' s1
    proof -
      note b = step_text_bounds [OF that]
      have "{j. j < length opts \<and> seen[i := True] ! j} = insert i {i. i < length opts \<and> seen ! i}"
        using b less.prems by (auto simp: nth_list_update)
      with less.hyps [of rest' "seen[i := True]" s1] b less.prems Cons show ?thesis by auto
    qed
    then show ?thesis
      using step_text_bounds [of opts arg rest]
      unfolding Cons parse_args_error [OF less.prems] stops_at_Cons by blast
  qed (simp add: stops_at_Nil)
qed

lemma cl_parse_stops: "cl_parse cl args s = Inl msg \<longleftrightarrow> stops_at (cl_options cl) {} args s msg"
proof -
  have "{i. i < length (cl_options cl) \<and> replicate (length (cl_options cl)) False ! i} = {}" by auto
  then show ?thesis unfolding cl_parse_def parse_args_stops [of "replicate n False" for n, OF length_replicate]
    by (simp only:)
qed

end
