(* ===== verification/Option_Props.thy ===== *)
theory Option_Props
  imports Option_Errors
begin

text \<open>
  The properties of the option parser: what it accepts, which integers it reads, and the
  vectors of \<open>src/tests/command_line_test.cc\<close>.
\<close>

section \<open>The test fixture\<close>

text \<open>The variables and options of the fixture in \<open>src/tests/command_line_test.cc\<close>.\<close>

record fixture =
  fx_count :: int
  fx_size :: int
  fx_delay :: int
  fx_verbose :: bool

definition fixture_cl :: "fixture command_line \<times> fixture" where
  "fixture_cl =
     cl_flag ''verbose,v'' (\<lambda>b. fx_verbose_update (\<lambda>_. b)) ''verbose output''
       (cl_value int32_type ''delay,d'' (\<lambda>v. fx_delay_update (\<lambda>_. v)) 0 ''delay''
         (cl_value uint64_type ''size,b'' (\<lambda>v. fx_size_update (\<lambda>_. v)) 1024 ''region size''
           (cl_value uint32_type ''count,n'' (\<lambda>v. fx_count_update (\<lambda>_. v)) 4 ''thread count''
             (cl_set_group ''Generic options'' (CommandLine ''Test benchmark''),
              \<lparr>fx_count = 0, fx_size = 0, fx_delay = 0, fx_verbose = False\<rparr>))))"

definition fixture_parse :: "string list \<Rightarrow> string + fixture" where
  "fixture_parse args = cl_parse (fst fixture_cl) args (snd fixture_cl)"

abbreviation rejected :: "string + 'a \<Rightarrow> bool" where
  "rejected r \<equiv> isl r"

definition fixture_invalid :: "string list list" where
  "fixture_invalid =
    [[''--unknown''], [''positional''], [''--'', ''positional''],
     [''--count''], [''--count'', ''--verbose''], [''--count=''],
     [''--count'', ''-1''], [''--count=4294967296''],
     [''--size=18446744073709551616''], [''--delay=2147483648''],
     [''--delay=-2147483649''], [''--count=2junk''], [''--count=1.5''],
     [''--count= 2''], [''--count=++2''], [''--count=+-2''],
     [''--count=+''], [''--count=1'', ''-n2''],
     [''--verbose=true''], [''-v1''], [''--verbose'', ''-v'']]"

lemmas parser_eval = parse_args.simps option_index_def option_text_def long_option_def
  find_char_def value_assign_def find_first_not_of_def stoll_def stoull_def strto_def Let_def
  is_space_def is_digit_def read_digits_def digit_val_def

lemma fixture_cl_eval:
  "fixture_cl =
    (\<lparr>cl_title = ''Test benchmark'', cl_group = ''Generic options'', cl_options =
       [\<lparr>opt_name = ''count'', opt_alias = ''n'', opt_description = ''thread count (default: 4)'',
          opt_group = ''Generic options'', opt_is_flag = False,
          opt_assign = (\<lambda>text s. map_sum id (\<lambda>v. s\<lparr>fx_count := v\<rparr>) (value_assign uint32_type text))\<rparr>,
        \<lparr>opt_name = ''size'', opt_alias = ''b'', opt_description = ''region size (default: 1024)'',
          opt_group = ''Generic options'', opt_is_flag = False,
          opt_assign = (\<lambda>text s. map_sum id (\<lambda>v. s\<lparr>fx_size := v\<rparr>) (value_assign uint64_type text))\<rparr>,
        \<lparr>opt_name = ''delay'', opt_alias = ''d'', opt_description = ''delay (default: 0)'',
          opt_group = ''Generic options'', opt_is_flag = False,
          opt_assign = (\<lambda>text s. map_sum id (\<lambda>v. s\<lparr>fx_delay := v\<rparr>) (value_assign int32_type text))\<rparr>,
        \<lparr>opt_name = ''verbose'', opt_alias = ''v'', opt_description = ''verbose output'',
          opt_group = ''Generic options'', opt_is_flag = True,
          opt_assign = (\<lambda>text s. Inr (s\<lparr>fx_verbose := True\<rparr>))\<rparr>]\<rparr>,
     \<lparr>fx_count = 4, fx_size = 1024, fx_delay = 0, fx_verbose = False\<rparr>)"
  unfolding fixture_cl_def
  by (simp add: cl_flag_def cl_value_def cl_add_def CommandLine_def cl_set_group_def
      find_char_def Let_def uint32_type_def uint64_type_def int32_type_def it_cast_def
      show_eval)

lemmas fixture_eval = fixture_parse_def cl_parse_def fixture_cl_eval parser_eval
  uint32_type_def uint64_type_def int32_type_def it_cast_def it_max_def it_min_def

lemma fixture_rejects: "list_all (\<lambda>args. rejected (fixture_parse args)) fixture_invalid"
  unfolding fixture_invalid_def by (simp add: fixture_eval)

section \<open>The properties\<close>

text \<open>
  C12. The parser refines the grammar of command lines: \<open>parse\<close> succeeds with a state
  exactly when the arguments spell a sequence of options and texts in one of the forms
  \<open>--flag\<close>, \<open>-f\<close>, \<open>--name=text\<close>, \<open>--name text\<close>, \<open>-ntext\<close> or \<open>-n text\<close>, no option
  occurs twice, and every option accepts its text; the state is then the one the
  assignments produce in order. It fails with a message exactly when the arguments before
  some argument spell different options whose texts are accepted and that argument is
  rejected with this message: it is no option at all, names no option of the table, repeats
  one, gives a flag a value, lacks the value of an option, or its text is refused by the
  assignment, whose reason the message then quotes.
\<close>

theorem parse_refines_grammar:
  "(cl_parse cl args s = Inr s' \<longleftrightarrow>
     (\<exists>ts. lexes (cl_options cl) args ts \<and> distinct (map fst ts) \<and>
        assign_all (cl_options cl) ts s = Inr s')) \<and>
   (cl_parse cl args s = Inl msg \<longleftrightarrow>
     (\<exists>before arg rest ts s1. args = before @ arg # rest \<and> lexes (cl_options cl) before ts \<and>
        ''--'' \<notin> set before \<and> distinct (map fst ts) \<and> assign_all (cl_options cl) ts s = Inr s1 \<and>
        rejects (cl_options cl) (fst ` set ts) arg rest s1 msg))"
  using cl_parse_assigns [of cl args s s'] cl_parse_stops [of cl args s msg] by (simp add: stops_at_def)

text \<open>
  C24. What an integer option reads: a text assigns the value \<open>v\<close> exactly when it is an
  optional sign and decimal digits (a minus only for a signed target) that denote \<open>v\<close>, and
  \<open>v\<close> lies in the range of the target type. White space, trailing characters, a second
  sign, and values that wrap are all rejected.
\<close>

theorem value_assign_correct:
  assumes "0 < it_bits ty" and "it_bits ty \<le> 64"
  shows "value_assign ty text = Inr v \<longleftrightarrow>
    (\<exists>neg ds. decimal_text text neg ds \<and> (neg \<longrightarrow> it_signed ty) \<and>
       v = decimal_value neg ds \<and> it_min ty \<le> v \<and> v \<le> it_max ty)"
proof (cases "\<exists>neg ds. decimal_text text neg ds")
  case True
  then obtain neg ds where d: "decimal_text text neg ds" by blast
  with decimal_text_unique [OF d] value_assign_decimal [OF d assms, of v]
  show ?thesis by blast
next
  case False
  then show ?thesis using value_assign_rejects [of "text" ty] by auto
qed

lemma value_assign_correct_witness:
  "value_assign int32_type ''-2147483648'' = Inr (- 2147483648) \<and>
   value_assign int32_type ''2147483648'' \<noteq> Inr 2147483648 \<and>
   value_assign uint32_type '' 2'' \<noteq> Inr 2"
proof -
  have d: "decimal_text ''-2147483648'' True ''2147483648''"
    "decimal_text ''2147483648'' False ''2147483648''" "\<And>neg ds. \<not> decimal_text '' 2'' neg ds"
    by (auto simp: decimal_text_def is_digit_def)
  have b: "0 < it_bits int32_type" "it_bits int32_type \<le> 64" "it_signed int32_type"
    "0 < it_bits uint32_type" "it_bits uint32_type \<le> 64"
    by (simp_all add: int32_type_def uint32_type_def)
  have v: "decimal_value True ''2147483648'' = - 2147483648"
    by (simp add: decimal_value_def read_digits_def digit_val_def)
  have m: "it_min int32_type \<le> - 2147483648" "- 2147483648 \<le> it_max int32_type"
    "\<not> 2147483648 \<le> it_max int32_type"
    by (simp_all add: int32_type_def it_min_def it_max_def)
  have "value_assign int32_type ''-2147483648'' = Inr (- 2147483648)"
    by (subst value_assign_correct [OF b(1,2)]) (use d(1) v m b(3) in \<open>metis\<close>)
  moreover have "value_assign int32_type ''2147483648'' \<noteq> Inr 2147483648"
    by (subst value_assign_correct [OF b(1,2)]) (use m(3) in blast)
  moreover have "value_assign uint32_type '' 2'' \<noteq> Inr 2"
    by (subst value_assign_correct [OF b(4,5)]) (use d(3) in blast)
  ultimately show ?thesis by blast
qed

text \<open>
  Round trip: the decimal rendering of a value of the target type (as the help text
  prints the default) is read back as that value.
\<close>

theorem value_assign_roundtrip:
  assumes "0 < it_bits ty" and "it_bits ty \<le> 64" and "it_min ty \<le> v" and "v \<le> it_max ty"
  shows "value_assign ty (show_int v) = Inr v"
  using assms by (rule value_assign_show_int)

lemma value_assign_roundtrip_witness:
  "value_assign int32_type (show_int (- 2147483648)) = Inr (- 2147483648)"
  by (rule value_assign_roundtrip) (simp_all add: int32_type_def it_min_def it_max_def)

text \<open>
  The four spellings of an option with a value, \<open>--name=text\<close>, \<open>--name text\<close>,
  \<open>-ntext\<close> and \<open>-n text\<close>, have the same effect: the option's own assignment, with its
  error wrapped in the message that names the option.
\<close>

theorem spellings_agree:
  assumes "by_name (cl_options cl) n = i" and "by_alias (cl_options cl) c = i"
    and "i < length (cl_options cl)" and "\<not> opt_is_flag (cl_options cl ! i)"
    and "n \<noteq> []" and "CHR ''='' \<notin> set n" and "c \<noteq> CHR ''-''"
    and "v \<noteq> []" and "take 2 v \<noteq> ''--''"
    and "args \<in> {[''--'' @ n @ ''='' @ v], [''--'' @ n, v], [''-'' @ [c] @ v], [''-'' @ [c], v]}"
  shows "cl_parse cl args s =
    (case opt_assign (cl_options cl ! i) v s of
       Inl err \<Rightarrow> Inl (''invalid value for --'' @ opt_name (cl_options cl ! i) @ '': '' @ v @
                       '' ('' @ err @ '')'')
     | Inr s' \<Rightarrow> Inr s')"
proof -
  obtain arg rest where args: "args = arg # rest" and
    st: "step_text (cl_options cl) arg rest = Some (i, v, [])"
    using assms(10)
  proof (elim insertE emptyE, goal_cases)
    case 1
    then show ?thesis
      using assms by (intro that [of "''--'' @ n @ ''='' @ v" "[]"]) (simp_all add: step_text_long_eq [simplified] Let_def)
  next
    case 2
    then show ?thesis
      using assms by (intro that [of "''--'' @ n" "[v]"]) (simp_all add: step_text_long [simplified] Let_def)
  next
    case 3
    then show ?thesis
      using assms by (intro that [of "''-'' @ [c] @ v" "[]"]) (simp_all add: step_text_short Let_def)
  next
    case 4
    then show ?thesis
      using assms by (intro that [of "''-'' @ [c]" "[v]"]) (simp_all add: step_text_short Let_def)
  qed
  from st show ?thesis unfolding args by (rule parse_single)
qed

lemma spellings_agree_witness:
  "fixture_parse [''-d-1''] = Inr \<lparr>fx_count = 4, fx_size = 1024, fx_delay = - 1, fx_verbose = False\<rparr>"
proof -
  let ?opts = "cl_options (fst fixture_cl)"
  have v: "value_assign int32_type ''-1'' = Inr (- 1)" by (simp add: fixture_eval)
  have "fixture_parse [''-d-1''] =
    (case opt_assign (?opts ! 2) ''-1'' (snd fixture_cl) of
       Inl err \<Rightarrow> Inl (''invalid value for --'' @ opt_name (?opts ! 2) @ '': '' @ ''-1'' @
                       '' ('' @ err @ '')'')
     | Inr s' \<Rightarrow> Inr s')"
    unfolding fixture_parse_def
    by (rule spellings_agree [where n = "''delay''" and c = "CHR ''d''"])
       (simp_all add: fixture_cl_eval by_name_def by_alias_def)
  then show ?thesis by (simp add: fixture_cl_eval v)
qed

text \<open>
  The vectors of \<open>command_line_test.cc\<close>: the defaults and the three accepted command
  lines give exactly the values the test requires, all the command lines it lists as
  invalid are rejected, and the help text is the one it searches.
\<close>

theorem command_line_tests:
  "fixture_parse [] = Inr \<lparr>fx_count = 4, fx_size = 1024, fx_delay = 0, fx_verbose = False\<rparr> \<and>
   fixture_parse [''--count=4294967295'', ''--size'', ''18446744073709551615'',
      ''--delay=-2147483648'', ''--verbose''] =
     Inr \<lparr>fx_count = 2 ^ 32 - 1, fx_size = 2 ^ 64 - 1, fx_delay = - (2 ^ 31), fx_verbose = True\<rparr> \<and>
   fixture_parse [''-n2'', ''-b'', ''4096'', ''-d2147483647'', ''-v'', ''--''] =
     Inr \<lparr>fx_count = 2, fx_size = 4096, fx_delay = 2 ^ 31 - 1, fx_verbose = True\<rparr> \<and>
   fixture_parse [''--count'', ''+2'', ''--size=0'', ''-d'', ''-1''] =
     Inr \<lparr>fx_count = 2, fx_size = 0, fx_delay = - 1, fx_verbose = False\<rparr> \<and>
   list_all (\<lambda>args. rejected (fixture_parse args)) fixture_invalid \<and>
   cl_help (fst fixture_cl) =
     ''Test benchmark'' @ newline @ newline @ ''Generic options:'' @ newline @
     ''  --count, -n VALUE'' @ newline @ ''      thread count (default: 4)'' @ newline @
     ''  --size, -b VALUE'' @ newline @ ''      region size (default: 1024)'' @ newline @
     ''  --delay, -d VALUE'' @ newline @ ''      delay (default: 0)'' @ newline @
     ''  --verbose, -v'' @ newline @ ''      verbose output'' @ newline"
  by (intro conjI fixture_rejects) (simp_all add: fixture_eval cl_help_def)

end
