(* ===== verification/Numa_Config.thy ===== *)
theory Numa_Config
  imports Prelude
begin

text \<open>
  The machine's topology as the program sees it, \<open>src/common/numa_config.h\<close> and the
  constructor of \<open>src/common/numa_config.cc\<close>. What \<open>libnuma\<close> and the standard library
  answer is the record \<open>numa_env\<close>; a query of a node's CPUs that fails is \<open>None\<close>. The
  \<open>std::map\<close>s are association lists in key order, which is the order they are filled in.
\<close>

section \<open>The configuration and its constructor\<close>

record numa_env =
  ne_max_node :: int
  ne_num_configured_nodes :: int
  ne_num_possible_nodes :: int
  ne_num_possible_cpus :: int
  ne_hardware_concurrency :: u32
  ne_all_cpus :: "u32 \<Rightarrow> bool"
  ne_node_size64 :: "u32 \<Rightarrow> int"
  ne_node_to_cpus :: "u32 \<Rightarrow> (u32 \<Rightarrow> bool) option"

record numa_config =
  num_numa_nodes :: u32
  num_numa_nodes_configured :: u32
  num_numa_nodes_possible :: u32
  num_cpus :: u32
  num_cpus_possible :: u32
  all_cpus :: "u32 list"
  all_allowed_cpus :: "u32 list"
  node_to_mem :: "(u32 \<times> int) list"
  node_to_cpus :: "(u32 \<times> u32 list) list"
  node_to_allowed_cpus :: "(u32 \<times> u32 list) list"

text \<open>\<open>for (uint32_t i = 0; i < n; ++i)\<close>\<close>

definition below :: "u32 \<Rightarrow> u32 list" where
  "below n = map of_nat [0..<unat n]"

definition cpus_of_node :: "numa_env \<Rightarrow> u32 \<Rightarrow> u32 \<Rightarrow> u32 list" where
  "cpus_of_node env possible i =
     (case ne_node_to_cpus env i of
        None \<Rightarrow> []
      | Some cpumask \<Rightarrow> filter cpumask (below possible))"

definition allowed_cpus_of_node :: "numa_env \<Rightarrow> u32 \<Rightarrow> u32 \<Rightarrow> u32 list" where
  "allowed_cpus_of_node env possible i =
     (case ne_node_to_cpus env i of
        None \<Rightarrow> []
      | Some cpumask \<Rightarrow> filter (\<lambda>j. cpumask j \<and> ne_all_cpus env j) (below possible))"

definition NumaConfig :: "numa_env \<Rightarrow> numa_config" where
  "NumaConfig env =
     (let nodes = word_of_int (ne_max_node env + 1);
          possible = word_of_int (ne_num_possible_cpus env)
      in \<lparr>num_numa_nodes = nodes,
          num_numa_nodes_configured = word_of_int (ne_num_configured_nodes env),
          num_numa_nodes_possible = word_of_int (ne_num_possible_nodes env),
          num_cpus = ne_hardware_concurrency env,
          num_cpus_possible = possible,
          all_cpus = below (ne_hardware_concurrency env),
          all_allowed_cpus = filter (ne_all_cpus env) (below possible),
          node_to_mem = map (\<lambda>i. (i, ne_node_size64 env i)) (below nodes),
          node_to_cpus = map (\<lambda>i. (i, cpus_of_node env possible i)) (below nodes),
          node_to_allowed_cpus = map (\<lambda>i. (i, allowed_cpus_of_node env possible i)) (below nodes)\<rparr>)"

text \<open>\<open>m.at(i)\<close>\<close>

definition map_at :: "('k \<times> 'v) list \<Rightarrow> 'k \<Rightarrow> fault + 'v" where
  "map_at m k = (case map_of m k of
      None \<Rightarrow> Inl (Uncaught_Exception ''std::out_of_range'')
    | Some v \<Rightarrow> Inr v)"

section \<open>Its well-formedness\<close>

lemma set_below: "set (below n) = {i. i < n}"
proof -
  have "i \<in> set (below n)" if "i < n" for i
    using that unfolding below_def
    by (auto simp: image_iff word_less_nat_alt intro!: bexI [of _ "unat i"])
  moreover have "i < n" if i: "i \<in> set (below n)" for i
  proof -
    obtain k where "k < unat n" "i = of_nat k" using i unfolding below_def by auto
    moreover have "unat (of_nat k :: u32) = k" if "k < unat n" for k
      using that unat_lt_32 [of n] by simp
    ultimately show ?thesis by (simp add: word_less_nat_alt)
  qed
  ultimately show ?thesis by auto
qed

lemma length_below [simp]: "length (below n) = unat n"
  by (simp add: below_def)

lemma nth_below: "k < unat n \<Longrightarrow> unat (below n ! k) = k"
  using unat_lt_32 [of n] by (simp add: below_def)

lemma sorted_below: "sorted_wrt (<) (below n)"
  unfolding sorted_wrt_iff_nth_less
  by (auto simp: word_less_nat_alt nth_below)

lemma distinct_below [simp]: "distinct (below n)"
  using sorted_below strict_sorted_iff by blast

text \<open>
  A configuration is well formed when every list of CPUs is strictly ascending, the three
  maps have exactly the nodes as keys, and the CPUs of a node on which the process may run
  are those of the node that are also allowed for the process.
\<close>

definition numa_wf :: "numa_config \<Rightarrow> bool" where
  "numa_wf nc \<longleftrightarrow>
     sorted_wrt (<) (all_cpus nc) \<and> sorted_wrt (<) (all_allowed_cpus nc) \<and>
     map fst (node_to_mem nc) = below (num_numa_nodes nc) \<and>
     map fst (node_to_cpus nc) = below (num_numa_nodes nc) \<and>
     map fst (node_to_allowed_cpus nc) = below (num_numa_nodes nc) \<and>
     list_all2 (\<lambda>(i, cpus) (j, allowed). i = j \<and> sorted_wrt (<) cpus \<and>
        allowed = filter (\<lambda>c. c \<in> set (all_allowed_cpus nc)) cpus)
       (node_to_cpus nc) (node_to_allowed_cpus nc)"

lemma cpus_of_node_bound: "j \<in> set (cpus_of_node env possible i) \<Longrightarrow> j < possible"
  by (auto simp: cpus_of_node_def set_below split: option.splits)

lemma NumaConfig_wf: "numa_wf (NumaConfig env)"
  unfolding numa_wf_def NumaConfig_def Let_def
  by (auto simp: list_all2_conv_all_nth sorted_below sorted_wrt_filter comp_def set_below
      cpus_of_node_def allowed_cpus_of_node_def split: option.split intro!: filter_cong)

lemma map_at_below:
  "i < n \<Longrightarrow> map_at (map (\<lambda>i. (i, f i)) (below n)) i = Inr (f i)"
  by (simp add: map_at_def map_of_map_restrict set_below)

lemma node_at:
  assumes "i < num_numa_nodes (NumaConfig env)"
  shows "map_at (node_to_mem (NumaConfig env)) i = Inr (ne_node_size64 env i)"
    and "map_at (node_to_cpus (NumaConfig env)) i =
           Inr (cpus_of_node env (num_cpus_possible (NumaConfig env)) i)"
    and "map_at (node_to_allowed_cpus (NumaConfig env)) i =
           Inr (allowed_cpus_of_node env (num_cpus_possible (NumaConfig env)) i)"
  using assms by (simp_all add: NumaConfig_def Let_def map_at_below)

lemma allowed_cpus_of_node_allowed:
  "set (allowed_cpus_of_node env (num_cpus_possible (NumaConfig env)) i)
     \<subseteq> set (all_allowed_cpus (NumaConfig env))"
  by (auto simp: allowed_cpus_of_node_def NumaConfig_def Let_def split: option.splits)

lemma distinct_allowed:
  "distinct (all_allowed_cpus (NumaConfig env))"
  "distinct (allowed_cpus_of_node env possible i)"
  by (auto simp: NumaConfig_def Let_def allowed_cpus_of_node_def split: option.split)

section \<open>An example machine\<close>

text \<open>Two nodes of two CPUs each, the last CPU outside the affinity mask of the process.\<close>

definition example_env :: numa_env where
  "example_env =
     \<lparr>ne_max_node = 1, ne_num_configured_nodes = 2, ne_num_possible_nodes = 2,
      ne_num_possible_cpus = 4, ne_hardware_concurrency = 4, ne_all_cpus = (\<lambda>j. j \<noteq> 3),
      ne_node_size64 = (\<lambda>_. 8589934592),
      ne_node_to_cpus = (\<lambda>i. Some (\<lambda>j. j div 2 = i))\<rparr>"

definition example_machine :: numa_config where
  "example_machine = NumaConfig example_env"

lemma below_numeral:
  "below 2 = [0, 1]" "below 4 = [0, 1, 2, 3]"
  by (simp_all add: below_def upt_rec)

lemma example_machine_eval:
  "example_machine =
     \<lparr>num_numa_nodes = 2, num_numa_nodes_configured = 2, num_numa_nodes_possible = 2,
      num_cpus = 4, num_cpus_possible = 4, all_cpus = [0, 1, 2, 3],
      all_allowed_cpus = [0, 1, 2], node_to_mem = [(0, 8589934592), (1, 8589934592)],
      node_to_cpus = [(0, [0, 1]), (1, [2, 3])],
      node_to_allowed_cpus = [(0, [0, 1]), (1, [2])]\<rparr>"
  by (simp add: example_machine_def example_env_def NumaConfig_def Let_def below_numeral
      cpus_of_node_def allowed_cpus_of_node_def)

end
