(* ===== verification/Configuration.thy ===== *)
theory Configuration
  imports Command_Line Numa_Config
begin

text \<open>
  The benchmark configuration, \<open>src/cpu_micro/lib_configuration.h\<close> and
  \<open>src/cpu_micro/lib_configuration.cc\<close>: the kinds of test, the options each kind offers
  with their defaults, the correction after parsing, and the printed summary.
\<close>

section \<open>Kinds of test\<close>

datatype testing_type = LATENCY | BANDWIDTH | LATENCY_BANDWIDTH | MEMCPY | BRANCH_THROUGHPUT

fun testing_type_code :: "testing_type \<Rightarrow> nat" where
  "testing_type_code LATENCY = 0"
| "testing_type_code BANDWIDTH = 1"
| "testing_type_code LATENCY_BANDWIDTH = 2"
| "testing_type_code MEMCPY = 3"
| "testing_type_code BRANCH_THROUGHPUT = 4"

lemma testing_type_code_eq: "testing_type_code x = testing_type_code y \<Longrightarrow> x = y"
  by (cases x; cases y) simp_all

text \<open>A scoped enumeration compares by its underlying values.\<close>

instantiation testing_type :: linorder
begin

definition less_eq_testing_type :: "testing_type \<Rightarrow> testing_type \<Rightarrow> bool" where
  "less_eq_testing_type x y = (testing_type_code x \<le> testing_type_code y)"

definition less_testing_type :: "testing_type \<Rightarrow> testing_type \<Rightarrow> bool" where
  "less_testing_type x y = (testing_type_code x < testing_type_code y)"

instance
  by standard (auto simp: less_eq_testing_type_def less_testing_type_def intro: testing_type_code_eq)

end

lemma before_branch_throughput [simp]: "x < BRANCH_THROUGHPUT \<longleftrightarrow> x \<noteq> BRANCH_THROUGHPUT"
  by (cases x) (simp_all add: less_testing_type_def)

section \<open>The bound variables\<close>

record configuration =
  cf_numa_config :: numa_config
  cf_branch_case :: u32
  cf_num_threads :: u32
  cf_region_size_kb :: u64
  cf_no_binding :: bool
  cf_verbose :: bool
  cf_access_pattern :: u32
  cf_chunk_size_kb :: u32
  cf_stride_size_b :: u32
  cf_fragment_size_b :: u64
  cf_use_hugepage :: u32
  cf_read_write_mix :: u32
  cf_load_gen_delay :: i32
  cf_target_duration_s :: u32
  cf_latency_matrix :: bool
  cf_bandwidth_matrix :: bool
  cf_memcpy_matrix :: bool
  cf_testing_type :: testing_type
  cf_help :: bool

definition read_write_mix_sweep :: u32 where
  "read_write_mix_sweep = 100"

definition initial_configuration :: "numa_config \<Rightarrow> testing_type \<Rightarrow> configuration" where
  "initial_configuration nc t =
     \<lparr>cf_numa_config = nc, cf_branch_case = 0, cf_num_threads = 1,
      cf_region_size_kb = 128 * 1024, cf_no_binding = False, cf_verbose = False,
      cf_access_pattern = 1, cf_chunk_size_kb = 128, cf_stride_size_b = 64,
      cf_fragment_size_b = 4096, cf_use_hugepage = 0, cf_read_write_mix = 0,
      cf_load_gen_delay = 0, cf_target_duration_s = 10, cf_latency_matrix = False,
      cf_bandwidth_matrix = False, cf_memcpy_matrix = False, cf_testing_type = t,
      cf_help = False\<rparr>"

section \<open>Texts\<close>

definition get_str_access_pattern :: "u32 \<Rightarrow> string" where
  "get_str_access_pattern x =
     (if x = 0 then ''sequential'' else if x = 1 then ''random in chunk''
      else if x = 2 then ''random in full region'' else ''invalid'')"

definition get_str_access_pattern_short :: "u32 \<Rightarrow> string" where
  "get_str_access_pattern_short x =
     (if x = 0 then ''Sequential'' else if x = 1 then ''RandomInChunk''
      else if x = 2 then ''FullRandom'' else ''invalid'')"

definition get_str_huge_page :: "u32 \<Rightarrow> string" where
  "get_str_huge_page x =
     (if x = 0 then ''No huge page'' else if x = 1 then ''2MB huge page''
      else if x = 2 then ''512MB huge page'' else if x = 3 then ''1GB huge page''
      else if x = 4 then ''16GB huge page'' else ''invalid'')"

definition get_str_rw_mix :: "u32 \<Rightarrow> string" where
  "get_str_rw_mix x =
     (if x = 0 then ''all reads'' else if x = 1 then ''1:1 read/write''
      else if x = 2 then ''2:1 read/write'' else if x = 3 then ''3:1 read/write''
      else if x = read_write_mix_sweep then ''sweep read/write ratio'' else ''invalid'')"

definition show_u32 :: "u32 \<Rightarrow> string" where
  "show_u32 x = show_nat (unat x)"

definition show_u64 :: "u64 \<Rightarrow> string" where
  "show_u64 x = show_nat (unat x)"

section \<open>The options of each kind of test\<close>

text \<open>
  The options bind variables of the configuration itself, so a setup step maps the parser
  and the configuration together.
\<close>

type_synonym cf_setup = "configuration command_line \<times> configuration"

definition set_group :: "string \<Rightarrow> cf_setup \<Rightarrow> cf_setup" where
  "set_group name = map_prod (cl_set_group name) id"

abbreviation u32_option ::
    "string \<Rightarrow> ((u32 \<Rightarrow> u32) \<Rightarrow> configuration \<Rightarrow> configuration) \<Rightarrow> u32 \<Rightarrow> string \<Rightarrow> cf_setup \<Rightarrow> cf_setup" where
  "u32_option names upd default_value description \<equiv>
     cl_value uint32_type names (\<lambda>v. upd (\<lambda>_. word_of_int v)) (uint default_value) description"

abbreviation u64_option ::
    "string \<Rightarrow> ((u64 \<Rightarrow> u64) \<Rightarrow> configuration \<Rightarrow> configuration) \<Rightarrow> u64 \<Rightarrow> string \<Rightarrow> cf_setup \<Rightarrow> cf_setup" where
  "u64_option names upd default_value description \<equiv>
     cl_value uint64_type names (\<lambda>v. upd (\<lambda>_. word_of_int v)) (uint default_value) description"

abbreviation i32_option ::
    "string \<Rightarrow> ((i32 \<Rightarrow> i32) \<Rightarrow> configuration \<Rightarrow> configuration) \<Rightarrow> i32 \<Rightarrow> string \<Rightarrow> cf_setup \<Rightarrow> cf_setup" where
  "i32_option names upd default_value description \<equiv>
     cl_value int32_type names (\<lambda>v. upd (\<lambda>_. word_of_int v)) (sint default_value) description"

abbreviation flag_option ::
    "string \<Rightarrow> ((bool \<Rightarrow> bool) \<Rightarrow> configuration \<Rightarrow> configuration) \<Rightarrow> string \<Rightarrow> cf_setup \<Rightarrow> cf_setup" where
  "flag_option names upd description \<equiv> cl_flag names (\<lambda>b. upd (\<lambda>_. b)) description"

definition add_generic_options :: "testing_type \<Rightarrow> cf_setup \<Rightarrow> cf_setup" where
  "add_generic_options t su =
     (let default_num_threads =
            (if t = LATENCY \<or> t = BRANCH_THROUGHPUT then 1
             else of_nat (length (all_allowed_cpus (cf_numa_config (snd su)))));
          default_region_size_kb = (if t = LATENCY then 512 * 1024 else 128 * 1024);
          su1 = u32_option ''num_threads,n'' cf_num_threads_update default_num_threads
                  ''total number of threads''
                  (u32_option ''target_duration,t'' cf_target_duration_s_update 10 ''duration''
                    (flag_option ''help,h'' cf_help_update ''print usage message''
                      (set_group ''Generic options'' su)));
          su2 = (if t < BRANCH_THROUGHPUT
                 then u64_option ''region_size,b'' cf_region_size_kb_update default_region_size_kb
                        ''region size in KB'' su1
                 else su1)
      in flag_option ''verbose,v'' cf_verbose_update ''enable verbose output''
           (flag_option ''no_binding'' cf_no_binding_update ''NOT to do thread-to-core binding'' su2))"

definition add_branch_options :: "cf_setup \<Rightarrow> cf_setup" where
  "add_branch_options su =
     u32_option ''branch_case'' cf_branch_case_update 0
       ''0: sweep all cases; 1-12: select one case (see README)''
       (set_group ''Branch throughput options'' su)"

definition add_latency_options :: "testing_type \<Rightarrow> cf_setup \<Rightarrow> cf_setup" where
  "add_latency_options t su =
     (let default_chunk_size_kb = (if t = LATENCY_BANDWIDTH then 64 else 128);
          su1 = u32_option ''use_hugepage,H'' cf_use_hugepage_update 0
                  (''use huge pages'' @ newline @ ''  0 - '' @ get_str_huge_page 0 @
                   newline @ ''  1 - '' @ get_str_huge_page 1 @
                   newline @ ''  2 - '' @ get_str_huge_page 2 @
                   newline @ ''  3 - '' @ get_str_huge_page 3 @
                   newline @ ''  4 - '' @ get_str_huge_page 4)
                  (u32_option ''stride_size,s'' cf_stride_size_b_update 128 ''stride size in byte''
                    (u32_option ''chunk_size,c'' cf_chunk_size_kb_update default_chunk_size_kb
                       ''chunk size in KB - target L1TLB can cover''
                      (u32_option ''access_pattern,p'' cf_access_pattern_update 1
                        (''access pattern'' @ newline @ ''  0 - '' @ get_str_access_pattern 0 @
                         newline @ ''  1 - '' @ get_str_access_pattern 1 @
                         newline @ ''  2 - '' @ get_str_access_pattern 2)
                        (set_group ''Latency thread options'' su))))
      in if t = LATENCY
         then flag_option ''latency_matrix'' cf_latency_matrix_update
                ''Measure local and cross-socket latencies'' su1
         else su1)"

definition add_bandwidth_options :: "testing_type \<Rightarrow> cf_setup \<Rightarrow> cf_setup" where
  "add_bandwidth_options t su =
     (let default_read_write_mix = (if t = BANDWIDTH then read_write_mix_sweep else 2);
          additional_msg = (if t = BANDWIDTH
            then newline @ show_u32 read_write_mix_sweep @ '' - '' @ get_str_rw_mix read_write_mix_sweep
            else '''');
          su1 = u32_option ''read_write_mix,m'' cf_read_write_mix_update default_read_write_mix
                  (''read/write mix'' @ newline @ ''  0 - '' @ get_str_rw_mix 0 @
                   newline @ ''  1 - '' @ get_str_rw_mix 1 @
                   newline @ ''  2 - '' @ get_str_rw_mix 2 @
                   newline @ ''  3 - '' @ get_str_rw_mix 3 @ additional_msg)
                  (set_group ''Bandwidth threads options'' su);
          su2 = (if t = LATENCY_BANDWIDTH
                 then i32_option ''load_gen_delay,d'' cf_load_gen_delay_update 0
                        ''delay slots b/w memory requests for load generation threads'' su1
                 else su1)
      in if t = BANDWIDTH
         then flag_option ''bandwidth_matrix'' cf_bandwidth_matrix_update
                ''Measure local and cross-socket bandwidth'' su2
         else su2)"

definition add_memcpy_options :: "cf_setup \<Rightarrow> cf_setup" where
  "add_memcpy_options su =
     flag_option ''memcpy_matrix'' cf_memcpy_matrix_update
       ''Measure local and cross-socket memcpy bandwidth''
       (u64_option ''fragment_size,f'' cf_fragment_size_b_update 0
          (''fragment size in byte of each memcpy invocation'' @ newline @
           ''  0 - same as region size'' @ newline @
           ''  e.g. 4096 - copy each 4KB fragment one by one'')
          (set_group ''Memcpy options'' su))"

fun test_name :: "testing_type \<Rightarrow> string" where
  "test_name LATENCY = ''Idle latency''"
| "test_name BANDWIDTH = ''Peak bandwidth''"
| "test_name LATENCY_BANDWIDTH = ''Loaded latency; 1 latency thread + n-1 load generation threads''"
| "test_name MEMCPY = ''Memcpy (glibc)''"
| "test_name BRANCH_THROUGHPUT = ''Branch taken throughput''"

definition Configuration :: "numa_config \<Rightarrow> testing_type \<Rightarrow> cf_setup" where
  "Configuration nc t =
     (let su0 = add_generic_options t (CommandLine (test_name t), initial_configuration nc t);
          su1 = (if t = BRANCH_THROUGHPUT then add_branch_options su0 else su0);
          su2 = (if t = LATENCY \<or> t = LATENCY_BANDWIDTH then add_latency_options t su1 else su1);
          su3 = (if t = BANDWIDTH \<or> t = LATENCY_BANDWIDTH then add_bandwidth_options t su2 else su2)
      in if t = MEMCPY then add_memcpy_options su3 else su3)"

section \<open>Parsing and the summary\<close>

text \<open>
  \<open>parse_options\<close> returns 1 after printing to the standard error stream, or 0 with the
  parsed configuration: the left injection is the text printed. Every caller ends the
  program on 1, so the partly assigned configuration of that case is not kept.
\<close>

definition auto_correct :: "configuration \<Rightarrow> configuration" where
  "auto_correct cf =
     (if cf_use_hugepage cf > 0
      then cf\<lparr>cf_chunk_size_kb := ucast (cf_region_size_kb cf)\<rparr> else cf)"

definition parse_options :: "cf_setup \<Rightarrow> string list \<Rightarrow> string + configuration" where
  "parse_options su args =
     (case cl_parse (fst su) args (snd su) of
        Inl e \<Rightarrow> Inl (''Error: '' @ e @ newline @ ''Use --help for usage.'' @ newline)
      | Inr cf \<Rightarrow> if cf_help cf then Inl (cl_help (fst su)) else Inr (auto_correct cf))"

definition cf_dump :: "configuration \<Rightarrow> string" where
  "cf_dump cf =
     (let t = cf_testing_type cf in
      ''threads:           '' @ show_u32 (cf_num_threads cf) @ newline @
      (if t < BRANCH_THROUGHPUT
       then ''region size in KB: '' @ show_u64 (cf_region_size_kb cf) @ newline else '''') @
      (if t = LATENCY \<or> t = LATENCY_BANDWIDTH
       then ''chunk size in KB:  '' @ show_u32 (cf_chunk_size_kb cf) @ newline @
            ''stride size in B:  '' @ show_u32 (cf_stride_size_b cf) @ newline @
            ''access pattern:    '' @ show_u32 (cf_access_pattern cf) @ '' - '' @
            get_str_access_pattern (cf_access_pattern cf) @ newline @
            ''use hugepage:      '' @ show_u32 (cf_use_hugepage cf) @ '' - '' @
            get_str_huge_page (cf_use_hugepage cf) @ newline
       else '''') @
      (if t = BANDWIDTH \<or> t = LATENCY_BANDWIDTH
       then ''read/write mix:    '' @ show_u32 (cf_read_write_mix cf) @ '' - '' @
            get_str_rw_mix (cf_read_write_mix cf) @ newline
       else '''') @
      (if t = MEMCPY
       then (if cf_fragment_size_b cf mod 1024 = 0
             then ''copy size in KB:   '' @ show_u64 (cf_fragment_size_b cf div 1024)
             else ''copy size in B:    '' @ show_u64 (cf_fragment_size_b cf)) @ newline
       else '''') @
      ''target duration:   '' @ show_u32 (cf_target_duration_s cf) @ newline)"

end
