(* ===== verification/Floating.thy ===== *)
theory Floating
  imports Prelude "HOL-Library.Log_Nat"
begin

text \<open>
  The floating-point arithmetic the program uses, as exact rational numbers that every
  operation rounds to nearest, ties to even: 53 significant bits for \<open>double\<close>, 24 for
  \<open>float\<close>. The quantities of the program (times, byte counts, rates) lie many orders of
  magnitude inside the range of both formats, so exponents are not bounded here; a division
  by zero is a separate case of the definitions that can meet one.
\<close>

section \<open>Rounding\<close>

text \<open>The binary exponent of a positive rational.\<close>

definition log2_floor :: "rat \<Rightarrow> int" where
  "log2_floor x =
     (let (a, b) = quotient_of x;
          e = int (floorlog 2 (nat a)) - int (floorlog 2 (nat b))
      in if 2 powi e \<le> x then e else e - 1)"

definition round_even :: "rat \<Rightarrow> int" where
  "round_even x =
     (let f = \<lfloor>x\<rfloor>; d = x - of_int f
      in if d < 1 / 2 then f else if d > 1 / 2 then f + 1 else if even f then f else f + 1)"

definition rnd :: "nat \<Rightarrow> rat \<Rightarrow> rat" where
  "rnd p x =
     (if x = 0 then 0
      else let u = 2 powi (log2_floor \<bar>x\<bar> - int p + 1)
           in of_int (round_even (x / u)) * u)"

abbreviation double :: "rat \<Rightarrow> rat" where "double \<equiv> rnd 53"
abbreviation single :: "rat \<Rightarrow> rat" where "single \<equiv> rnd 24"

text \<open>Conversion of a floating-point value to an unsigned type of \<open>n\<close> bits: out of range
  is undefined.\<close>

definition to_unsigned :: "nat \<Rightarrow> rat \<Rightarrow> fault + int" where
  "to_unsigned n x =
     (let t = (if x < 0 then \<lceil>x\<rceil> else \<lfloor>x\<rfloor>)
      in if 0 \<le> t \<and> t < 2 ^ n then Inr t
         else Inl (Undefined_Behaviour ''floating-point value out of range''))"

section \<open>Its laws\<close>

lemma round_even_error: "\<bar>of_int (round_even x) - x\<bar> \<le> 1 / 2"
proof -
  have "of_int \<lfloor>x\<rfloor> \<le> x" "x < of_int \<lfloor>x\<rfloor> + 1" by linarith+
  then show ?thesis unfolding round_even_def Let_def by (auto simp: abs_le_iff)
qed

lemma round_even_int [simp]: "round_even (of_int n) = n"
  by (simp add: round_even_def)

lemma round_even_mono: "x \<le> y \<Longrightarrow> round_even x \<le> round_even y"
proof (cases "\<lfloor>x\<rfloor> = \<lfloor>y\<rfloor>")
  case True
  assume "x \<le> y"
  with True show ?thesis unfolding round_even_def Let_def by auto
next
  case False
  assume "x \<le> y"
  with False have "\<lfloor>x\<rfloor> + 1 \<le> \<lfloor>y\<rfloor>" by linarith
  moreover have "round_even x \<le> \<lfloor>x\<rfloor> + 1" "\<lfloor>y\<rfloor> \<le> round_even y"
    by (auto simp: round_even_def Let_def)
  ultimately show ?thesis by linarith
qed

lemma floorlog_rat:
  assumes "0 < n"
  shows "2 powi (int (floorlog 2 n) - 1) \<le> (of_nat n :: rat)" and "(of_nat n :: rat) < 2 powi int (floorlog 2 n)"
proof -
  have b: "2 ^ (floorlog 2 n - 1) \<le> n \<and> n < 2 ^ floorlog 2 n"
    using floorlog_bounds [of n 2] assms by simp
  have p: "0 < floorlog 2 n" using assms by (simp add: floorlog_def)
  have "(2 :: rat) powi (int (floorlog 2 n) - 1) = of_nat (2 ^ (floorlog 2 n - 1))"
    using p by (simp add: power_int_def nat_diff_distrib)
  with b show "2 powi (int (floorlog 2 n) - 1) \<le> (of_nat n :: rat)"
    by (simp only: of_nat_le_iff)
  have "(2 :: rat) powi int (floorlog 2 n) = of_nat (2 ^ floorlog 2 n)" by simp
  with b show "(of_nat n :: rat) < 2 powi int (floorlog 2 n)"
    by (simp only: of_nat_less_iff)
qed

lemma log2_floor_bounds:
  assumes "0 < x"
  shows "2 powi log2_floor x \<le> x" and "x < 2 powi (log2_floor x + 1)"
proof -
  obtain a b where q: "quotient_of x = (a, b)" by fastforce
  have b: "0 < b" using quotient_of_denom_pos [OF q] .
  have x: "x = of_int a / of_int b" using quotient_of_div [OF q] .
  have a: "0 < a" using assms b x by (simp add: zero_less_divide_iff)
  define m n where "m = nat a" and "n = nat b"
  have mn: "0 < m" "0 < n" "x = of_nat m / of_nat n"
    using a b x by (simp_all add: m_def n_def of_nat_nat)
  define e where "e = int (floorlog 2 m) - int (floorlog 2 n)"
  have lo: "2 powi (e - 1) \<le> x"
  proof -
    have "(2 :: rat) powi (e - 1) * of_nat n \<le> 2 powi (e - 1) * 2 powi int (floorlog 2 n)"
      using floorlog_rat(2) [OF mn(2)] by (intro mult_left_mono) auto
    also have "\<dots> = 2 powi (int (floorlog 2 m) - 1)"
      by (simp flip: power_int_add add: e_def del: power_int_of_nat)
    also have "\<dots> \<le> of_nat m" by (rule floorlog_rat(1) [OF mn(1)])
    finally show ?thesis using mn by (simp add: pos_le_divide_eq)
  qed
  have hi: "x < 2 powi (e + 1)"
  proof -
    have "(of_nat m :: rat) < 2 powi int (floorlog 2 m)" by (rule floorlog_rat(2) [OF mn(1)])
    also have "\<dots> = 2 powi (e + 1) * 2 powi (int (floorlog 2 n) - 1)"
      by (simp flip: power_int_add add: e_def del: power_int_of_nat)
    also have "\<dots> \<le> 2 powi (e + 1) * of_nat n"
      using floorlog_rat(1) [OF mn(2)] by (intro mult_left_mono) auto
    finally show ?thesis using mn by (simp add: pos_divide_less_eq)
  qed
  have l: "log2_floor x = (if 2 powi e \<le> x then e else e - 1)"
    unfolding log2_floor_def q by (simp add: Let_def e_def m_def n_def)
  show "2 powi log2_floor x \<le> x" using lo by (simp add: l)
  show "x < 2 powi (log2_floor x + 1)" using hi by (simp add: l)
qed

lemma rnd_0 [simp]: "rnd p 0 = 0"
  by (simp add: rnd_def)

text \<open>The relative error of a rounding to \<open>p\<close> bits is at most \<open>2 powi - p\<close>.\<close>

lemma rnd_error: "\<bar>rnd p x - x\<bar> \<le> \<bar>x\<bar> * 2 powi (- int p)"
proof (cases "x = 0")
  case False
  define u :: rat where "u = 2 powi (log2_floor \<bar>x\<bar> - int p + 1)"
  have u: "0 < u" by (simp add: u_def)
  have "rnd p x - x = (of_int (round_even (x / u)) - x / u) * u"
    using False u unfolding rnd_def Let_def u_def [symmetric] by (simp add: algebra_simps)
  then have "\<bar>rnd p x - x\<bar> = \<bar>of_int (round_even (x / u)) - x / u\<bar> * u"
    using u by (simp add: abs_mult)
  also have "\<dots> \<le> 1 / 2 * u" using round_even_error u by (intro mult_right_mono) auto
  also have "\<dots> = 2 powi log2_floor \<bar>x\<bar> * 2 powi (- int p)"
    unfolding u_def by (simp add: power_int_add power_int_diff power_int_minus field_simps)
  also have "\<dots> \<le> \<bar>x\<bar> * 2 powi (- int p)"
    using log2_floor_bounds(1) [of "\<bar>x\<bar>"] False by (intro mult_right_mono) auto
  finally show ?thesis .
qed simp

text \<open>An integer of at most \<open>p\<close> bits is represented exactly.\<close>

lemma rnd_exact:
  assumes "n < 2 ^ p"
  shows "rnd p (of_nat n) = of_nat n"
proof (cases "n = 0")
  case False
  define e where "e = log2_floor (of_nat n :: rat)"
  have b: "2 powi e \<le> (of_nat n :: rat)" using log2_floor_bounds(1) [of "of_nat n"] False by (simp add: e_def)
  have "(2 :: rat) powi e < 2 powi int p"
  proof -
    have "(of_nat n :: rat) < of_nat (2 ^ p)" using assms by (simp only: of_nat_less_iff)
    with b have "2 powi e < (of_nat (2 ^ p) :: rat)" by (rule le_less_trans)
    then show ?thesis by simp
  qed
  then have "e < int p"
    by (metis linorder_not_less one_le_numeral power_int_increasing)
  then obtain k where k: "int p - 1 - e = int k" by (metis add.commute diff_ge_0_iff_ge nonneg_int_cases zle_diff1_eq diff_diff_eq)
  define u :: rat where "u = 2 powi (e - int p + 1)"
  have "u * 2 ^ k = 2 powi (e - int p + 1 + int k)"
    by (simp add: u_def power_int_add)
  also have "e - int p + 1 + int k = 0" using k by simp
  finally have "u * 2 ^ k = 1" by simp
  then have u: "u = 1 / 2 ^ k" by (simp add: field_simps)
  have "(of_nat n :: rat) / u = of_int (int (n * 2 ^ k))" by (simp add: u)
  then have "round_even (of_nat n / u) = int (n * 2 ^ k)" by (simp only: round_even_int)
  then show ?thesis
    using False unfolding rnd_def Let_def by (simp add: e_def [symmetric] u_def [symmetric]) (simp add: u)
qed simp

lemma rnd_pos:
  assumes "0 < x" and "1 \<le> p"
  shows "0 < rnd p x"
proof -
  have "(2 :: rat) powi - int p \<le> 2 powi (- 1)" using assms(2) by (intro power_int_increasing) simp_all
  then have "(2 :: rat) powi - int p \<le> 1 / 2" by (simp add: power_int_minus)
  then have "x * 2 powi - int p \<le> x * (1 / 2)" using assms(1) by (intro mult_left_mono) simp_all
  moreover have "x - rnd p x \<le> x * 2 powi - int p"
    using rnd_error [of p x] assms(1) abs_le_D2 by fastforce
  ultimately show ?thesis using assms(1) by linarith
qed

lemma rnd_nonneg: "0 \<le> x \<Longrightarrow> 1 \<le> p \<Longrightarrow> 0 \<le> rnd p x"
  using rnd_pos [of x p] by (cases "x = 0") simp_all

end
