(* ===== verification/Timing.thy ===== *)
theory Timing
  imports Floating
begin

text \<open>
  The timers, \<open>src/common/timing.h\<close> and \<open>src/common/timing.cc\<close>. The steady clock is an
  argument: each operation that reads it takes the time it reads, in nanoseconds. The
  rendering of a time as text (\<open>getElapsedTimeStr\<close>) is modelled only up to the choice of
  unit; the map of named timers is a finite map from keys.
\<close>

section \<open>The timer\<close>

record timer =
  time_point_begin :: int
  time_point_end :: int
  elapsed_time_ns :: int

definition Timer :: timer where
  "Timer = \<lparr>time_point_begin = 0, time_point_end = 0, elapsed_time_ns = 0\<rparr>"

definition startTimer :: "int \<Rightarrow> timer \<Rightarrow> timer" where
  "startTimer now t = t\<lparr>time_point_begin := now\<rparr>"

definition endTimer :: "int \<Rightarrow> timer \<Rightarrow> timer" where
  "endTimer now t =
     (let t' = t\<lparr>time_point_end := now\<rparr>;
          diff = time_point_end t' - time_point_begin t'
      in t'\<lparr>elapsed_time_ns := elapsed_time_ns t' + diff\<rparr>)"

definition resumeTimer :: "timer \<Rightarrow> timer" where
  "resumeTimer t = t\<lparr>time_point_begin := time_point_end t\<rparr>"

definition restartTimer :: "int \<Rightarrow> timer \<Rightarrow> timer" where
  "restartTimer now t = t\<lparr>time_point_begin := now\<rparr>"

text \<open>The elapsed time in units of \<open>unit_ns\<close> nanoseconds, as a \<open>double\<close>.\<close>

definition elapsed_in :: "nat \<Rightarrow> timer \<Rightarrow> rat" where
  "elapsed_in unit_ns t = double (double (of_int (elapsed_time_ns t)) / of_nat unit_ns)"

definition getElapsedTimeNs :: "timer \<Rightarrow> int" where
  "getElapsedTimeNs t = elapsed_time_ns t"

definition getElapsedTimeUs :: "timer \<Rightarrow> rat" where
  "getElapsedTimeUs t = elapsed_in (10 ^ 3) t"

definition getElapsedTimeMs :: "timer \<Rightarrow> rat" where
  "getElapsedTimeMs t = elapsed_in (10 ^ 6) t"

definition getElapsedTime :: "timer \<Rightarrow> rat" where
  "getElapsedTime t = elapsed_in (10 ^ 9) t"

datatype elapsed_text = Sec rat | Ms rat | Us rat | Ns int

definition getElapsedTimeStr :: "timer \<Rightarrow> elapsed_text" where
  "getElapsedTimeStr t =
     (if getElapsedTime t > 1 then Sec (getElapsedTime t)
      else if getElapsedTimeMs t > 1 then Ms (getElapsedTimeMs t)
      else if getElapsedTimeUs t > 1 then Us (getElapsedTimeUs t)
      else Ns (getElapsedTimeNs t))"

section \<open>Named timers\<close>

type_synonym timer_map = "string \<rightharpoonup> timer"

definition start_timer :: "int \<Rightarrow> string \<Rightarrow> timer_map \<Rightarrow> timer_map" where
  "start_timer now timer_key m = m(timer_key \<mapsto> startTimer now Timer)"

text \<open>
  \<open>end_timer\<close>: the text written has the elapsed time of the timer, or none when there is
  no timer of that name (the exception of \<open>at\<close> is caught).
\<close>

definition end_timer :: "int \<Rightarrow> string \<Rightarrow> timer_map \<Rightarrow> (string \<times> elapsed_text option) \<times> timer_map" where
  "end_timer now timer_key m =
     (case m timer_key of
        None \<Rightarrow> ((timer_key, None), m)
      | Some t \<Rightarrow> ((timer_key, Some (getElapsedTimeStr (endTimer now t))), m(timer_key := None)))"

section \<open>Laws\<close>

text \<open>Readings of the clock, each one ending the timer and resuming it.\<close>

fun end_resume :: "int list \<Rightarrow> timer \<Rightarrow> timer" where
  "end_resume [] t = t"
| "end_resume (now # ts) t = end_resume ts (resumeTimer (endTimer now t))"

lemma end_resume_elapsed:
  "elapsed_time_ns (endTimer now (end_resume ts t)) =
     elapsed_time_ns t + (now - time_point_begin t)"
  by (induction ts arbitrary: t) (simp_all add: endTimer_def resumeTimer_def Let_def)

lemma end_resume_begin:
  "time_point_begin (end_resume ts t) = (if ts = [] then time_point_begin t else last ts)"
  by (induction ts arbitrary: t) (simp_all add: endTimer_def resumeTimer_def Let_def)

lemma elapsed_in_error:
  assumes "0 < u" and "0 \<le> elapsed_time_ns t" and "elapsed_time_ns t < 2 ^ 53"
  shows "\<bar>elapsed_in u t - of_int (elapsed_time_ns t) / of_nat u\<bar>
      \<le> of_int (elapsed_time_ns t) / of_nat u * 2 powi - 53"
proof -
  obtain n where n: "elapsed_time_ns t = int n" using assms(2) nonneg_int_cases by blast
  have e: "double (of_nat n) = of_nat n" using rnd_exact [of n 53] assms(3) n by simp
  show ?thesis
    using rnd_error [of 53 "of_int (elapsed_time_ns t) / of_nat u"] n
    by (simp add: elapsed_in_def e abs_of_nonneg)
qed

end
