(* ===== verification/Relative_Error.thy ===== *)
theory Relative_Error
  imports Timing
begin

text \<open>
  How far a computation in \<open>double\<close> is from the exact one: \<open>near k x y\<close> when the computed
  \<open>y\<close> is off the exact non-negative \<open>x\<close> by at most \<open>k\<close> roundings.
\<close>

definition eps :: rat where
  "eps = 1 / 2 ^ 53"

definition near :: "nat \<Rightarrow> rat \<Rightarrow> rat \<Rightarrow> bool" where
  "near k x y \<longleftrightarrow> 0 \<le> x \<and> x * (1 - eps) ^ k \<le> y \<and> y \<le> x * (1 + eps) ^ k"

lemma eps_bounds: "0 < eps" "0 < 1 - eps" "1 - eps \<le> 1"
  by (simp_all add: eps_def)

lemma eps_powi: "(2 :: rat) powi - int 53 = eps"
  by (simp add: eps_def power_int_minus)

lemma near_refl: "0 \<le> x \<Longrightarrow> near 0 x x"
  by (simp add: near_def)

lemma near_nonneg: "near k x y \<Longrightarrow> 0 \<le> y"
  unfolding near_def using eps_bounds
  by (metis less_eq_rat_def mult_nonneg_nonneg order_trans zero_le_power)

lemma near_upper: "near k x y \<Longrightarrow> y \<le> x * (1 + eps) ^ k"
  by (simp add: near_def)

lemma near_mono:
  assumes "near k x y" and "k \<le> l"
  shows "near l x y"
proof -
  have x: "0 \<le> x" using assms(1) by (simp add: near_def)
  have "(1 - eps) ^ l \<le> (1 - eps) ^ k" using assms(2) eps_bounds by (intro power_decreasing) simp_all
  moreover have "(1 + eps) ^ k \<le> (1 + eps) ^ l" using assms(2) eps_bounds by (intro power_increasing) simp_all
  ultimately have "x * (1 - eps) ^ l \<le> x * (1 - eps) ^ k" "x * (1 + eps) ^ k \<le> x * (1 + eps) ^ l"
    using x by (simp_all only: mult_left_mono)
  with assms show ?thesis by (auto simp: near_def)
qed

lemma near_add: "near k x y \<Longrightarrow> near k x' y' \<Longrightarrow> near k (x + x') (y + y')"
  by (auto simp: near_def distrib_right add_mono)

lemma near_scale: "near k x y \<Longrightarrow> 0 \<le> c \<Longrightarrow> near k (c * x) (c * y)"
  by (auto simp: near_def mult.assoc mult_left_mono)

lemma near_double:
  assumes "near k x y"
  shows "near (Suc k) x (double y)"
proof -
  have y: "0 \<le> y" by (rule near_nonneg [OF assms])
  have e: "\<bar>double y - y\<bar> \<le> y * eps"
    using rnd_error [of 53 y] unfolding abs_of_nonneg [OF y] eps_powi .
  have d: "y * (1 - eps) \<le> double y" "double y \<le> y * (1 + eps)"
    using abs_le_D1 [OF e] abs_le_D2 [OF e] unfolding distrib_left right_diff_distrib mult_1_right by linarith+
  have "x * (1 - eps) ^ Suc k \<le> y * (1 - eps)"
    using mult_right_mono [of "x * (1 - eps) ^ k" y "1 - eps"] assms eps_bounds by (simp add: near_def mult.assoc mult.commute)
  moreover have "y * (1 + eps) \<le> x * (1 + eps) ^ Suc k"
    using mult_right_mono [of y "x * (1 + eps) ^ k" "1 + eps"] assms eps_bounds by (simp add: near_def mult.assoc mult.commute)
  ultimately show ?thesis using d assms by (auto simp: near_def)
qed

lemma near_sum:
  assumes "\<And>i. i < n \<Longrightarrow> near k (xs i) (ys i)" and "near k x0 y0"
  shows "near (k + n) (x0 + (\<Sum>i < n. xs i)) (foldl (\<lambda>t i. double (t + ys i)) y0 [0..<n])"
  using assms(1)
proof (induction n)
  case (Suc n)
  have "near (k + n) (x0 + (\<Sum>i < n. xs i)) (foldl (\<lambda>t i. double (t + ys i)) y0 [0..<n])"
    using Suc by simp
  moreover have "near (k + n) (xs n) (ys n)" using Suc.prems [of n] by (rule near_mono) simp_all
  ultimately have "near (k + n) (x0 + (\<Sum>i < n. xs i) + xs n) (foldl (\<lambda>t i. double (t + ys i)) y0 [0..<n] + ys n)"
    by (rule near_add)
  then show ?case by (simp add: near_double add.assoc)
qed (simp add: assms(2))

lemma near_elapsed:
  assumes "0 \<le> d" and "d < 2 ^ 53" and "0 < u"
  shows "near 1 (of_int d / of_nat u) (double (double (of_int d) / of_nat u))"
proof -
  obtain n where n: "d = int n" using assms(1) nonneg_int_cases by blast
  have "double (of_nat n) = of_nat n" using rnd_exact [of n 53] assms(2) n by simp
  with n assms(3) near_double [OF near_refl, of "of_nat n / of_nat u"] show ?thesis by simp
qed

end
