(* ===== verification/Kmg_Parser.thy ===== *)
theory Kmg_Parser
  imports Relative_Error "HOL-Library.Signed_Division"
begin

text \<open>
  Numbers with unit prefixes, \<open>src/common/kmg_parser.h\<close> and \<open>src/common/kmg_parser.cc\<close>. A
  64-bit signed number is an integer, and an addition that leaves the range is the
  undefined behaviour it is in C++; division truncates (\<open>sdiv\<close>).
\<close>

section \<open>The code\<close>

definition get_unit_str :: "int \<Rightarrow> string" where
  "get_unit_str level =
     '' '' @ (if level = 0 then '''' else if level = 1 then ''K'' else if level = 2 then ''M''
             else if level = 3 then ''G'' else if level = 4 then ''T'' else if level = 5 then ''P''
             else ''?'')"

text \<open>
  \<open>ratio < 0.95 || ratio > 1.05\<close>; a quotient by zero is infinite, or not a number, for which
  both comparisons are false.
\<close>

definition bad_ratio :: "int \<Rightarrow> int \<Rightarrow> int \<Rightarrow> bool" where
  "bad_ratio new_num one_k curr_num =
     (let p = double (double (of_int new_num) * double (of_int one_k))
      in if curr_num = 0 then p \<noteq> 0
         else let ratio = double (p / double (of_int curr_num))
              in ratio < double (95 / 100) \<or> ratio > double (105 / 100))"

partial_function (option) disp_loop :: "int \<Rightarrow> int \<Rightarrow> int \<Rightarrow> int \<Rightarrow> (fault + int \<times> int) option" where
  "disp_loop one_k half_k level curr_num =
     (if curr_num > one_k
      then if one_k = 0 then fail Div_By_Zero
        else if curr_num + half_k \<ge> 2 ^ 63 then fail (Undefined_Behaviour ''signed overflow'')
        else let new_num = (curr_num + half_k) sdiv one_k
          in if bad_ratio new_num one_k curr_num then ret (level, curr_num)
             else disp_loop one_k half_k (level + 1) new_num
      else ret (level, curr_num))"

definition get_disp_str :: "int \<Rightarrow> int \<Rightarrow> int \<Rightarrow> string run" where
  "get_disp_str num one_k start_level =
     andthen (disp_loop one_k (one_k sdiv 2 - 1) start_level num)
       (\<lambda>(level, curr_num). ret (show_int curr_num @ get_unit_str level))"

definition get_count_str :: "int \<Rightarrow> string run" where
  "get_count_str num = get_disp_str num 1000 0"

definition get_count_str_k :: "int \<Rightarrow> int \<Rightarrow> string run" where
  "get_count_str_k num one_k = get_disp_str num one_k 0"

definition get_count_str_level :: "int \<Rightarrow> int \<Rightarrow> int \<Rightarrow> string run" where
  "get_count_str_level num one_k start_level = get_disp_str num one_k start_level"

definition get_byte_str :: "int \<Rightarrow> string run" where
  "get_byte_str num = get_disp_str num 1024 0"

fun dims_loop :: "int \<Rightarrow> string \<Rightarrow> int list \<Rightarrow> string run" where
  "dims_loop one_k output [] = ret output"
| "dims_loop one_k output (num # nums) =
     andthen (get_disp_str num one_k 0)
       (\<lambda>s. dims_loop one_k (output @ (if length output > 0 then '', '' else '''') @ s) nums)"

definition get_dims_str :: "int list \<Rightarrow> int \<Rightarrow> string run" where
  "get_dims_str nums one_k = dims_loop one_k '''' nums"

section \<open>Exact sizes\<close>

lemma double_close:
  assumes "0 \<le> x"
  shows "999 / 1000 * x \<le> double x" "double x \<le> 1001 / 1000 * x"
proof -
  have "near 1 x (double x)" using near_double [OF near_refl [OF assms]] by simp
  moreover have "x * (999 / 1000) \<le> x * (1 - eps)" "x * (1 + eps) \<le> x * (1001 / 1000)"
    using assms by (intro mult_left_mono; simp add: eps_def)+
  ultimately show "999 / 1000 * x \<le> double x" "double x \<le> 1001 / 1000 * x"
    by (auto simp: near_def mult.commute)
qed

lemma good_ratio:
  assumes "0 < k" and "0 < n"
  shows "\<not> bad_ratio n k (n * k)"
proof -
  let ?n = "double (of_int n)" and ?k = "double (of_int k)" and ?c = "double (of_int (n * k))"
  let ?x = "of_int n * of_int k :: rat" and ?p = "double (?n * ?k)"
  have pos: "0 \<le> (of_int n :: rat)" "0 \<le> (of_int k :: rat)" "0 < ?x" using assms by simp_all
  note dn = double_close [OF pos(1)] and dk = double_close [OF pos(2)]
  have n0: "0 \<le> ?n" "0 \<le> ?k" using pos by (simp_all add: rnd_nonneg)
  have nk: "999 / 1000 * of_int n * (999 / 1000 * of_int k) \<le> ?n * ?k"
      "?n * ?k \<le> 1001 / 1000 * of_int n * (1001 / 1000 * of_int k)"
    using dn dk n0 pos by (intro mult_mono; simp)+
  then have nk': "998001 / 1000000 * ?x \<le> ?n * ?k" "?n * ?k \<le> 1002001 / 1000000 * ?x" by simp_all
  have "0 \<le> ?n * ?k" using n0 by simp
  note dp = double_close [OF this]
  have "0 \<le> (of_int (n * k) :: rat)" using pos by simp
  from double_close [OF this] have dc: "999 / 1000 * ?x \<le> ?c" "?c \<le> 1001 / 1000 * ?x" by simp_all
  have c0: "0 < ?c" using dc(1) pos(3) by linarith
  have lo: "99 / 100 * ?c \<le> ?p" and hi: "?p \<le> 101 / 100 * ?c"
    using dp nk' dc pos(3) by linarith+
  have q: "99 / 100 \<le> ?p / ?c" "?p / ?c \<le> 101 / 100"
    using lo hi c0 by (simp_all add: le_divide_eq divide_le_eq)
  then have "0 \<le> ?p / ?c" by linarith
  note dq = double_close [OF this]
  have "double (95 / 100) \<le> double (?p / ?c)" "double (?p / ?c) \<le> double (105 / 100)"
    using dq q double_close(2) [of "95 / 100"] double_close(1) [of "105 / 100"] by linarith+
  moreover have "n * k \<noteq> 0" using assms by simp
  ultimately show ?thesis by (simp only: bad_ratio_def Let_def not_less if_False de_Morgan_disj simp_thms)
qed

lemma sdiv_pos: "0 \<le> a \<Longrightarrow> 0 < b \<Longrightarrow> a sdiv b = (a div b :: int)"
  by (cases "a = 0") (simp_all add: signed_divide_int_def)

lemma disp_loop_exact:
  assumes "2 \<le> one_k" and "1 < m" and "m \<le> one_k" and "m * one_k ^ l + one_k < 2 ^ 63"
  shows "disp_loop one_k (one_k sdiv 2 - 1) level (m * one_k ^ l) = ret (level + int l, m)"
  using assms(4)
proof (induction l arbitrary: level)
  case 0
  then show ?case using assms(3) by (simp add: disp_loop.simps)
next
  case (Suc l)
  let ?h = "one_k sdiv 2 - 1" and ?n = "m * one_k ^ l" and ?c = "m * one_k ^ Suc l"
  have h: "0 \<le> ?h" "?h < one_k" using assms(1) by (simp_all add: sdiv_pos)
  have n: "1 < ?n" using assms(1,2) by (smt (verit) mult_le_cancel_left1 one_le_power)
  have c: "?c = ?n * one_k" by simp
  have "1 * one_k < ?n * one_k" using n assms(1) by (intro mult_strict_right_mono) simp_all
  then have big: "one_k < ?c" unfolding c by simp
  have "(?c + ?h) sdiv one_k = ?n"
    using h big assms(1) unfolding c by (simp add: sdiv_pos)
  moreover have "?c + ?h < 2 ^ 63" using Suc.prems h(2) by linarith
  moreover have "?n * 1 \<le> ?n * one_k" using n assms(1) by (intro mult_left_mono) simp_all
  then have "?n \<le> ?c" unfolding c by simp
  then have "disp_loop one_k ?h (level + 1) ?n = ret (level + 1 + int l, m)"
    using Suc.prems by (intro Suc.IH) linarith
  moreover have "\<not> bad_ratio ?n one_k ?c" unfolding c using n assms(1) by (intro good_ratio) simp_all
  ultimately show ?case
    using big assms(1) by (simp add: disp_loop.simps [of one_k ?h level ?c] del: power_Suc)
qed

text \<open>
  C38. Exact byte counts are shown exactly. A count of \<open>m\<close> units of \<open>1024 ^ l\<close>, with
  \<open>1 < m \<le> 1024\<close>, is shown as \<open>m\<close> with the prefix of level \<open>l\<close>: no division on the way
  rounds, and no ratio computed in \<open>double\<close> stops it early. One unit is shown as 1024 of
  the unit below, since a number equal to 1024 is not divided.
\<close>

theorem get_byte_str_exact:
  assumes "1 < m" and "m \<le> 1024" and "m * 1024 ^ l + 1024 < 2 ^ 63"
  shows "get_byte_str (m * 1024 ^ l) = ret (show_int m @ get_unit_str (int l))"
  using disp_loop_exact [of 1024 m l 0] assms by (simp add: get_byte_str_def get_disp_str_def)

lemma get_byte_str_exact_witness:
  "get_byte_str 8589934592 = ret ''8 G'' \<and> get_byte_str 1073741824 = ret ''1024 M''"
proof -
  have "show_int 8 = ''8''" "show_int 1024 = ''1024''" by (simp_all add: show_eval)
  then show ?thesis
    using get_byte_str_exact [of 8 3] get_byte_str_exact [of 1024 2] by (simp add: get_unit_str_def)
qed

end
