(* ===== verification/Numa_Dump.thy ===== *)
theory Numa_Dump
  imports Configuration Kmg_Parser
begin

text \<open>
  The topology printout, \<open>NumaConfig::dump\<close> of \<open>src/common/numa_config.cc\<close>, and the program
  \<open>src/cpu_micro/cpu_numa_info.cc\<close> that is nothing else.
\<close>

definition tab :: string where
  "tab = [CHR 0x09]"

definition cpu_list :: "u32 list \<Rightarrow> string" where
  "cpu_list cpus = concat (map (\<lambda>idx. '' '' @ show_u32 idx) cpus)"

text \<open>The lines of one node: its CPUs and, when the process may not use them all, those it may.\<close>

definition dump_node :: "numa_config \<Rightarrow> u32 \<times> u32 list \<Rightarrow> fault + string" where
  "dump_node nc item =
     map_sum id
       (\<lambda>usable. tab @ ''Node '' @ show_u32 (fst item) @ '':'' @ cpu_list (snd item) @ newline @
          (if length usable \<noteq> length (snd item)
           then tab @ ''Node '' @ show_u32 (fst item) @ '' usable:'' @ cpu_list usable @ newline
           else ''''))
       (map_at (node_to_allowed_cpus nc) (fst item))"

fun dump_nodes :: "numa_config \<Rightarrow> (u32 \<times> u32 list) list \<Rightarrow> fault + string" where
  "dump_nodes nc [] = Inr ''''"
| "dump_nodes nc (item # items) =
     (case dump_node nc item of
        Inl e \<Rightarrow> Inl e
      | Inr s \<Rightarrow> map_sum id (\<lambda>s'. s @ s') (dump_nodes nc items))"

fun dump_memory :: "(u32 \<times> int) list \<Rightarrow> string run" where
  "dump_memory [] = ret ''''"
| "dump_memory (item # items) =
     andthen (get_byte_str (snd item))
       (\<lambda>bytes. andthen (dump_memory items)
         (\<lambda>rest. ret (tab @ ''Node '' @ show_u32 (fst item) @ '': '' @ show_int (snd item) @ '' B / '' @
            bytes @ ''B'' @ newline @ rest)))"

definition numa_dump :: "numa_config \<Rightarrow> string run" where
  "numa_dump nc =
     andthen (Some (dump_nodes nc (node_to_cpus nc)))
       (\<lambda>nodes. andthen (dump_memory (node_to_mem nc))
         (\<lambda>memory. ret
           (''# NUMA nodes: '' @ show_u32 (num_numa_nodes nc) @ '' / '' @
            show_u32 (num_numa_nodes_configured nc) @ '' / '' @ show_u32 (num_numa_nodes_possible nc) @ newline @
            ''# CPUs: '' @ show_u32 (num_cpus nc) @ '' / '' @ show_u32 (num_cpus_possible nc) @ newline @
            ''CPUs'' @ newline @
            tab @ ''All CPUs:'' @ cpu_list (all_cpus nc) @ newline @
            tab @ '' My CPUs:'' @ cpu_list (all_allowed_cpus nc) @ newline @
            nodes @ ''Memory'' @ newline @ memory)))"

definition main_numa_info :: "numa_env \<Rightarrow> string run" where
  "main_numa_info env = numa_dump (NumaConfig env)"

section \<open>The printout\<close>

text \<open>The lines of the nodes, given which CPUs each has and which of them may be used.\<close>

definition node_lines :: "(u32 \<Rightarrow> u32 list) \<Rightarrow> (u32 \<Rightarrow> u32 list) \<Rightarrow> u32 \<Rightarrow> string" where
  "node_lines cpus usable i =
     tab @ ''Node '' @ show_u32 i @ '':'' @ cpu_list (cpus i) @ newline @
     (if usable i = cpus i then ''''
      else tab @ ''Node '' @ show_u32 i @ '' usable:'' @ cpu_list (usable i) @ newline)"

lemma same_length_filter: "length (filter P xs) = length xs \<longleftrightarrow> filter P xs = xs"
  by (metis filter_id_conv length_filter_less order_less_irrefl)

lemma allowed_is_filter:
  "allowed_cpus_of_node env possible i = filter (ne_all_cpus env) (cpus_of_node env possible i)"
  by (auto simp: allowed_cpus_of_node_def cpus_of_node_def conj_commute split: option.split)

text \<open>
  C39. The topology printout. The nodes are printed in order, each with its CPUs; a second
  line appears exactly for the nodes of which the process may not use every CPU, with those
  it may use. Comparing the numbers of CPUs, as the code does, decides this correctly, and
  the lookup of a node never fails.
\<close>

theorem dump_nodes_correct:
  fixes env :: numa_env
  defines "nc \<equiv> NumaConfig env"
  shows "dump_nodes nc (node_to_cpus nc) = Inr (concat (map
    (node_lines (cpus_of_node env (num_cpus_possible nc)) (allowed_cpus_of_node env (num_cpus_possible nc)))
    (below (num_numa_nodes nc))))"
proof -
  let ?cpus = "cpus_of_node env (num_cpus_possible nc)" and ?ok = "allowed_cpus_of_node env (num_cpus_possible nc)"
  have "dump_nodes nc (map (\<lambda>i. (i, ?cpus i)) is) = Inr (concat (map (node_lines ?cpus ?ok) is))"
    if "set is \<subseteq> {i. i < num_numa_nodes nc}" for "is"
    using that
  proof (induction "is")
    case (Cons i "is")
    then have "map_at (node_to_allowed_cpus nc) i = Inr (?ok i)" using node_at(3) [of i env] by (simp add: nc_def)
    then have "dump_node nc (i, ?cpus i) = Inr (node_lines ?cpus ?ok i)"
      using same_length_filter [of "ne_all_cpus env" "?cpus i"]
      by (simp add: dump_node_def node_lines_def allowed_is_filter)
    with Cons show ?case by simp
  qed simp
  moreover have "node_to_cpus nc = map (\<lambda>i. (i, ?cpus i)) (below (num_numa_nodes nc))"
    by (simp add: nc_def NumaConfig_def Let_def)
  ultimately show ?thesis by (simp add: set_below)
qed

end
