(* ===== verification/Worker_Threads.thy ===== *)
theory Worker_Threads
  imports Command_Line Numa_Config
begin

text \<open>
  The worker threads, \<open>src/common/worker_thread_manager.h\<close>: the constructor with its
  thread-to-core binding, the routines, \<open>create\<close> and \<open>join\<close>. A packet is an extension of
  the base packet, a routine an arbitrary type. The results of the \<open>pthread\<close> calls are
  parameters: \<open>rc i\<close> is what the call for thread \<open>i\<close> returns.
\<close>

section \<open>Packets and the manager\<close>

record base_packet =
  bp_num_threads :: u32
  bp_thread_id :: u32

definition setThreadId :: "u32 \<Rightarrow> u32 \<Rightarrow> 'p base_packet_scheme \<Rightarrow> 'p base_packet_scheme" where
  "setThreadId num_threads tid p = p\<lparr>bp_num_threads := num_threads, bp_thread_id := tid\<rparr>"

record ('p, 'r) worker_manager =
  wm_num_threads :: u32
  wm_num_cpus :: u32
  wm_cpu_core_id :: "u32 list"
  wm_affinity :: "u32 set option list"
  wm_start_routines :: "'r option list"
  wm_packets :: "'p base_packet_scheme list"
  wm_bound_cpu :: "u32 list"
  wm_created :: "bool list"

definition kNotBound :: u32 where
  "kNotBound = - 1"

section \<open>Construction\<close>

definition getAlignedIndex :: "u32 \<Rightarrow> u32 \<Rightarrow> u32 \<Rightarrow> string" where
  "getAlignedIndex n hw idx =
     show_nat (unat idx) @
     (if idx < 100 \<and> (n > 100 \<or> hw > 100) then '' '' else '''') @
     (if idx < 10 then '' '' else '''') @ '' ''"

text \<open>The CPU thread \<open>i\<close> of \<open>n\<close> is pinned to.\<close>

definition bind_cpu :: "u32 \<Rightarrow> u32 list \<Rightarrow> u32 \<Rightarrow> u32" where
  "bind_cpu n cpus i =
     (let idx = (if n = 1 then of_nat (length cpus div 4) else i)
      in cpus ! (unat idx mod length cpus))"

text \<open>\<open>CPU_SET\<close> ignores a CPU that a \<open>cpu_set_t\<close> of 1024 bits cannot hold.\<close>

definition cpuset_of :: "u32 \<Rightarrow> u32 set" where
  "cpuset_of j = (if j < 1024 then {j} else {})"

definition WorkerThreadManager ::
    "u32 \<Rightarrow> 'p base_packet_scheme \<Rightarrow> u32 \<Rightarrow> u32 list \<Rightarrow> bool \<Rightarrow> bool \<Rightarrow>
     string \<times> string \<times> ('p, 'r) worker_manager" where
  "WorkerThreadManager hw p0 n cpus do_binding verbose =
     (let empty = (do_binding \<and> length cpus = 0);
          binding = (do_binding \<and> \<not> empty);
          err = (if empty then ''CPU Core ID list empty; so will NOT do binding'' @ newline else '''');
          out = (if binding \<and> verbose
                 then newline @ ''thread ID: [ '' @ concat (map (getAlignedIndex n hw) (below n)) @
                      '']'' @ newline @ '' core  ID: [ '' @
                      concat (map (\<lambda>i. getAlignedIndex n hw (bind_cpu n cpus i)) (below n)) @
                      '']'' @ newline
                 else '''')
      in (out, err,
          \<lparr>wm_num_threads = n, wm_num_cpus = hw, wm_cpu_core_id = cpus,
           wm_affinity = map (\<lambda>i. if binding then Some (cpuset_of (bind_cpu n cpus i)) else None) (below n),
           wm_start_routines = replicate (unat n) None,
           wm_packets = map (\<lambda>i. setThreadId n i p0) (below n),
           wm_bound_cpu = map (\<lambda>i. if binding then bind_cpu n cpus i else kNotBound) (below n),
           wm_created = replicate (unat n) False\<rparr>))"

text \<open>
  The constructor initialises the attributes of every thread, the destructor destroys those
  of the threads in this list.
\<close>

definition WorkerThreadManager_destroy :: "('p, 'r) worker_manager \<Rightarrow> u32 list" where
  "WorkerThreadManager_destroy wm = below (wm_num_threads wm)"

lemma attributes_destroyed:
  assumes "WorkerThreadManager hw p0 n cpus b v = (shown, err, wm)"
  shows "length (WorkerThreadManager_destroy wm) = length (wm_affinity wm)"
    and "distinct (WorkerThreadManager_destroy wm)"
  using assms by (auto simp: WorkerThreadManager_def WorkerThreadManager_destroy_def Let_def)

section \<open>Routines and packets\<close>

definition setRoutine_if ::
    "'r option \<Rightarrow> (u32 \<Rightarrow> bool) \<Rightarrow> ('p, 'r) worker_manager \<Rightarrow> ('p, 'r) worker_manager" where
  "setRoutine_if r pred wm =
     wm\<lparr>wm_start_routines :=
          map2 (\<lambda>i old. if pred i then r else old) (below (wm_num_threads wm)) (wm_start_routines wm)\<rparr>"

definition setRoutine :: "'r option \<Rightarrow> ('p, 'r) worker_manager \<Rightarrow> ('p, 'r) worker_manager" where
  "setRoutine r wm = wm\<lparr>wm_start_routines := replicate (unat (wm_num_threads wm)) r\<rparr>"

definition getPacket :: "('p, 'r) worker_manager \<Rightarrow> u32 \<Rightarrow> 'p base_packet_scheme" where
  "getPacket wm idx = wm_packets wm ! unat idx"

definition describeThread :: "('p, 'r) worker_manager \<Rightarrow> nat \<Rightarrow> string" where
  "describeThread wm i =
     ''thread '' @ show_nat i @
     (if wm_bound_cpu wm ! i \<noteq> kNotBound
      then '' (pinned to cpu '' @ show_nat (unat (wm_bound_cpu wm ! i)) @ '')''
      else '' (unpinned)'')"

section \<open>Creating the threads\<close>

definition starts :: "(nat \<Rightarrow> int) \<Rightarrow> ('p, 'r) worker_manager \<Rightarrow> nat \<Rightarrow> bool" where
  "starts rc wm i = (wm_start_routines wm ! i \<noteq> None \<and> rc i = 0)"

definition fails_to_start :: "(nat \<Rightarrow> int) \<Rightarrow> ('p, 'r) worker_manager \<Rightarrow> nat \<Rightarrow> bool" where
  "fails_to_start rc wm i = (wm_start_routines wm ! i \<noteq> None \<and> rc i \<noteq> 0)"

text \<open>
  \<open>create\<close>: the printed errors, and the manager with its \<open>created_\<close> flags or \<open>exit(1)\<close>.
\<close>

definition create ::
    "(nat \<Rightarrow> int) \<Rightarrow> (int \<Rightarrow> string) \<Rightarrow> ('p, 'r) worker_manager \<Rightarrow> string \<times> (fault + ('p, 'r) worker_manager)" where
  "create rc strerror wm =
     (let n = unat (wm_num_threads wm);
          failed = filter (fails_to_start rc wm) [0..<n];
          err = concat (map (\<lambda>i. ''pthread_create failed for '' @ describeThread wm i @ '': '' @
                                 strerror (rc i) @ newline) failed)
      in if length failed > 0
         then let msg = ''could not start '' @ show_nat (length failed) @ '' of '' @ show_nat n @
                        '' worker threads; results would be wrong, so stopping.'' @ newline
              in (err @ msg, Inl (Exit_With msg))
         else (err, Inr (wm\<lparr>wm_created := map (starts rc wm) [0..<n]\<rparr>)))"

section \<open>Joining them\<close>

definition joinTimeoutSec :: "string option \<Rightarrow> u64" where
  "joinTimeoutSec env =
     (case env of
        None \<Rightarrow> 300
      | Some text \<Rightarrow>
          if text = '''' then 300
          else (case strto text of
                  None \<Rightarrow> 0
                | Some (neg, v) \<Rightarrow>
                    if v < 2 ^ 64 then (if neg then - of_nat v else of_nat v) else - 1))"

definition ETIMEDOUT :: int where
  "ETIMEDOUT = 110"

text \<open>What is printed for thread \<open>i\<close>, the first stuck one announcing the timeout.\<close>

definition stuck_text ::
    "u64 \<Rightarrow> (nat \<Rightarrow> int) \<Rightarrow> (int \<Rightarrow> string) \<Rightarrow> ('p, 'r) worker_manager \<Rightarrow> bool \<Rightarrow> nat \<Rightarrow> string" where
  "stuck_text timeout_s rc strerror wm first i =
     (if rc i = ETIMEDOUT
      then (if first then newline @ ''worker threads did not finish within '' @
                          show_nat (unat timeout_s) @ ''s.'' @ newline else '''') @
           ''  stuck: '' @ describeThread wm i @ newline
      else ''pthread_join failed for '' @ describeThread wm i @ '': '' @ strerror (rc i) @ newline)"

definition stuck_message :: "nat \<Rightarrow> nat \<Rightarrow> string" where
  "stuck_message stuck n = show_nat stuck @ '' of '' @ show_nat n @ '' threads never finished. '' @
     ''A pinned thread that makes no progress usually means its cpu '' @
     ''is already owned by a busy-polling thread (an OVS-DPDK pmd-cNN '' @
     ''thread, for example), so the worker is never scheduled there. '' @
     ''Check with: ps -eLo psr,pcpu,comm | awk '' @ [CHR 0x27] @ ''$1==<cpu>'' @ [CHR 0x27] @ ''. '' @
     ''Re-run with --no_binding, or restrict the run to cpus that are '' @
     ''free, to confirm. Set MM_MEM_JOIN_TIMEOUT_S to change this '' @
     ''timeout (0 waits forever).'' @ newline"

text \<open>
  \<open>join\<close> under Linux with glibc. With a timeout, \<open>rc i\<close> is what \<open>pthread_timedjoin_np\<close>
  returns for thread \<open>i\<close>; without one, \<open>join\<close> returns only if every created thread ends,
  \<open>ends i\<close>.
\<close>

definition join ::
    "u64 \<Rightarrow> (nat \<Rightarrow> int) \<Rightarrow> (nat \<Rightarrow> bool) \<Rightarrow> (int \<Rightarrow> string) \<Rightarrow> ('p, 'r) worker_manager \<Rightarrow> string \<times> unit run" where
  "join timeout_s rc ends strerror wm =
     (let n = unat (wm_num_threads wm);
          joined = filter (\<lambda>i. wm_created wm ! i) [0..<n]
      in if timeout_s > 0
         then let stuck = filter (\<lambda>i. rc i \<noteq> 0) joined;
                  err = concat (map2 (\<lambda>k i. stuck_text timeout_s rc strerror wm (k = 0) i)
                                 [0..<length stuck] stuck)
              in if length stuck > 0
                 then (err @ stuck_message (length stuck) n, fail (Exit_With (stuck_message (length stuck) n)))
                 else (err, ret ())
         else ('''', if list_all ends joined then ret () else None))"

end
