(* ===== verification/Thread_Schedule.thy ===== *)
theory Thread_Schedule
  imports Worker_Threads
begin

text \<open>
  The interleaving of the main thread, which executes \<open>create\<close> and then \<open>join\<close>, with the
  worker threads it has started. A worker is a transition function on its local variables
  and its own packet; the main thread never touches a packet while a worker may run. The
  abstract specification is sequential: every packet becomes what its routine makes of it.
\<close>

section \<open>The step relation\<close>

text \<open>One step of a routine: it goes on, returns, or takes the process down.\<close>

datatype ('l, 'p) outcome = Continue 'l 'p | Return 'p | Crash fault

datatype 'l thread_status = Not_Started | Running 'l | Ended

text \<open>
  Where the main thread is: in \<open>create\<close> before thread \<open>i\<close> with the number of failures so
  far, in \<open>join\<close> before thread \<open>i\<close> with the number of stuck threads, or past both.
\<close>

datatype main_pc = Creating nat nat | Joining nat nat | Joined | Exited | Crashed fault

record ('p, 'r, 'l) pool =
  po_wm :: "('p, 'r) worker_manager"
  po_pc :: main_pc
  po_status :: "'l thread_status list"

definition initial_pool :: "('p, 'r) worker_manager \<Rightarrow> ('p, 'r, 'l) pool" where
  "initial_pool wm =
     \<lparr>po_wm = wm, po_pc = Creating 0 0,
      po_status = replicate (unat (wm_num_threads wm)) Not_Started\<rparr>"

abbreviation set_created :: "nat \<Rightarrow> bool \<Rightarrow> ('p, 'r) worker_manager \<Rightarrow> ('p, 'r) worker_manager" where
  "set_created i b wm \<equiv> wm\<lparr>wm_created := (wm_created wm)[i := b]\<rparr>"

abbreviation set_packet ::
    "nat \<Rightarrow> 'p base_packet_scheme \<Rightarrow> ('p, 'r) worker_manager \<Rightarrow> ('p, 'r) worker_manager" where
  "set_packet i p wm \<equiv> wm\<lparr>wm_packets := (wm_packets wm)[i := p]\<rparr>"

text \<open>
  \<open>rc\<close> gives what \<open>pthread_create\<close> returns for each thread; a worker it starts may run from then
  on. A worker that ends is joined, and with a timeout one may be given up as stuck.
\<close>

inductive pool_step ::
    "(nat \<Rightarrow> 'r \<Rightarrow> 'l) \<Rightarrow>
     (nat \<Rightarrow> 'r \<Rightarrow> 'l \<Rightarrow> 'p base_packet_scheme \<Rightarrow> ('l, 'p base_packet_scheme) outcome) \<Rightarrow> (nat \<Rightarrow> int) \<Rightarrow> bool \<Rightarrow>
     ('p, 'r, 'l) pool \<Rightarrow> ('p, 'r, 'l) pool \<Rightarrow> bool"
  for start :: "nat \<Rightarrow> 'r \<Rightarrow> 'l"
    and next_step :: "nat \<Rightarrow> 'r \<Rightarrow> 'l \<Rightarrow> 'p base_packet_scheme \<Rightarrow> ('l, 'p base_packet_scheme) outcome"
    and rc :: "nat \<Rightarrow> int"
    and timed :: bool where
  create_skip: "po_pc s = Creating i f \<Longrightarrow> i < unat (wm_num_threads (po_wm s)) \<Longrightarrow>
    wm_start_routines (po_wm s) ! i = None \<Longrightarrow>
    pool_step start next_step rc timed s
      (s\<lparr>po_wm := set_created i False (po_wm s), po_pc := Creating (Suc i) f\<rparr>)"
| create_ok: "po_pc s = Creating i f \<Longrightarrow> i < unat (wm_num_threads (po_wm s)) \<Longrightarrow>
    wm_start_routines (po_wm s) ! i = Some r \<Longrightarrow> rc i = 0 \<Longrightarrow>
    pool_step start next_step rc timed s
      (s\<lparr>po_wm := set_created i True (po_wm s), po_pc := Creating (Suc i) f,
         po_status := (po_status s)[i := Running (start i r)]\<rparr>)"
| create_error: "po_pc s = Creating i f \<Longrightarrow> i < unat (wm_num_threads (po_wm s)) \<Longrightarrow>
    wm_start_routines (po_wm s) ! i = Some r \<Longrightarrow> rc i \<noteq> 0 \<Longrightarrow>
    pool_step start next_step rc timed s
      (s\<lparr>po_wm := set_created i False (po_wm s), po_pc := Creating (Suc i) (Suc f)\<rparr>)"
| create_end: "po_pc s = Creating i f \<Longrightarrow> i = unat (wm_num_threads (po_wm s)) \<Longrightarrow>
    pool_step start next_step rc timed s (s\<lparr>po_pc := (if f > 0 then Exited else Joining 0 0)\<rparr>)"
| work: "po_pc s \<noteq> Exited \<Longrightarrow> (\<And>e. po_pc s \<noteq> Crashed e) \<Longrightarrow> i < length (po_status s) \<Longrightarrow>
    po_status s ! i = Running l \<Longrightarrow> wm_start_routines (po_wm s) ! i = Some r \<Longrightarrow>
    next_step i r l (wm_packets (po_wm s) ! i) = Continue l' p \<Longrightarrow>
    pool_step start next_step rc timed s
      (s\<lparr>po_wm := set_packet i p (po_wm s), po_status := (po_status s)[i := Running l']\<rparr>)"
| finish: "po_pc s \<noteq> Exited \<Longrightarrow> (\<And>e. po_pc s \<noteq> Crashed e) \<Longrightarrow> i < length (po_status s) \<Longrightarrow>
    po_status s ! i = Running l \<Longrightarrow> wm_start_routines (po_wm s) ! i = Some r \<Longrightarrow>
    next_step i r l (wm_packets (po_wm s) ! i) = Return p \<Longrightarrow>
    pool_step start next_step rc timed s
      (s\<lparr>po_wm := set_packet i p (po_wm s), po_status := (po_status s)[i := Ended]\<rparr>)"
| crash: "po_pc s \<noteq> Exited \<Longrightarrow> (\<And>e. po_pc s \<noteq> Crashed e) \<Longrightarrow> i < length (po_status s) \<Longrightarrow>
    po_status s ! i = Running l \<Longrightarrow> wm_start_routines (po_wm s) ! i = Some r \<Longrightarrow>
    next_step i r l (wm_packets (po_wm s) ! i) = Crash e \<Longrightarrow>
    pool_step start next_step rc timed s (s\<lparr>po_pc := Crashed e\<rparr>)"
| join_skip: "po_pc s = Joining i k \<Longrightarrow> i < unat (wm_num_threads (po_wm s)) \<Longrightarrow>
    \<not> wm_created (po_wm s) ! i \<Longrightarrow>
    pool_step start next_step rc timed s (s\<lparr>po_pc := Joining (Suc i) k\<rparr>)"
| join_ok: "po_pc s = Joining i k \<Longrightarrow> i < unat (wm_num_threads (po_wm s)) \<Longrightarrow>
    wm_created (po_wm s) ! i \<Longrightarrow> po_status s ! i = Ended \<Longrightarrow>
    pool_step start next_step rc timed s (s\<lparr>po_pc := Joining (Suc i) k\<rparr>)"
| join_stuck: "timed \<Longrightarrow> po_pc s = Joining i k \<Longrightarrow> i < unat (wm_num_threads (po_wm s)) \<Longrightarrow>
    wm_created (po_wm s) ! i \<Longrightarrow>
    pool_step start next_step rc timed s (s\<lparr>po_pc := Joining (Suc i) (Suc k)\<rparr>)"
| join_end: "po_pc s = Joining i k \<Longrightarrow> i = unat (wm_num_threads (po_wm s)) \<Longrightarrow>
    pool_step start next_step rc timed s (s\<lparr>po_pc := (if k > 0 then Exited else Joined)\<rparr>)"

text \<open>The states that some interleaving reaches.\<close>

definition pool_reaches ::
    "(nat \<Rightarrow> 'r \<Rightarrow> 'l) \<Rightarrow>
     (nat \<Rightarrow> 'r \<Rightarrow> 'l \<Rightarrow> 'p base_packet_scheme \<Rightarrow> ('l, 'p base_packet_scheme) outcome) \<Rightarrow> (nat \<Rightarrow> int) \<Rightarrow> bool \<Rightarrow>
     ('p, 'r) worker_manager \<Rightarrow> ('p, 'r, 'l) pool \<Rightarrow> bool" where
  "pool_reaches start next_step rc timed wm s = (pool_step start next_step rc timed)\<^sup>*\<^sup>* (initial_pool wm) s"

text \<open>A manager whose lists have one entry for every thread.\<close>

definition manager_wf :: "('p, 'r) worker_manager \<Rightarrow> bool" where
  "manager_wf wm \<longleftrightarrow>
     length (wm_start_routines wm) = unat (wm_num_threads wm) \<and>
     length (wm_packets wm) = unat (wm_num_threads wm) \<and>
     length (wm_bound_cpu wm) = unat (wm_num_threads wm) \<and>
     length (wm_affinity wm) = unat (wm_num_threads wm) \<and>
     length (wm_created wm) = unat (wm_num_threads wm)"

section \<open>The contract of a routine\<close>

text \<open>
  A routine in small steps together with what it computes as a whole: a step does not
  change the result, and returning gives it.
\<close>

locale thread_routine =
  fixes start :: "nat \<Rightarrow> 'r \<Rightarrow> 'l"
    and next_step :: "nat \<Rightarrow> 'r \<Rightarrow> 'l \<Rightarrow> 'p base_packet_scheme \<Rightarrow> ('l, 'p base_packet_scheme) outcome"
    and result :: "nat \<Rightarrow> 'r \<Rightarrow> 'l \<Rightarrow> 'p base_packet_scheme \<Rightarrow> 'p base_packet_scheme run"
  assumes continue: "next_step i r l p = Continue l' p' \<Longrightarrow> result i r l p = result i r l' p'"
    and return: "next_step i r l p = Return p' \<Longrightarrow> result i r l p = ret p'"
    and crash: "next_step i r l p = Crash e \<Longrightarrow> result i r l p = fail e"
begin

text \<open>What one thread's status says of its packet, given the packet it started with.\<close>

definition thread_ok :: "nat \<Rightarrow> 'r option \<Rightarrow> 'p base_packet_scheme \<Rightarrow> 'l thread_status \<Rightarrow> 'p base_packet_scheme \<Rightarrow> bool" where
  "thread_ok i routine p0 st p =
     (case st of
        Not_Started \<Rightarrow> p = p0
      | Running l \<Rightarrow> (\<exists>r. routine = Some r \<and> result i r l p = result i r (start i r) p0)
      | Ended \<Rightarrow> (\<exists>r. routine = Some r \<and> result i r (start i r) p0 = ret p))"

text \<open>What the main thread knows of one thread.\<close>

definition main_ok :: "main_pc \<Rightarrow> nat \<Rightarrow> 'r option \<Rightarrow> bool \<Rightarrow> 'l thread_status \<Rightarrow> bool" where
  "main_ok pc i routine created st =
     (case pc of
        Creating k f \<Rightarrow>
          (if i < k then created = (st \<noteq> Not_Started) \<and> (f = 0 \<longrightarrow> created = (routine \<noteq> None))
           else st = Not_Started)
      | Joining k j \<Rightarrow>
          created = (routine \<noteq> None) \<and> created = (st \<noteq> Not_Started) \<and>
          (j = 0 \<longrightarrow> i < k \<longrightarrow> created \<longrightarrow> st = Ended)
      | Joined \<Rightarrow>
          created = (routine \<noteq> None) \<and> created = (st \<noteq> Not_Started) \<and> (created \<longrightarrow> st = Ended)
      | _ \<Rightarrow> True)"

definition thread_inv :: "('p, 'r) worker_manager \<Rightarrow> ('p, 'r, 'l) pool \<Rightarrow> nat \<Rightarrow> bool" where
  "thread_inv wm s i \<longleftrightarrow>
     main_ok (po_pc s) i (wm_start_routines wm ! i) (wm_created (po_wm s) ! i) (po_status s ! i) \<and>
     thread_ok i (wm_start_routines wm ! i) (wm_packets wm ! i) (po_status s ! i) (wm_packets (po_wm s) ! i)"

definition pool_inv :: "('p, 'r) worker_manager \<Rightarrow> ('p, 'r, 'l) pool \<Rightarrow> bool" where
  "pool_inv wm s \<longleftrightarrow>
     manager_wf (po_wm s) \<and> length (po_status s) = unat (wm_num_threads wm) \<and>
     wm_num_threads (po_wm s) = wm_num_threads wm \<and>
     wm_start_routines (po_wm s) = wm_start_routines wm \<and>
     (case po_pc s of Creating k f \<Rightarrow> k \<le> unat (wm_num_threads wm)
                    | Joining k j \<Rightarrow> k \<le> unat (wm_num_threads wm) | _ \<Rightarrow> True) \<and>
     (\<forall>i < unat (wm_num_threads wm). thread_inv wm s i)"

lemma pool_inv_initial: "manager_wf wm \<Longrightarrow> pool_inv wm (initial_pool wm)"
  by (simp add: pool_inv_def initial_pool_def thread_inv_def main_ok_def thread_ok_def)

lemma pool_inv_frame:
  assumes "pool_step start next_step rc timed s s'" and "pool_inv wm s"
  shows "manager_wf (po_wm s') \<and> length (po_status s') = unat (wm_num_threads wm) \<and>
    wm_num_threads (po_wm s') = wm_num_threads wm \<and>
    wm_start_routines (po_wm s') = wm_start_routines wm \<and>
    (case po_pc s' of Creating k f \<Rightarrow> k \<le> unat (wm_num_threads wm)
                    | Joining k j \<Rightarrow> k \<le> unat (wm_num_threads wm) | _ \<Rightarrow> True)"
  using assms by cases (auto simp: pool_inv_def manager_wf_def)

lemma thread_inv_step:
  assumes "pool_step start next_step rc timed s s'" and "pool_inv wm s" and j: "j < unat (wm_num_threads wm)"
  shows "thread_inv wm s' j"
proof -
  have old: "thread_inv wm s j" and len: "length (wm_packets (po_wm s)) = unat (wm_num_threads wm)"
    "length (wm_created (po_wm s)) = unat (wm_num_threads wm)" "length (po_status s) = unat (wm_num_threads wm)"
    "wm_start_routines (po_wm s) = wm_start_routines wm" "wm_num_threads (po_wm s) = wm_num_threads wm"
    using assms(2) j by (auto simp: pool_inv_def manager_wf_def)
  from assms(1) show ?thesis
  proof (cases rule: pool_step.cases)
    case (create_skip i f)
    with old len j show ?thesis
      by (cases "j = i") (auto simp: thread_inv_def main_ok_def)
  next
    case (create_ok i f r)
    with old len j show ?thesis
      by (cases "j = i") (auto simp: thread_inv_def main_ok_def thread_ok_def)
  next
    case (create_error i f r)
    with old len j show ?thesis
      by (cases "j = i") (auto simp: thread_inv_def main_ok_def)
  next
    case (create_end i f)
    with old len j show ?thesis by (auto simp: thread_inv_def main_ok_def)
  next
    case (work i l r l' p)
    with old len j continue [OF work(7)] show ?thesis
      by (cases "j = i") (auto simp: thread_inv_def main_ok_def thread_ok_def split: main_pc.splits if_splits)
  next
    case (finish i l r p)
    with old len j return [OF finish(7)] show ?thesis
      by (cases "j = i") (auto simp: thread_inv_def main_ok_def thread_ok_def split: main_pc.splits if_splits)
  next
    case (crash i l r e)
    with old show ?thesis by (simp add: thread_inv_def main_ok_def)
  next
    case (join_skip i k)
    with old len j show ?thesis by (cases "j = i") (auto simp: thread_inv_def main_ok_def)
  next
    case (join_ok i k)
    with old len j show ?thesis by (cases "j = i") (auto simp: thread_inv_def main_ok_def)
  next
    case (join_stuck i k)
    with old show ?thesis by (auto simp: thread_inv_def main_ok_def)
  next
    case (join_end i k)
    with old len j show ?thesis by (auto simp: thread_inv_def main_ok_def)
  qed
qed

lemma pool_inv_step:
  "pool_step start next_step rc timed s s' \<Longrightarrow> pool_inv wm s \<Longrightarrow> pool_inv wm s'"
  using pool_inv_frame [of rc timed s s' wm] thread_inv_step [of rc timed s s' wm]
  unfolding pool_inv_def [of wm s'] by blast

lemma pool_inv_reaches:
  assumes "manager_wf wm" and "pool_reaches start next_step rc timed wm s"
  shows "pool_inv wm s"
  using assms(2) unfolding pool_reaches_def
  by (induction rule: rtranclp_induct) (auto intro: pool_inv_initial assms(1) pool_inv_step)

text \<open>When \<open>join\<close> has returned, every packet is what its routine makes of it.\<close>

lemma joined_results:
  assumes "manager_wf wm" and "pool_reaches start next_step rc timed wm s" and "po_pc s = Joined"
    and "i < unat (wm_num_threads wm)"
  shows "case wm_start_routines wm ! i of
      None \<Rightarrow> wm_packets (po_wm s) ! i = wm_packets wm ! i
    | Some r \<Rightarrow> result i r (start i r) (wm_packets wm ! i) = ret (wm_packets (po_wm s) ! i)"
proof -
  have "thread_inv wm s i" using pool_inv_reaches [OF assms(1,2)] assms(4) by (simp add: pool_inv_def)
  with assms(3) show ?thesis
    by (auto simp: thread_inv_def main_ok_def thread_ok_def split: option.split thread_status.splits)
qed

text \<open>Until the main thread is past \<open>join\<close>, or the process has ended, some thread can step.\<close>

lemma pool_progress:
  assumes "pool_inv wm s" and "po_pc s \<noteq> Joined" and "po_pc s \<noteq> Exited" and "\<And>e. po_pc s \<noteq> Crashed e"
  shows "\<exists>s'. pool_step start next_step rc timed s s'"
proof (cases "po_pc s")
  case (Creating k f)
  then show ?thesis
  proof (cases "k = unat (wm_num_threads (po_wm s))")
    case True
    from create_end [OF Creating this] show ?thesis by blast
  next
    case False
    then have k: "k < unat (wm_num_threads (po_wm s))"
      using assms(1) Creating by (auto simp: pool_inv_def)
    show ?thesis
      by (cases "wm_start_routines (po_wm s) ! k"; cases "rc k = 0")
         (use create_skip [OF Creating k] create_ok [OF Creating k] create_error [OF Creating k] in blast)+
  qed
next
  case (Joining k j)
  show ?thesis
  proof (cases "k = unat (wm_num_threads (po_wm s))")
    case True
    from join_end [OF Joining this] show ?thesis by blast
  next
    case False
    then have k: "k < unat (wm_num_threads (po_wm s))" "k < unat (wm_num_threads wm)"
      using assms(1) Joining by (auto simp: pool_inv_def)
    then have inv: "thread_inv wm s k" "k < length (po_status s)" "wm_start_routines (po_wm s) = wm_start_routines wm"
      using assms(1) by (auto simp: pool_inv_def)
    show ?thesis
    proof (cases "wm_created (po_wm s) ! k")
      case False
      from join_skip [OF Joining k(1) this] show ?thesis by blast
    next
      case True
      show ?thesis
      proof (cases "po_status s ! k")
        case Not_Started
        then show ?thesis using inv(1) True Joining by (simp add: thread_inv_def main_ok_def)
      next
        case Ended
        from join_ok [OF Joining k(1) True this] show ?thesis by blast
      next
        case (Running l)
        then obtain r where r: "wm_start_routines (po_wm s) ! k = Some r"
          using inv by (auto simp: thread_inv_def thread_ok_def)
        show ?thesis
          by (cases "next_step k r l (wm_packets (po_wm s) ! k)")
             (use work [OF assms(3,4) inv(2) Running r] finish [OF assms(3,4) inv(2) Running r]
                pool_step.crash [OF assms(3,4) inv(2) Running r] in blast)+
      qed
    qed
  qed
qed (use assms in auto)

end

end
