(* ===== verification/Checkpoint_Loop.thy ===== *)
theory Checkpoint_Loop
  imports Thread_Schedule Timing
begin

text \<open>
  The measurement loop that the three memory workers share: \<open>while (true)\<close> around a
  \<open>for\<close> over \<open>loop_count\<close> kernel invocations, with a checkpoint that reads the clock
  whenever the count of finished work has passed the next mark. The loop is written once,
  over what one invocation does and what restarts a pass; each worker is an instance.
\<close>

section \<open>Running a routine to its end\<close>

text \<open>A routine given by its steps: \<open>None\<close> when it steps forever.\<close>

partial_function (option) run_steps ::
    "('l \<Rightarrow> 'p \<Rightarrow> ('l, 'p) outcome) \<Rightarrow> 'l \<Rightarrow> 'p \<Rightarrow> (fault + 'p) option" where
  "run_steps nxt l p =
     (case nxt l p of
        Continue l' p' \<Rightarrow> run_steps nxt l' p'
      | Return p' \<Rightarrow> ret p'
      | Crash e \<Rightarrow> fail e)"

lemma run_steps_simps [run_simps]:
  "nxt l p = Continue l' p' \<Longrightarrow> run_steps nxt l p = run_steps nxt l' p'"
  "nxt l p = Return p' \<Longrightarrow> run_steps nxt l p = ret p'"
  "nxt l p = Crash e \<Longrightarrow> run_steps nxt l p = fail e"
  by (simp_all add: run_steps.simps [of nxt l p])

text \<open>A set of states that every step leads back into is never left.\<close>

lemma run_steps_diverges:
  assumes inv: "\<And>l p. I l p \<Longrightarrow> \<exists>l' p'. nxt l p = Continue l' p' \<and> I l' p'" and start: "I l p"
  shows "diverges (run_steps nxt l p)"
proof (rule ccontr)
  assume "\<not> diverges (run_steps nxt l p)"
  then obtain y where "run_steps nxt l p = Some y" by blast
  then have "\<not> ((\<forall>l p. I l p \<longrightarrow> (\<exists>l' p'. nxt l p = Continue l' p' \<and> I l' p')) \<and> I l p)"
  proof (rule run_steps.raw_induct [rotated])
    fix f and nxt :: "'a \<Rightarrow> 'b \<Rightarrow> ('a, 'b) outcome" and l p y
    assume IH: "\<And>nxt l p y. f nxt l p = Some y \<Longrightarrow>
        \<not> ((\<forall>l p. I l p \<longrightarrow> (\<exists>l' p'. nxt l p = Continue l' p' \<and> I l' p')) \<and> I l p)"
      and eq: "(case nxt l p of Continue l' p' \<Rightarrow> f nxt l' p' | Return p' \<Rightarrow> ret p' | Crash e \<Rightarrow> fail e) = Some y"
    show "\<not> ((\<forall>l p. I l p \<longrightarrow> (\<exists>l' p'. nxt l p = Continue l' p' \<and> I l' p')) \<and> I l p)"
    proof
      assume h: "(\<forall>l p. I l p \<longrightarrow> (\<exists>l' p'. nxt l p = Continue l' p' \<and> I l' p')) \<and> I l p"
      then obtain l' p' where c: "nxt l p = Continue l' p'" "I l' p'" by blast
      with eq have "f nxt l' p' = Some y" by simp
      from IH [OF this] h c show False by blast
    qed
  qed
  with inv start show False by blast
qed

interpretation stepped: thread_routine start next_step "\<lambda>i r l p. run_steps (next_step i r) l p"
  for start :: "nat \<Rightarrow> 'r \<Rightarrow> 'l"
    and next_step :: "nat \<Rightarrow> 'r \<Rightarrow> 'l \<Rightarrow> 'p base_packet_scheme \<Rightarrow> ('l, 'p base_packet_scheme) outcome"
  by unfold_locales (simp_all add: run_simps)

section \<open>The loop\<close>

text \<open>
  Its variables: \<open>i\<close>, the finished work, the next mark, the number of checkpoints, the
  timer, the readings of the clock so far, and what the kernel works on.
\<close>

record 'b loop_state =
  ls_i :: u64
  ls_finished :: u64
  ls_next_chkpt :: u64
  ls_num_chkpts :: u32
  ls_timer :: timer
  ls_reads :: nat
  ls_body :: 'b

text \<open>
  What a worker fixes before its loop: the work of one invocation, the distance between
  marks, the length of a pass, the target time, the clock, an invocation, and the start of
  a pass.
\<close>

record 'b loop_config =
  lc_unit :: u64
  lc_chkpt :: u64
  lc_loop_count :: u64
  lc_target_ns :: int
  lc_clock :: "nat \<Rightarrow> int"
  lc_kernel :: "u64 \<Rightarrow> 'b \<Rightarrow> fault + 'b"
  lc_restart :: "'b \<Rightarrow> 'b"

definition loop_start :: "'b loop_config \<Rightarrow> 'b \<Rightarrow> 'b loop_state" where
  "loop_start c b =
     \<lparr>ls_i = 0, ls_finished = 0, ls_next_chkpt = lc_chkpt c, ls_num_chkpts = 0,
      ls_timer = startTimer (lc_clock c 0) Timer, ls_reads = 1, ls_body = lc_restart c b\<rparr>"

text \<open>After an invocation: the mark check, and whether the loop ends there (\<open>break\<close>).\<close>

definition checkpoint :: "'b loop_config \<Rightarrow> 'b loop_state \<Rightarrow> bool \<times> 'b loop_state" where
  "checkpoint c s =
     (if ls_finished s > ls_next_chkpt s
      then let t = endTimer (lc_clock c (ls_reads s)) (ls_timer s);
               s' = s\<lparr>ls_timer := t, ls_reads := Suc (ls_reads s),
                      ls_next_chkpt := ls_next_chkpt s + lc_chkpt c,
                      ls_num_chkpts := ls_num_chkpts s + 1\<rparr>
           in if elapsed_time_ns t \<ge> lc_target_ns c then (True, s')
              else (False, s'\<lparr>ls_timer := resumeTimer t\<rparr>)
      else (False, s))"

text \<open>One turn: whether the loops end there, and the variables.\<close>

definition loop_step :: "'b loop_config \<Rightarrow> 'b loop_state \<Rightarrow> fault + bool \<times> 'b loop_state" where
  "loop_step c s =
     (if ls_i s < lc_loop_count c
      then (case lc_kernel c (ls_i s) (ls_body s) of
              Inl e \<Rightarrow> Inl e
            | Inr b \<Rightarrow>
                (case checkpoint c (s\<lparr>ls_body := b, ls_finished := ls_finished s + lc_unit c\<rparr>) of
                   (True, s') \<Rightarrow> Inr (True, s')
                 | (False, s') \<Rightarrow> Inr (False, s'\<lparr>ls_i := ls_i s' + 1\<rparr>)))
      else if ls_i s \<noteq> lc_loop_count c then Inr (True, s)
      else Inr (False, s\<lparr>ls_i := 0, ls_body := lc_restart c (ls_body s)\<rparr>))"

partial_function (option) run_loop :: "'b loop_config \<Rightarrow> 'b loop_state \<Rightarrow> (fault + 'b loop_state) option" where
  "run_loop c s =
     (case loop_step c s of
        Inl e \<Rightarrow> fail e
      | Inr (ended, s') \<Rightarrow> if ended then ret s' else run_loop c s')"

lemma run_loop_simps [run_simps]:
  "loop_step c s = Inl e \<Longrightarrow> run_loop c s = fail e"
  "loop_step c s = Inr (True, s') \<Longrightarrow> run_loop c s = ret s'"
  "loop_step c s = Inr (False, s') \<Longrightarrow> run_loop c s = run_loop c s'"
  by (simp_all add: run_loop.simps [of c s])

text \<open>The loop inside a routine, which then returns what \<open>done\<close> makes of the packet.\<close>

definition loop_outcome ::
    "('b loop_state \<Rightarrow> 'l) \<Rightarrow> ('b loop_state \<Rightarrow> 'p \<Rightarrow> fault + 'p) \<Rightarrow> 'b loop_config \<Rightarrow> 'b loop_state \<Rightarrow> 'p \<Rightarrow> ('l, 'p) outcome" where
  "loop_outcome wrap finish c s p =
     (case loop_step c s of
        Inl e \<Rightarrow> Crash e
      | Inr (ended, s') \<Rightarrow>
          if ended then (case finish s' p of Inl e \<Rightarrow> Crash e | Inr p' \<Rightarrow> Return p')
          else Continue (wrap s') p)"

lemma run_steps_loop:
  assumes "\<And>s. nxt (wrap s) p = loop_outcome wrap finish c s p"
  shows "run_steps nxt (wrap s) p = andthen (run_loop c s) (\<lambda>s'. Some (finish s' p))"
proof -
  have fw: "andthen (run_loop c s) (\<lambda>s'. Some (finish s' p)) = Some y"
    if "run_steps nxt (wrap s) p = Some y" for y
  proof -
    have "(\<forall>s. nxt (wrap s) p = loop_outcome wrap finish c s p) \<longrightarrow>
        (\<forall>s. l = wrap s \<longrightarrow> q = p \<longrightarrow> andthen (run_loop c s) (\<lambda>s'. Some (finish s' p)) = Some y)"
      if "run_steps nxt l q = Some y" for nxt l q
      using that
    proof (rule run_steps.raw_induct [rotated], intro impI allI)
      fix f nxt l q y s
      assume IH: "\<And>nxt l q y. f nxt l q = Some y \<Longrightarrow>
          (\<forall>s. nxt (wrap s) p = loop_outcome wrap finish c s p) \<longrightarrow>
          (\<forall>s. l = wrap s \<longrightarrow> q = p \<longrightarrow> andthen (run_loop c s) (\<lambda>s'. Some (finish s' p)) = Some y)"
        and eq: "(case nxt l q of Continue l' p' \<Rightarrow> f nxt l' p' | Return p' \<Rightarrow> ret p' | Crash e \<Rightarrow> fail e) = Some y"
        and h: "\<forall>s. nxt (wrap s) p = loop_outcome wrap finish c s p" "l = wrap s" "q = p"
      have IH': "f nxt (wrap s') p = Some y \<Longrightarrow> andthen (run_loop c s') (\<lambda>s'. Some (finish s' p)) = Some y" for s'
        using IH [of nxt "wrap s'" p y] h(1) by blast
      show "andthen (run_loop c s) (\<lambda>s'. Some (finish s' p)) = Some y"
        using eq h(2,3) h(1) [THEN spec, of s] IH'
        by (auto simp: loop_outcome_def run_loop.simps [of c s] split: sum.splits if_splits)
    qed
    with that assms show ?thesis by blast
  qed
  have bw: "run_steps nxt (wrap s) p = andthen (run_loop c s) (\<lambda>s'. Some (finish s' p))"
    if "run_loop c s = Some y" for y
  proof -
    have "c' = c \<longrightarrow> run_steps nxt (wrap s) p = andthen (Some y) (\<lambda>s'. Some (finish s' p))"
      if "run_loop c' s = Some y" for c' s
      using that
    proof (rule run_loop.raw_induct [rotated], intro impI)
      fix f c' s y
      assume IH: "\<And>c' s y. f c' s = Some y \<Longrightarrow> c' = c \<longrightarrow>
          run_steps nxt (wrap s) p = andthen (Some y) (\<lambda>s'. Some (finish s' p))"
        and eq: "(case loop_step c' s of Inl e \<Rightarrow> fail e
            | Inr (ended, s') \<Rightarrow> if ended then ret s' else f c' s') = Some y"
        and c: "c' = c"
      show "run_steps nxt (wrap s) p = andthen (Some y) (\<lambda>s'. Some (finish s' p))"
        using eq IH [of c _ y] assms [of s] c
        by (auto simp: loop_outcome_def run_steps.simps [of nxt "wrap s" p] split: sum.splits if_splits)
    qed
    with that show ?thesis by simp
  qed
  show ?thesis
  proof (cases "run_loop c s")
    case None
    then have "run_steps nxt (wrap s) p = None" using fw by (cases "run_steps nxt (wrap s) p") auto
    with None show ?thesis by simp
  qed (rule bw)
qed

end
