(* ===== verification/Loop_Correct.thy ===== *)
theory Loop_Correct
  imports Checkpoint_Loop
begin

text \<open>
  What the measurement loop promises: with an invocation that never faults and a clock that
  reaches the target, it ends at the first checkpoint that reads the target time, having
  counted exactly the work done and the time between the first and the last reading. With
  an empty pass it never ends.
\<close>

section \<open>When the checkpoints fall\<close>

text \<open>
  The number of invocations after which the \<open>k\<close>-th checkpoint is read, for \<open>u\<close> units of
  work per invocation and marks at multiples of \<open>chk\<close>.
\<close>

fun nth_check :: "nat \<Rightarrow> nat \<Rightarrow> nat \<Rightarrow> nat" where
  "nth_check u chk 0 = 0"
| "nth_check u chk (Suc k) = max (Suc k) (Suc k * chk div u + 1)"

lemma nth_check_ge: "k \<le> nth_check u chk k"
  by (cases k) simp_all

lemma nth_check_less_Suc:
  assumes "0 < u"
  shows "nth_check u chk k < nth_check u chk (Suc k)"
proof (cases k)
  case (Suc j)
  show ?thesis
  proof (cases "chk < u")
    case True
    have "Suc j * chk \<le> Suc j * u" using True by (intro mult_le_mono2) simp
    then have "Suc j * chk div u \<le> Suc j" using assms by (metis div_le_mono nonzero_mult_div_cancel_right less_not_refl)
    moreover have "Suc j * chk < Suc j * u" using True by (intro mult_strict_left_mono) simp_all
    then have "Suc j * chk div u < Suc j" using assms by (simp add: div_less_iff_less_mult)
    ultimately show ?thesis using Suc by simp
  next
    case False
    have "Suc j * chk div u + 1 = (Suc j * chk + u) div u" using assms by simp
    also have "\<dots> \<le> (Suc (Suc j) * chk) div u" using False by (intro div_le_mono) simp
    finally show ?thesis using Suc by (simp add: less_max_iff_disj) linarith
  qed
qed simp

lemma nth_check_mono: "0 < u \<Longrightarrow> j \<le> k \<Longrightarrow> nth_check u chk j \<le> nth_check u chk k"
  by (rule lift_Suc_mono_le [of "nth_check u chk"]) (simp_all add: nth_check_less_Suc less_imp_le del: nth_check.simps)

text \<open>The mark is passed by the next invocation exactly when that is the next checkpoint.\<close>

lemma nth_check_fires:
  assumes "0 < u" and "nth_check u chk k \<le> m" and "m < nth_check u chk (Suc k)"
  shows "Suc k * chk < u * Suc m \<longleftrightarrow> Suc m = nth_check u chk (Suc k)"
proof -
  have "Suc k * chk < u * Suc m \<longleftrightarrow> Suc k * chk div u < Suc m"
    using assms(1) by (simp add: div_less_iff_less_mult mult.commute)
  also have "\<dots> \<longleftrightarrow> Suc m = nth_check u chk (Suc k)"
  proof -
    have "Suc k \<le> Suc m" using nth_check_ge [of k u chk] assms(2) by simp
    with assms(3) show ?thesis by (auto simp: max_def split: if_splits)
  qed
  finally show ?thesis .
qed

text \<open>The target is reached first at the \<open>K\<close>-th reading after the start.\<close>

definition target_reached_at :: "'b loop_config \<Rightarrow> nat \<Rightarrow> bool" where
  "target_reached_at c K \<longleftrightarrow>
     1 \<le> K \<and> lc_target_ns c \<le> lc_clock c K - lc_clock c 0 \<and>
     (\<forall>k. 1 \<le> k \<longrightarrow> k < K \<longrightarrow> lc_clock c k - lc_clock c 0 < lc_target_ns c)"

section \<open>The contract of an invocation\<close>

text \<open>\<open>ok c m i b\<close>: after \<open>m\<close> invocations in all, \<open>i\<close> of them in this pass, the kernel is at \<open>b\<close>.\<close>

locale loop_body =
  fixes ok :: "'b loop_config \<Rightarrow> nat \<Rightarrow> u64 \<Rightarrow> 'b \<Rightarrow> bool"
  assumes kernel_ok: "ok c m i b \<Longrightarrow> i < lc_loop_count c \<Longrightarrow> \<exists>b'. lc_kernel c i b = Inr b' \<and> ok c (Suc m) (i + 1) b'"
    and restart_ok: "ok c m (lc_loop_count c) b \<Longrightarrow> ok c m 0 (lc_restart c b)"
begin

definition loop_inv :: "'b loop_config \<Rightarrow> nat \<Rightarrow> nat \<Rightarrow> nat \<Rightarrow> 'b loop_state \<Rightarrow> bool" where
  "loop_inv c K m k s \<longleftrightarrow>
     ls_i s \<le> lc_loop_count c \<and> ok c m (ls_i s) (ls_body s) \<and>
     ls_finished s = of_nat (unat (lc_unit c) * m) \<and>
     ls_next_chkpt s = of_nat (Suc k * unat (lc_chkpt c)) \<and>
     ls_num_chkpts s = of_nat k \<and> ls_reads s = Suc k \<and>
     elapsed_time_ns (ls_timer s) = lc_clock c k - lc_clock c 0 \<and>
     time_point_begin (ls_timer s) = lc_clock c k \<and> k < K \<and>
     nth_check (unat (lc_unit c)) (unat (lc_chkpt c)) k \<le> m \<and>
     m < nth_check (unat (lc_unit c)) (unat (lc_chkpt c)) (Suc k)"

definition loop_result :: "'b loop_config \<Rightarrow> nat \<Rightarrow> 'b loop_state \<Rightarrow> bool" where
  "loop_result c K s \<longleftrightarrow>
     ls_finished s = of_nat (unat (lc_unit c) * nth_check (unat (lc_unit c)) (unat (lc_chkpt c)) K) \<and>
     elapsed_time_ns (ls_timer s) = lc_clock c K - lc_clock c 0 \<and>
     ls_num_chkpts s = of_nat K \<and> 
     (\<exists>i \<le> lc_loop_count c. ok c (nth_check (unat (lc_unit c)) (unat (lc_chkpt c)) K) i (ls_body s))"

lemma loop_inv_start:
  assumes "ok c 0 0 (lc_restart c b)" and "1 \<le> K"
  shows "loop_inv c K 0 0 (loop_start c b)"
  using assms by (simp add: loop_inv_def loop_start_def startTimer_def Timer_def)

text \<open>One turn of the loop, at the end of a pass and inside one.\<close>

lemma loop_inv_restart:
  assumes "loop_inv c K m k s" and "ls_i s = lc_loop_count c"
  shows "\<exists>s'. loop_step c s = Inr (False, s') \<and> loop_inv c K m k s' \<and> ls_i s' = 0"
  using assms restart_ok [of c m "ls_body s"] by (simp add: loop_inv_def loop_step_def)

lemma loop_inv_invoke:
  assumes inv: "loop_inv c K m k s" and i: "ls_i s < lc_loop_count c" and u: "0 < unat (lc_unit c)"
    and K: "target_reached_at c K"
    and fit: "unat (lc_unit c) * nth_check (unat (lc_unit c)) (unat (lc_chkpt c)) K < 2 ^ 64"
      "K * unat (lc_chkpt c) < 2 ^ 64"
  shows "(\<exists>s'. loop_step c s = Inr (True, s') \<and> loop_result c K s') \<or>
    (\<exists>s' k'. loop_step c s = Inr (False, s') \<and> loop_inv c K (Suc m) k' s')"
proof -
  let ?u = "unat (lc_unit c)" and ?chk = "unat (lc_chkpt c)"
  let ?n = "nth_check ?u ?chk"
  have k: "k < K" "?n k \<le> m" "m < ?n (Suc k)" and ok: "ok c m (ls_i s) (ls_body s)"
    using inv by (simp_all add: loop_inv_def del: nth_check.simps)
  obtain b where b: "lc_kernel c (ls_i s) (ls_body s) = Inr b" "ok c (Suc m) (ls_i s + 1) b"
    using kernel_ok [OF ok i] by blast
  have i1: "ls_i s + 1 \<le> lc_loop_count c" using i by (rule inc_le)
  have "Suc m \<le> ?n (Suc k)" "?n (Suc k) \<le> ?n K"
    using k nth_check_mono [OF u, of "Suc k" K ?chk] by simp_all
  then have "?u * Suc m \<le> ?u * ?n K" by (intro mult_le_mono2) (rule le_trans)
  then have um: "?u * Suc m < 18446744073709551616" using fit(1) by simp
  have "Suc k * ?chk \<le> K * ?chk" using k(1) by (intro mult_le_mono1) simp
  then have km: "Suc k * ?chk < 18446744073709551616" using fit(2) by simp
  let ?s1 = "s\<lparr>ls_body := b, ls_finished := ls_finished s + lc_unit c\<rparr>"
  have fin: "ls_finished ?s1 = of_nat (?u * Suc m)"
    using inv by (simp add: loop_inv_def algebra_simps)
  have nxt: "ls_next_chkpt s = of_nat (Suc k * ?chk)" using inv by (simp add: loop_inv_def)
  have "ls_finished ?s1 > ls_next_chkpt ?s1 \<longleftrightarrow> Suc k * ?chk < ?u * Suc m"
    unfolding word_less_nat_alt fin using unat_of_nat_64 [OF um] unat_of_nat_64 [OF km] by (simp add: nxt)
  then have fires: "ls_finished ?s1 > ls_next_chkpt ?s1 \<longleftrightarrow> Suc m = ?n (Suc k)"
    using nth_check_fires [OF u k(2,3)] by simp
  define t where "t = endTimer (lc_clock c (Suc k)) (ls_timer s)"
  have t: "elapsed_time_ns t = lc_clock c (Suc k) - lc_clock c 0"
    "time_point_begin (resumeTimer t) = lc_clock c (Suc k)" "elapsed_time_ns (resumeTimer t) = elapsed_time_ns t"
    using inv by (simp_all add: loop_inv_def t_def endTimer_def resumeTimer_def Let_def)
  have num: "ls_num_chkpts s = of_nat k" "ls_reads s = Suc k" using inv by (simp_all add: loop_inv_def)
  show ?thesis
  proof (cases "Suc m = ?n (Suc k)")
    case False
    then have "loop_step c s = Inr (False, ?s1\<lparr>ls_i := ls_i s + 1\<rparr>)"
      using i b(1) fires by (simp add: loop_step_def checkpoint_def)
    moreover have "loop_inv c K (Suc m) k (?s1\<lparr>ls_i := ls_i s + 1\<rparr>)"
      using inv i1 b(2) fin False k by (simp add: loop_inv_def del: nth_check.simps)
    ultimately show ?thesis by blast
  next
    case True
    let ?s2 = "?s1\<lparr>ls_timer := t, ls_reads := Suc (Suc k), ls_next_chkpt := ls_next_chkpt s + lc_chkpt c,
      ls_num_chkpts := ls_num_chkpts s + 1\<rparr>"
    have step: "loop_step c s =
      (if elapsed_time_ns t \<ge> lc_target_ns c then Inr (True, ?s2)
       else Inr (False, ?s2\<lparr>ls_timer := resumeTimer t, ls_i := ls_i s + 1\<rparr>))"
      using i b(1) fires True num by (simp add: loop_step_def checkpoint_def Let_def t_def [symmetric])
    show ?thesis
    proof (cases "Suc k = K")
      case last: True
      then have "elapsed_time_ns t \<ge> lc_target_ns c" using K t by (simp add: target_reached_at_def)
      moreover have "loop_result c K ?s2"
        using last True fin t num b(2) i1 unfolding loop_result_def
        by (auto simp del: nth_check.simps)
      ultimately show ?thesis using step by simp
    next
      case False
      then have "lc_clock c (Suc k) - lc_clock c 0 < lc_target_ns c"
        using K k(1) by (auto simp: target_reached_at_def)
      then have "\<not> elapsed_time_ns t \<ge> lc_target_ns c" using t(1) by simp
      moreover have "loop_inv c K (Suc m) (Suc k) (?s2\<lparr>ls_timer := resumeTimer t, ls_i := ls_i s + 1\<rparr>)"
        using inv False k i1 b(2) fin t nxt num True nth_check_less_Suc [OF u, of ?chk "Suc k"]
        by (simp add: loop_inv_def algebra_simps del: nth_check.simps)
      ultimately show ?thesis using step by auto
    qed
  qed
qed

lemma run_loop_from:
  assumes "loop_inv c K m k s" and "0 < lc_loop_count c" and "0 < unat (lc_unit c)"
    and "target_reached_at c K"
    and "unat (lc_unit c) * nth_check (unat (lc_unit c)) (unat (lc_chkpt c)) K < 2 ^ 64"
      "K * unat (lc_chkpt c) < 2 ^ 64"
  shows "\<exists>s'. run_loop c s = ret s' \<and> loop_result c K s'"
  using assms(1)
proof (induction "2 * (nth_check (unat (lc_unit c)) (unat (lc_chkpt c)) K - m) +
    (if ls_i s = lc_loop_count c then 1 else 0)" arbitrary: m k s rule: less_induct)
  case less
  let ?n = "nth_check (unat (lc_unit c)) (unat (lc_chkpt c))"
  have "k < K" "m < ?n (Suc k)" using less.prems by (simp_all add: loop_inv_def del: nth_check.simps)
  then have m: "m < ?n K" using nth_check_mono [OF assms(3), of "Suc k" K "unat (lc_chkpt c)"] by simp
  show ?case
  proof (cases "ls_i s = lc_loop_count c")
    case True
    then obtain s' where s': "loop_step c s = Inr (False, s')" "loop_inv c K m k s'" "ls_i s' = 0"
      using loop_inv_restart less.prems by blast
    have "ls_i s' \<noteq> lc_loop_count c" using s'(3) assms(2) by auto
    with less.hyps [OF _ s'(2)] True s'(1) show ?thesis by (simp add: run_simps)
  next
    case False
    moreover have "ls_i s \<le> lc_loop_count c" using less.prems by (simp add: loop_inv_def)
    ultimately have "ls_i s < lc_loop_count c" by (simp add: order_neq_le_trans)
    from loop_inv_invoke [OF less.prems this assms(3-6)] show ?thesis
    proof (elim disjE exE conjE)
      fix s' assume "loop_step c s = Inr (True, s')" "loop_result c K s'"
      then show ?thesis by (simp add: run_simps)
    next
      fix s' k' assume s': "loop_step c s = Inr (False, s')" "loop_inv c K (Suc m) k' s'"
      have "\<exists>s''. run_loop c s' = ret s'' \<and> loop_result c K s''"
        by (rule less.hyps [OF _ s'(2)]) (use m False in \<open>simp split: if_splits\<close>, linarith)
      with s'(1) show ?thesis by (simp add: run_simps)
    qed
  qed
qed

lemma run_loop_returns:
  assumes "ok c 0 0 (lc_restart c b)" and "0 < lc_loop_count c" and "0 < unat (lc_unit c)"
    and "target_reached_at c K"
    and "unat (lc_unit c) * nth_check (unat (lc_unit c)) (unat (lc_chkpt c)) K < 2 ^ 64"
      "K * unat (lc_chkpt c) < 2 ^ 64"
  shows "\<exists>s'. run_loop c (loop_start c b) = ret s' \<and> loop_result c K s'"
proof -
  have "1 \<le> K" using assms(4) by (simp add: target_reached_at_def)
  from run_loop_from [OF loop_inv_start [OF assms(1) this] assms(2-6)] show ?thesis .
qed

end

section \<open>An empty pass\<close>

lemma run_loop_diverges:
  assumes "lc_loop_count c = 0" and "ls_i s = 0"
  shows "diverges (run_loop c s)"
proof (rule ccontr)
  assume "\<not> diverges (run_loop c s)"
  then obtain y where "run_loop c s = Some y" by blast
  then have "\<not> (lc_loop_count c = 0 \<and> ls_i s = 0)"
  proof (rule run_loop.raw_induct [rotated])
    fix f and c :: "'a loop_config" and s y
    assume IH: "\<And>c s y. f c s = Some y \<Longrightarrow> \<not> (lc_loop_count c = 0 \<and> ls_i s = 0)"
      and eq: "(case loop_step c s of Inl e \<Rightarrow> fail e
          | Inr (ended, s') \<Rightarrow> if ended then ret s' else f c s') = Some y"
    show "\<not> (lc_loop_count c = 0 \<and> ls_i s = 0)"
      using eq IH [of c "s\<lparr>ls_i := 0, ls_body := lc_restart c (ls_body s)\<rparr>" y] by (auto simp: loop_step_def)
  qed
  with assms show False by blast
qed

end
