(* ===== verification/Pointer_Store.thy ===== *)
theory Pointer_Store
  imports Prelude
begin

unbundle bit_operations_syntax

text \<open>
  The memory a benchmark region lives in, and the interface its pointer rings need.

  The locale \<open>cell_store\<close> states what a store of fixed-width cells promises: a read
  returns the last value written at that offset, and a write leaves every cell it does not
  overlap alone. \<open>pointer_store\<close> adds addresses: a cell holds the address of another
  cell, and the address can be turned back into the offset. The facts about circular lists
  are proved once inside it. The model of the program's memory, bytes with 64-bit
  little-endian accesses, provides the interface at the end of the theory.
\<close>

section \<open>Sequences of writes and circular lists\<close>

fun write_all :: "('m \<Rightarrow> nat \<Rightarrow> 'v \<Rightarrow> 'm) \<Rightarrow> 'm \<Rightarrow> (nat \<times> 'v) list \<Rightarrow> 'm" where
  "write_all wr m [] = m"
| "write_all wr m ((a, v) # ws) = write_all wr (wr m a v) ws"

definition cells_apart :: "nat \<Rightarrow> nat list \<Rightarrow> bool" where
  "cells_apart w os = (\<forall>i < length os. \<forall>j < length os.
     i \<noteq> j \<longrightarrow> os ! i + w \<le> os ! j \<or> os ! j + w \<le> os ! i)"

text \<open>
  \<open>links_to addr os z\<close> are the writes that link each cell of \<open>os\<close> to the next one and
  the last one to \<open>z\<close>; a ring ends at its own first cell.
\<close>

fun links_to :: "(nat \<Rightarrow> 'v) \<Rightarrow> nat list \<Rightarrow> 'v \<Rightarrow> (nat \<times> 'v) list" where
  "links_to addr [] z = []"
| "links_to addr [x] z = [(x, z)]"
| "links_to addr (x # y # xs) z = (x, addr y) # links_to addr (y # xs) z"

definition ring_links :: "(nat \<Rightarrow> 'v) \<Rightarrow> nat list \<Rightarrow> (nat \<times> 'v) list" where
  "ring_links addr os = links_to addr os (addr (hd os))"

definition is_ring :: "('m \<Rightarrow> nat \<Rightarrow> 'v) \<Rightarrow> (nat \<Rightarrow> 'v) \<Rightarrow> 'm \<Rightarrow> nat list \<Rightarrow> bool" where
  "is_ring rd addr m os = (os \<noteq> [] \<and>
     (\<forall>i < length os. rd m (os ! i) = addr (os ! (Suc i mod length os))))"

fun chase :: "('m \<Rightarrow> nat \<Rightarrow> 'v) \<Rightarrow> ('v \<Rightarrow> nat) \<Rightarrow> 'm \<Rightarrow> nat \<Rightarrow> 'v \<Rightarrow> 'v" where
  "chase rd off m 0 p = p"
| "chase rd off m (Suc k) p = chase rd off m k (rd m (off p))"

lemma length_links_to [simp]: "length (links_to addr os z) = length os"
  by (induction addr os z rule: links_to.induct) auto

lemma map_fst_links_to [simp]: "map fst (links_to addr os z) = os"
  by (induction addr os z rule: links_to.induct) auto

lemma links_to_append:
  "ys \<noteq> [] \<Longrightarrow> links_to addr (xs @ ys) z = links_to addr xs (addr (hd ys)) @ links_to addr ys z"
  by (induction addr xs z rule: links_to.induct) (auto simp: neq_Nil_conv)

lemma nth_links_to:
  "i < length os \<Longrightarrow>
     links_to addr os z ! i = (os ! i, if Suc i < length os then addr (os ! Suc i) else z)"
proof (induction addr os z arbitrary: i rule: links_to.induct)
  case (3 addr x y xs z)
  then show ?case by (cases i) auto
qed auto

lemma links_to_conv_map:
  assumes "os \<noteq> []"
  shows "links_to addr os z =
    map (\<lambda>i. (os ! i, addr (os ! Suc i))) [0..<length os - 1] @ [(os ! (length os - 1), z)]"
  using assms
  by (intro nth_equalityI) (auto simp: nth_links_to nth_append intro!: arg_cong [where f = "nth os"])

lemma write_all_append: "write_all wr m (xs @ ys) = write_all wr (write_all wr m xs) ys"
  by (induction wr m xs rule: write_all.induct) auto

lemma cells_apart_Cons:
  "cells_apart w (x # xs) \<longleftrightarrow>
     (\<forall>y \<in> set xs. x + w \<le> y \<or> y + w \<le> x) \<and> cells_apart w xs"
proof
  assume L: "cells_apart w (x # xs)"
  have "\<forall>y \<in> set xs. x + w \<le> y \<or> y + w \<le> x"
  proof
    fix y assume "y \<in> set xs"
    then obtain j where "j < length xs" "xs ! j = y" by (auto simp: in_set_conv_nth)
    with L [unfolded cells_apart_def, rule_format, of 0 "Suc j"]
    show "x + w \<le> y \<or> y + w \<le> x" by simp
  qed
  moreover have "cells_apart w xs"
    unfolding cells_apart_def
    using L [unfolded cells_apart_def, rule_format, of "Suc i" "Suc j" for i j] by simp
  ultimately show "(\<forall>y \<in> set xs. x + w \<le> y \<or> y + w \<le> x) \<and> cells_apart w xs" by simp
next
  assume R: "(\<forall>y \<in> set xs. x + w \<le> y \<or> y + w \<le> x) \<and> cells_apart w xs"
  show "cells_apart w (x # xs)"
    unfolding cells_apart_def
  proof (intro allI impI)
    fix i j assume "i < length (x # xs)" "j < length (x # xs)" "i \<noteq> j"
    with R show "(x # xs) ! i + w \<le> (x # xs) ! j \<or> (x # xs) ! j + w \<le> (x # xs) ! i"
      by (cases i; cases j) (auto simp: cells_apart_def)
  qed
qed

lemma cells_apart_append:
  "cells_apart w (xs @ ys) \<longleftrightarrow> cells_apart w xs \<and> cells_apart w ys \<and>
     (\<forall>x \<in> set xs. \<forall>y \<in> set ys. x + w \<le> y \<or> y + w \<le> x)"
  by (induction xs) (auto simp: cells_apart_Cons cells_apart_def [of _ "[]"])

lemma cells_apart_map_mult:
  assumes "distinct ks" and "w \<le> u"
  shows "cells_apart w (map (\<lambda>k. k * u) ks)"
  unfolding cells_apart_def
proof (intro allI impI)
  fix i j
  assume ij: "i < length (map (\<lambda>k. k * u) ks)" "j < length (map (\<lambda>k. k * u) ks)" "i \<noteq> j"
  then have "ks ! i \<noteq> ks ! j" using assms(1) by (simp add: nth_eq_iff_index_eq)
  then have "Suc (ks ! i) \<le> ks ! j \<or> Suc (ks ! j) \<le> ks ! i" by linarith
  then have "Suc (ks ! i) * u \<le> ks ! j * u \<or> Suc (ks ! j) * u \<le> ks ! i * u"
    using mult_le_mono1 by blast
  with ij assms(2) show "map (\<lambda>k. k * u) ks ! i + w \<le> map (\<lambda>k. k * u) ks ! j \<or>
      map (\<lambda>k. k * u) ks ! j + w \<le> map (\<lambda>k. k * u) ks ! i"
    by auto
qed

lemma cells_apart_mset:
  assumes "mset xs = mset ys" and "cells_apart w ys" and "0 < w"
  shows "cells_apart w xs"
proof -
  have *: "cells_apart w zs \<longleftrightarrow> distinct zs \<and>
      (\<forall>x \<in> set zs. \<forall>y \<in> set zs. x \<noteq> y \<longrightarrow> x + w \<le> y \<or> y + w \<le> x)" for zs
    by (induction zs) (use \<open>0 < w\<close> in \<open>auto simp: cells_apart_Cons, auto simp: cells_apart_def\<close>)
  from assms show ?thesis
    unfolding * by (metis mset_eq_imp_distinct_iff mset_eq_setD)
qed

section \<open>The interfaces\<close>

locale cell_store =
  fixes rd :: "'m \<Rightarrow> nat \<Rightarrow> 'v"
    and wr :: "'m \<Rightarrow> nat \<Rightarrow> 'v \<Rightarrow> 'm"
    and width :: nat
  assumes rd_wr_same: "rd (wr m a v) a = v"
    and rd_wr_apart: "a + width \<le> b \<or> b + width \<le> a \<Longrightarrow> rd (wr m a v) b = rd m b"
begin

lemma rd_write_all_untouched:
  "\<forall>a \<in> fst ` set ws. a + width \<le> b \<or> b + width \<le> a \<Longrightarrow> rd (write_all wr m ws) b = rd m b"
proof (induction ws arbitrary: m)
  case (Cons w ws)
  then show ?case by (cases w) (simp add: rd_wr_apart)
qed simp

lemma rd_write_all:
  assumes "cells_apart width (map fst ws)" and "i < length ws"
  shows "rd (write_all wr m ws) (fst (ws ! i)) = snd (ws ! i)"
  using assms
proof (induction ws arbitrary: m i)
  case Nil
  then show ?case by simp
next
  case (Cons w ws)
  obtain a v where w: "w = (a, v)" by (cases w)
  from Cons.prems w have ap: "\<forall>y \<in> fst ` set ws. a + width \<le> y \<or> y + width \<le> a"
    and tl: "cells_apart width (map fst ws)"
    by (auto simp: cells_apart_Cons)
  show ?case
  proof (cases i)
    case 0
    have "\<forall>y \<in> fst ` set ws. y + width \<le> a \<or> a + width \<le> y" using ap by blast
    then show ?thesis using 0 w by (simp add: rd_write_all_untouched rd_wr_same)
  next
    case (Suc j)
    with Cons.prems Cons.IH [OF tl, of j] w show ?thesis by simp
  qed
qed

lemma ring_links_is_ring [ring_intros]:
  assumes "os \<noteq> []" and "cells_apart width os"
  shows "is_ring rd addr (write_all wr m (ring_links addr os)) os"
  unfolding is_ring_def
proof (intro conjI allI impI)
  show "os \<noteq> []" by fact
  fix i assume i: "i < length os"
  have "map fst (ring_links addr os) = os" by (simp add: ring_links_def)
  with rd_write_all [of "ring_links addr os" i m] assms i
  show "rd (write_all wr m (ring_links addr os)) (os ! i) = addr (os ! (Suc i mod length os))"
    by (cases "Suc i = length os") (auto simp: ring_links_def nth_links_to hd_conv_nth)
qed

end

locale pointer_store = cell_store rd wr width
  for rd :: "'m \<Rightarrow> nat \<Rightarrow> 'p" and wr :: "'m \<Rightarrow> nat \<Rightarrow> 'p \<Rightarrow> 'm" and width :: nat +
  fixes addr :: "nat \<Rightarrow> 'p"
    and off :: "'p \<Rightarrow> nat"
    and limit :: nat
  assumes off_addr: "a < limit \<Longrightarrow> off (addr a) = a"
begin

lemma chase_ring_from:
  assumes "is_ring rd addr m os" and "\<forall>a \<in> set os. a < limit" and "i < length os"
  shows "chase rd off m k (addr (os ! i)) = addr (os ! ((i + k) mod length os))"
  using assms(3)
proof (induction k arbitrary: i)
  case 0
  then show ?case by simp
next
  case (Suc k)
  have "off (addr (os ! i)) = os ! i" using assms(2) Suc.prems by (simp add: off_addr)
  moreover have "rd m (os ! i) = addr (os ! (Suc i mod length os))"
    using assms(1) Suc.prems by (simp add: is_ring_def)
  moreover have "Suc i mod length os < length os"
    by (rule mod_less_divisor) (use Suc.prems in linarith)
  ultimately show ?case using Suc.IH [of "Suc i mod length os"]
    by (simp add: mod_add_left_eq)
qed

lemma chase_ring:
  assumes "is_ring rd addr m os" and "\<forall>a \<in> set os. a < limit"
  shows "chase rd off m k (addr (os ! 0)) = addr (os ! (k mod length os))"
  using chase_ring_from [OF assms, of 0 k] assms(1) by (simp add: is_ring_def)

end

section \<open>Bytes and 64-bit little-endian accesses\<close>

type_synonym bytes = "nat \<Rightarrow> u8"

definition byte_of :: "u64 \<Rightarrow> nat \<Rightarrow> u8" where
  "byte_of v j = ucast (drop_bit (8 * j) v)"

definition write64 :: "bytes \<Rightarrow> nat \<Rightarrow> u64 \<Rightarrow> bytes" where
  "write64 m a v = (\<lambda>k. if a \<le> k \<and> k < a + 8 then byte_of v (k - a) else m k)"

definition read64 :: "bytes \<Rightarrow> nat \<Rightarrow> u64" where
  "read64 m a = foldr (\<lambda>j w. push_bit (8 * j) (ucast (m (a + j))) OR w) [0..<8] 0"

definition addr_of :: "u64 \<Rightarrow> nat \<Rightarrow> u64" where
  "addr_of base a = base + of_nat a"

definition off_of :: "u64 \<Rightarrow> u64 \<Rightarrow> nat" where
  "off_of base p = unat (p - base)"

lemma bit_read64: "bit (read64 m a) n \<longleftrightarrow> n < 64 \<and> bit (m (a + n div 8)) (n mod 8)"
proof (cases "n < 64")
  case False
  then show ?thesis using bit_imp_le_length [of "read64 m a" n] by auto
next
  case True
  have *: "bit (foldr (\<lambda>j w. push_bit (8 * j) (ucast (m (a + j))) OR w) js (0 :: u64)) n
      \<longleftrightarrow> (\<exists>j \<in> set js. 8 * j \<le> n \<and> bit (m (a + j)) (n - 8 * j))" for js
    using True by (induction js) (auto simp: bit_simps)
  have "bit (read64 m a) n \<longleftrightarrow> (\<exists>j < 8. 8 * j \<le> n \<and> bit (m (a + j)) (n - 8 * j))"
    unfolding read64_def * by auto
  also have "\<dots> \<longleftrightarrow> bit (m (a + n div 8)) (n mod 8)"
  proof
    assume "\<exists>j < 8. 8 * j \<le> n \<and> bit (m (a + j)) (n - 8 * j)"
    then obtain j where j: "8 * j \<le> n" "bit (m (a + j)) (n - 8 * j)" by blast
    then have "n - 8 * j < 8" using bit_imp_le_length [of "m (a + j)" "n - 8 * j"] by simp
    with j(1) obtain r where "n = 8 * j + r" "r < 8"
      by (metis le_add_diff_inverse)
    then have "n div 8 = j" "n mod 8 = n - 8 * j" by simp_all
    with j show "bit (m (a + n div 8)) (n mod 8)" by simp
  next
    assume "bit (m (a + n div 8)) (n mod 8)"
    moreover have "n div 8 < 8" "8 * (n div 8) \<le> n" "n - 8 * (n div 8) = n mod 8"
      using True by (simp_all add: minus_mult_div_eq_mod less_mult_imp_div_less)
    ultimately show "\<exists>j < 8. 8 * j \<le> n \<and> bit (m (a + j)) (n - 8 * j)" by metis
  qed
  finally show ?thesis using True by simp
qed

lemma read64_write64_same: "read64 (write64 m a v) a = v"
proof (rule bit_word_eqI)
  fix n assume "n < LENGTH(64)"
  then have n: "n < 64" by simp
  then have d: "n div 8 < 8" by (simp add: less_mult_imp_div_less)
  have "bit (read64 (write64 m a v) a) n \<longleftrightarrow> bit (byte_of v (n div 8)) (n mod 8)"
    using n d by (auto simp: bit_read64 write64_def)
  also have "\<dots> \<longleftrightarrow> bit v (8 * (n div 8) + n mod 8)"
    by (simp add: byte_of_def bit_simps)
  finally show "bit (read64 (write64 m a v) a) n = bit v n" by simp
qed

lemma read64_write64_apart:
  "a + 8 \<le> b \<or> b + 8 \<le> a \<Longrightarrow> read64 (write64 m a v) b = read64 m b"
  by (rule bit_word_eqI) (auto simp: bit_read64 write64_def)

lemma off_of_addr_of: "a < 2 ^ 64 \<Longrightarrow> off_of base (addr_of base a) = a"
  by (simp add: off_of_def addr_of_def)

interpretation region: pointer_store read64 write64 8 "addr_of base" "off_of base" "2 ^ 64"
  for base :: u64
  by unfold_locales (simp_all add: read64_write64_same read64_write64_apart off_of_addr_of)

end
