(* ===== verification/Mem_Region.thy ===== *)
theory Mem_Region
  imports Pointer_Store
begin

unbundle bit_operations_syntax

text \<open>
  The memory regions of the benchmarks, \<open>src/common/mem_region.h\<close> and
  \<open>src/common/mem_region.cc\<close>: the enumerations, the constructor with its NUMA and
  huge-page allocation, the shuffle \<open>randomizeSequence_\<close> and the three initialisations
  that turn a region into a circular list of pointers.

  The operating system (\<open>libnuma\<close>, \<open>mmap\<close>, \<open>aligned_alloc\<close>) is the record
  \<open>alloc_env\<close>: what each call returns, and the text of the last error. \<open>rand()\<close> is a stream of 31-bit values read from a position, since its
  hidden state is shared by every thread that initialises a region. Offsets, sizes and
  addresses are 64-bit words; a store outside the region is the fault \<open>Out_Of_Bounds\<close>.
\<close>

section \<open>Types\<close>

datatype mem_type =
    NATIVE | NODE0 | NODE1 | NODE2 | NODE3 | NODE4 | NODE5 | NODE6 | NODE7 | INTERLEAVE
  | Other_Mem_Type i32

text \<open>
  The enumerations have a fixed underlying type, so \<open>static_cast\<close> takes any \<open>int\<close>:
  the values without an enumerator are the last constructor.
\<close>

definition mem_type_of :: "i32 \<Rightarrow> mem_type" where
  "mem_type_of c =
     (if c = 0 then NATIVE else if c = 1 then NODE0 else if c = 2 then NODE1
      else if c = 3 then NODE2 else if c = 4 then NODE3 else if c = 5 then NODE4
      else if c = 6 then NODE5 else if c = 7 then NODE6 else if c = 8 then NODE7
      else if c = 9 then INTERLEAVE else Other_Mem_Type c)"

fun mem_type_code :: "mem_type \<Rightarrow> int" where
  "mem_type_code NATIVE = 0"
| "mem_type_code NODE0 = 1"
| "mem_type_code NODE1 = 2"
| "mem_type_code NODE2 = 3"
| "mem_type_code NODE3 = 4"
| "mem_type_code NODE4 = 5"
| "mem_type_code NODE5 = 6"
| "mem_type_code NODE6 = 7"
| "mem_type_code NODE7 = 8"
| "mem_type_code INTERLEAVE = 9"
| "mem_type_code (Other_Mem_Type c) = sint c"

datatype hugepage_type =
    NONE | HGPG_2MB | HGPG_512MB | HGPG_1GB | HGPG_16GB
  | Other_HugePage_Type i32

definition hugepage_type_of :: "i32 \<Rightarrow> hugepage_type" where
  "hugepage_type_of c =
     (if c = 0 then NONE else if c = 1 then HGPG_2MB else if c = 2 then HGPG_512MB
      else if c = 3 then HGPG_1GB else if c = 4 then HGPG_16GB else Other_HugePage_Type c)"

fun hugepage_type_code :: "hugepage_type \<Rightarrow> int" where
  "hugepage_type_code NONE = 0"
| "hugepage_type_code HGPG_2MB = 1"
| "hugepage_type_code HGPG_512MB = 2"
| "hugepage_type_code HGPG_1GB = 3"
| "hugepage_type_code HGPG_16GB = 4"
| "hugepage_type_code (Other_HugePage_Type c) = sint c"

datatype mempolicy = MPOL_DEFAULT | MPOL_BIND | MPOL_INTERLEAVE

text \<open>
  The class, with two things that belong to its memory rather than to its members: the bytes,
  and the memory policy and node mask that the constructor has set with \<open>set_mempolicy\<close>
  before it allocated them, if it has.
\<close>

record mem_region =
  mr_size :: u64
  mr_active_size :: u64
  mr_os_page_size :: u64
  mr_page_size :: u64
  mr_line_size :: u64
  mr_mem_type :: mem_type
  mr_hugepage_type :: hugepage_type
  mr_addr1 :: u64
  mr_real_size :: u64
  mr_num_all_pages :: u64
  mr_num_active_pages :: u64
  mr_num_lines_in_page :: u64
  mr_bytes :: bytes
  mr_policy :: "(mempolicy \<times> u64) option"

record alloc_env =
  env_numa_max_node :: int
  env_numa_pagesize :: u64
  env_getpagesize :: u64
  env_set_mempolicy :: "mempolicy \<Rightarrow> u64 \<Rightarrow> u64 \<Rightarrow> int"
  env_mmap :: "u64 \<Rightarrow> nat \<Rightarrow> u64"
  env_aligned_alloc :: "u64 \<Rightarrow> u64 \<Rightarrow> u64"
  env_strerror :: string

section \<open>Allocation\<close>

definition numa_error_msg :: "string \<Rightarrow> string" where
  "numa_error_msg err = ''NUMA placement failed: '' @ err @
     ''. Check allowed memory nodes/container policy; use --no-matrices in the runner to omit placement tests.''"

definition mmap_error_msg :: "string \<Rightarrow> string" where
  "mmap_error_msg err = ''Huge-page mmap failed: '' @ err @
     ''. Check available huge pages and allocation permissions.''"

definition alloc_error_msg :: "string \<Rightarrow> string" where
  "alloc_error_msg err = ''Memory allocation failed: '' @ err"

text \<open>A shift of a 64-bit one by 64 or more bits, or by a negative count, is undefined.\<close>

definition shift_one :: "int \<Rightarrow> fault + u64" where
  "shift_one n = (if 0 \<le> n \<and> n < 64 then Inr (push_bit (nat n) 1)
                  else Inl (Undefined_Behaviour ''shift count''))"

text \<open>The part of \<open>allocNative_\<close> on memory policies: the policy and node mask set, if any.\<close>

definition set_placement :: "alloc_env \<Rightarrow> mem_type \<Rightarrow> fault + (mempolicy \<times> u64) option" where
  "set_placement env mt =
     (if mem_type_code NODE0 \<le> mem_type_code mt \<and> mem_type_code mt \<le> mem_type_code INTERLEAVE
      then let maxnode = word_of_int ((env_numa_max_node env + 1) + 1) in
        (case (if mt = INTERLEAVE
               then map_sum id (\<lambda>m. (MPOL_INTERLEAVE, m - 1)) (shift_one (env_numa_max_node env + 1))
               else map_sum id (\<lambda>m. (MPOL_BIND, m))
                      (shift_one (mem_type_code mt - mem_type_code NODE0))) of
           Inl e \<Rightarrow> Inl e
         | Inr (mode, nodemask) \<Rightarrow>
             if env_set_mempolicy env mode nodemask maxnode < 0
             then Inl (Exit_With (numa_error_msg (env_strerror env)))
             else Inr (Some (mode, nodemask)))
      else Inr None)"

fun hugepage_size_log2 :: "hugepage_type \<Rightarrow> nat" where
  "hugepage_size_log2 HGPG_2MB = 21"
| "hugepage_size_log2 HGPG_512MB = 29"
| "hugepage_size_log2 HGPG_1GB = 30"
| "hugepage_size_log2 HGPG_16GB = 34"
| "hugepage_size_log2 _ = 0"

definition hugepage_real_size :: "u64 \<Rightarrow> nat \<Rightarrow> u64" where
  "hugepage_real_size sz log2 =
     (let padding = (if sz mod push_bit log2 1 > 0 then 1 else 0)
      in push_bit log2 (drop_bit log2 sz + padding))"

text \<open>The address, the size to unmap and the policy in force.\<close>

definition allocNative ::
    "alloc_env \<Rightarrow> mem_type \<Rightarrow> hugepage_type \<Rightarrow> u64 \<Rightarrow> fault + u64 \<times> u64 \<times> (mempolicy \<times> u64) option" where
  "allocNative env mt ht sz =
     (case set_placement env mt of
        Inl e \<Rightarrow> Inl e
      | Inr policy \<Rightarrow>
         let log2 = hugepage_size_log2 ht;
             huge = (hugepage_type_code ht > hugepage_type_code NONE);
             real_size = (if huge then hugepage_real_size sz log2 else sz);
             addr = (if huge then env_mmap env sz log2
                     else env_aligned_alloc env (env_numa_pagesize env) sz)
         in if huge \<and> addr = - 1 then Inl (Exit_With (mmap_error_msg (env_strerror env)))
            else if addr = 0 then Inl (Exit_With (alloc_error_msg (env_strerror env)))
            else Inr (addr, real_size, policy))"

section \<open>Construction and destruction\<close>

definition MemRegion ::
    "alloc_env \<Rightarrow> u64 \<Rightarrow> u64 \<Rightarrow> u64 \<Rightarrow> u64 \<Rightarrow> mem_type \<Rightarrow> hugepage_type \<Rightarrow> fault + mem_region" where
  "MemRegion env sz active_size page_size line_size mt ht =
     (if page_size = 0 \<or> line_size = 0 then Inl Div_By_Zero
      else
        let page = (if page_size > active_size then 4096 else page_size);
            r = \<lparr>mr_size = sz, mr_active_size = active_size,
                 mr_os_page_size = env_getpagesize env,
                 mr_page_size = page, mr_line_size = line_size,
                 mr_mem_type = mt, mr_hugepage_type = ht,
                 mr_addr1 = 0, mr_real_size = 0,
                 mr_num_all_pages = sz div page,
                 mr_num_active_pages = active_size div page,
                 mr_num_lines_in_page = page div line_size,
                 mr_bytes = (\<lambda>_. 0), mr_policy = None\<rparr>
        in if sz > 0
           then (case allocNative env mt ht sz of
                   Inl e \<Rightarrow> Inl e
                 | Inr (addr, real_size, policy) \<Rightarrow>
                     Inr (r\<lparr>mr_addr1 := addr, mr_real_size := real_size, mr_policy := policy\<rparr>))
           else Inr r)"

datatype release = Munmap u64 u64 | Free u64

definition MemRegion_destroy :: "mem_region \<Rightarrow> release list \<times> mem_region" where
  "MemRegion_destroy r =
     ((if mr_addr1 r \<noteq> 0
       then (if hugepage_type_code (mr_hugepage_type r) > hugepage_type_code NONE
             then [Munmap (mr_addr1 r) (mr_real_size r)]
             else [Free (mr_addr1 r)])
       else []),
      r\<lparr>mr_addr1 := 0\<rparr>)"

definition numAllLines :: "mem_region \<Rightarrow> u64" where
  "numAllLines r = mr_num_all_pages r * mr_num_lines_in_page r"

definition numActiveLines :: "mem_region \<Rightarrow> u64" where
  "numActiveLines r = mr_num_active_pages r * mr_num_lines_in_page r"

definition getOffsetAddr :: "mem_region \<Rightarrow> u64 \<Rightarrow> u64" where
  "getOffsetAddr r offset = mr_addr1 r + offset"

definition getStartPoint :: "mem_region \<Rightarrow> u64" where
  "getStartPoint r = getOffsetAddr r 0"

definition getHalfPoint :: "mem_region \<Rightarrow> u64" where
  "getHalfPoint r = getOffsetAddr r (mr_active_size r div 2)"

text \<open>\<open>*(char**)getOffsetAddr_(offset) = v\<close>.\<close>

definition store_ptr :: "mem_region \<Rightarrow> u64 \<Rightarrow> u64 \<Rightarrow> fault + mem_region" where
  "store_ptr r offset v =
     (if unat offset + 8 \<le> unat (mr_size r)
      then Inr (r\<lparr>mr_bytes := write64 (mr_bytes r) (unat offset) v\<rparr>)
      else Inl Out_Of_Bounds)"

section \<open>The shuffle\<close>

type_synonym rand_stream = "nat \<Rightarrow> 31 word"

function shuffle_loop ::
    "rand_stream \<Rightarrow> nat \<Rightarrow> u64 \<Rightarrow> u64 \<Rightarrow> u64 list \<Rightarrow> fault + (u64 list \<times> nat)" where
  "shuffle_loop rs k r i s =
     (if i > 0 then
        let r' = push_bit 1 r XOR ucast (rs k) in
        if i + 1 = 0 then Inl Div_By_Zero
        else let j = unat (r' mod (i + 1)) in
          if j < length s \<and> unat i < length s
          then let tmp = s ! j
               in shuffle_loop rs (Suc k) r' (i - 1) (s[j := s ! unat i, unat i := tmp])
          else Inl Out_Of_Bounds
      else Inr (s, k))"
  by pat_completeness auto
termination
  by (relation "measure (\<lambda>(rs, k, r, i, s). unat i)")
     (auto simp: unat_sub_64 word_le_nat_alt word_less_nat_alt)

declare shuffle_loop.simps [simp del]

text \<open>
  The last loop of \<open>randomizeSequence_\<close>: its counter is a \<open>uint32_t\<close> compared with
  a \<open>uint64_t\<close>, so it may run forever.
\<close>

partial_function (option) fix_start :: "u64 list \<Rightarrow> u64 \<Rightarrow> u32 \<Rightarrow> u64 list option" where
  "fix_start s sz i =
     (if ucast i < sz
      then (if s ! unat i = 0 then Some (s[unat i := s ! 0, 0 := 0])
            else fix_start s sz (i + 1))
      else Some s)"

definition sequential :: "u64 \<Rightarrow> u64 \<Rightarrow> u64 list" where
  "sequential sz unit = map (\<lambda>i. of_nat i * unit) [0..<unat sz]"

definition randomizeSequence ::
    "rand_stream \<Rightarrow> nat \<Rightarrow> u64 \<Rightarrow> u64 \<Rightarrow> bool \<Rightarrow> (u64 list \<times> nat) run" where
  "randomizeSequence rs k sz unit in_order =
     (let s = sequential sz unit in
      if in_order then ret (s, k)
      else let r = ucast (rs k) XOR push_bit 10 (ucast (rs (Suc k))) in
        (case shuffle_loop rs (Suc (Suc k)) r (sz - 1) s of
           Inl e \<Rightarrow> fail e
         | Inr (s', k') \<Rightarrow>
             (case fix_start s' sz 1 of
                None \<Rightarrow> None
              | Some s'' \<Rightarrow> ret (s'', k'))))"

section \<open>The circular lists\<close>

partial_function (option) stride_loop :: "mem_region \<Rightarrow> u64 \<Rightarrow> (fault + mem_region \<times> u64) option" where
  "stride_loop r i =
     (if i < mr_active_size r
      then (case store_ptr r (i - mr_line_size r) (getOffsetAddr r i) of
              Inl e \<Rightarrow> fail e
            | Inr r' \<Rightarrow> stride_loop r' (i + mr_line_size r))
      else ret (r, i))"

definition stride_init :: "mem_region \<Rightarrow> mem_region run" where
  "stride_init r =
     andthen (stride_loop r (mr_line_size r))
       (\<lambda>(r', i). Some (store_ptr r' (i - mr_line_size r) (getOffsetAddr r' 0)))"

definition vec_at :: "'a list \<Rightarrow> u64 \<Rightarrow> fault + 'a" where
  "vec_at xs i = (if unat i < length xs then Inr (xs ! unat i)
                  else Inl (Uncaught_Exception ''std::out_of_range''))"

text \<open>\<open>*(char**)getOffsetAddr_(from) = getOffsetAddr_(to)\<close>, the offsets read with \<open>at\<close>.\<close>

definition link_at :: "mem_region \<Rightarrow> fault + u64 \<Rightarrow> fault + u64 \<Rightarrow> fault + mem_region" where
  "link_at r from to =
     (case from of Inl e \<Rightarrow> Inl e
      | Inr a \<Rightarrow> (case to of Inl e \<Rightarrow> Inl e | Inr b \<Rightarrow> store_ptr r a (getOffsetAddr r b)))"

definition plus_at :: "u64 list \<Rightarrow> u64 \<Rightarrow> u64 list \<Rightarrow> u64 \<Rightarrow> fault + u64" where
  "plus_at ps i ls j =
     (case vec_at ps i of Inl e \<Rightarrow> Inl e
      | Inr p \<Rightarrow> (case vec_at ls j of Inl e \<Rightarrow> Inl e | Inr l \<Rightarrow> Inr (p + l)))"

function page_line_loop ::
    "mem_region \<Rightarrow> u64 list \<Rightarrow> u64 list \<Rightarrow> u64 \<Rightarrow> u64 \<Rightarrow> u64 \<Rightarrow> fault + mem_region" where
  "page_line_loop r pages lines i n j =
     (if j < n
      then (case link_at r (plus_at pages i lines j) (plus_at pages i lines (j + 1)) of
              Inl e \<Rightarrow> Inl e
            | Inr r' \<Rightarrow> page_line_loop r' pages lines i n (j + 1))
      else Inr r)"
  by pat_completeness auto
termination
proof (relation "measure (\<lambda>(r, pages, lines, i, n, j). unat n - unat j)", goal_cases)
  case (2 r pages lines i n j x)
  then have "unat (j + 1) = unat j + 1"
    using unat_add_64 [of j 1] unat_lt_64 [of n] by (simp add: word_less_nat_alt)
  with 2 show ?case by (simp add: word_less_nat_alt)
qed simp

declare page_line_loop.simps [simp del]

function page_loop ::
    "mem_region \<Rightarrow> u64 list \<Rightarrow> u64 list \<Rightarrow> u64 \<Rightarrow> u64 \<Rightarrow> u64 \<Rightarrow> fault + mem_region" where
  "page_loop r pages lines num_pages num_lines i =
     (if i < num_pages
      then (case page_line_loop r pages lines i (num_lines - 1) 0 of
              Inl e \<Rightarrow> Inl e
            | Inr r' \<Rightarrow>
                let next_page = (if i = num_pages - 1 then 0 else i + 1) in
                (case link_at r' (plus_at pages i lines (num_lines - 1))
                                 (plus_at pages next_page lines 0) of
                   Inl e \<Rightarrow> Inl e
                 | Inr r'' \<Rightarrow> page_loop r'' pages lines num_pages num_lines (i + 1)))
      else Inr r)"
  by pat_completeness auto
termination
proof (relation "measure (\<lambda>(r, pages, lines, np, nl, i). unat np - unat i)", goal_cases)
  case (2 r pages lines np nl i x y z)
  then have "unat (i + 1) = unat i + 1"
    using unat_add_64 [of i 1] unat_lt_64 [of np] by (simp add: word_less_nat_alt)
  with 2 show ?case by (simp add: word_less_nat_alt)
qed simp

declare page_loop.simps [simp del]

definition page_random_init :: "rand_stream \<Rightarrow> nat \<Rightarrow> mem_region \<Rightarrow> (mem_region \<times> nat) run" where
  "page_random_init rs k r =
     andthen (randomizeSequence rs k (mr_num_active_pages r) (mr_page_size r) True)
       (\<lambda>(pages, k1).
          andthen (randomizeSequence rs k1 (mr_num_lines_in_page r) (mr_line_size r) False)
            (\<lambda>(lines, k2). Some (map_sum id (\<lambda>r'. (r', k2))
               (page_loop r pages lines (mr_num_active_pages r) (mr_num_lines_in_page r) 0))))"

function line_loop :: "mem_region \<Rightarrow> u64 list \<Rightarrow> u64 \<Rightarrow> u64 \<Rightarrow> fault + mem_region" where
  "line_loop r lines n i =
     (if i < n
      then (case link_at r (vec_at lines i) (vec_at lines (i + 1)) of
              Inl e \<Rightarrow> Inl e
            | Inr r' \<Rightarrow> line_loop r' lines n (i + 1))
      else Inr r)"
  by pat_completeness auto
termination
proof (relation "measure (\<lambda>(r, lines, n, i). unat n - unat i)", goal_cases)
  case (2 r lines n i x)
  then have "unat (i + 1) = unat i + 1"
    using unat_add_64 [of i 1] unat_lt_64 [of n] by (simp add: word_less_nat_alt)
  with 2 show ?case by (simp add: word_less_nat_alt)
qed simp

declare line_loop.simps [simp del]

definition all_random_init :: "rand_stream \<Rightarrow> nat \<Rightarrow> mem_region \<Rightarrow> (mem_region \<times> nat) run" where
  "all_random_init rs k r =
     (let num_lines = numActiveLines r in
      andthen (randomizeSequence rs k num_lines (mr_line_size r) False)
        (\<lambda>(lines, k').
           Some (case line_loop r lines (num_lines - 1) 0 of
                   Inl e \<Rightarrow> Inl e
                 | Inr r' \<Rightarrow> map_sum id (\<lambda>r''. (r'', k'))
                     (link_at r' (vec_at lines (num_lines - 1)) (vec_at lines 0)))))"

end
