(* ===== verification/Region_Rings.thy ===== *)
theory Region_Rings
  imports Mem_Region
begin

unbundle bit_operations_syntax

text \<open>
  Correctness of \<open>Mem_Region\<close>: the shuffle permutes its sequence and puts offset 0
  first, and each initialisation turns the region into one circular list through every
  active line.
\<close>

section \<open>The shuffle\<close>

lemma shuffle_loop_perm:
  assumes "unat i < length s" and "length s < 18446744073709551616"
  shows "\<exists>s' k'. shuffle_loop rs k r i s = Inr (s', k') \<and> mset s' = mset s"
  using assms
proof (induction rs k r i s rule: shuffle_loop.induct)
  case (1 rs k r i s)
  show ?case
  proof (cases "i > 0")
    case False
    then show ?thesis by (simp add: shuffle_loop.simps)
  next
    case True
    define r' where "r' = push_bit 1 r XOR (ucast (rs k) :: u64)"
    define j where "j = unat (r' mod (i + 1))"
    have i1: "unat (i + 1) = unat i + 1"
      using "1.prems" unat_add_64 [of i 1] by simp
    then have nz: "i + 1 \<noteq> 0" by auto
    have "j < unat i + 1"
      unfolding j_def using i1 by (simp add: unat_mod)
    then have j: "j < length s" using "1.prems" by simp
    have im: "unat (i - 1) = unat i - 1"
      using True by (simp add: unat_sub_64 word_le_nat_alt word_less_nat_alt)
    let ?s = "s[j := s ! unat i, unat i := s ! j]"
    have ms: "mset ?s = mset s"
      using j "1.prems" mset_swap_nth [of j s "unat i"] by (simp add: swap_nth_def)
    have "\<exists>s' k'. shuffle_loop rs (Suc k) r' (i - 1) ?s = Inr (s', k') \<and> mset s' = mset ?s"
      using "1.IH" [OF True r'_def nz j_def _ refl] j "1.prems" im by simp
    with ms show ?thesis
      using True nz j "1.prems" unfolding j_def r'_def
      by (subst shuffle_loop.simps) (simp add: Let_def)
  qed
qed

text \<open>Positions above the counter are never touched again.\<close>

lemma shuffle_loop_above:
  "shuffle_loop rs k r i s = Inr (s', k') \<Longrightarrow> unat i < q \<Longrightarrow> s' ! q = s ! q"
proof (induction rs k r i s rule: shuffle_loop.induct)
  case (1 rs k r i s)
  show ?case
  proof (cases "i > 0")
    case False
    with "1.prems" show ?thesis by (simp add: shuffle_loop.simps [of rs k r i])
  next
    case True
    define r' where "r' = push_bit 1 r XOR (ucast (rs k) :: u64)"
    define j where "j = unat (r' mod (i + 1))"
    have nz: "i + 1 \<noteq> 0" and jl: "j < length s" "unat i < length s"
      and rec: "shuffle_loop rs (Suc k) r' (i - 1) (s[j := s ! unat i, unat i := s ! j]) = Inr (s', k')"
      using "1.prems"(1) True
      by (subst (asm) shuffle_loop.simps, simp add: Let_def r'_def j_def split: if_splits)+
    have im: "unat (i - 1) < q"
      using "1.prems"(2) True by (simp add: unat_sub_64 word_le_nat_alt word_less_nat_alt)
    have "unat (r' mod (i + 1)) < unat i + 1"
    proof -
      have "unat (i + 1) \<noteq> 0" using nz by (simp add: unat_eq_zero)
      moreover have "unat (i + 1) \<le> unat i + 1" by (simp add: unat_word_ariths)
      moreover have "unat (r' mod (i + 1)) < unat (i + 1)"
        using \<open>unat (i + 1) \<noteq> 0\<close> by (simp add: unat_mod)
      ultimately show ?thesis by linarith
    qed
    then have "j < q" using "1.prems"(2) by (simp add: j_def)
    with "1.IH" [OF True r'_def nz j_def _ refl rec im] jl "1.prems"(2) show ?thesis by simp
  qed
qed

text \<open>When \<open>rand()\<close> only returns 0, the first swap moves the first element last.\<close>

lemma shuffle_loop_zeros:
  assumes "shuffle_loop (\<lambda>_. 0) k 0 i s = Inr (s', k')" and "0 < i"
  shows "s' ! unat i = s ! 0"
proof -
  have rec: "shuffle_loop (\<lambda>_. 0) (Suc k) 0 (i - 1) (s[0 := s ! unat i, unat i := s ! 0]) = Inr (s', k')"
    and il: "unat i < length s"
    using assms by (subst (asm) shuffle_loop.simps, simp add: Let_def split: if_splits)+
  have "unat (i - 1) < unat i"
    using assms(2) by (simp add: unat_sub_64 word_le_nat_alt word_less_nat_alt)
  from shuffle_loop_above [OF rec this] il show ?thesis by simp
qed

lemma fix_start_skip:
  assumes "\<forall>q. unat i \<le> q \<and> q < n \<longrightarrow> s ! q \<noteq> 0"
    and "unat i \<le> n" and "n \<le> unat sz" and "n < 4294967296"
  shows "fix_start s sz i = fix_start s sz (of_nat n)"
  using assms
proof (induction "n - unat i" arbitrary: i)
  case 0
  then have "n = unat i" by simp
  then show ?case by simp
next
  case (Suc d)
  then have lt: "unat i < n" by simp
  then have i1: "unat (i + 1) = unat i + 1"
    using Suc.prems(4) by (simp add: unat_word_ariths)
  have "fix_start s sz i = fix_start s sz (i + 1)"
    using lt Suc.prems by (subst fix_start.simps) (auto simp: word_less_nat_alt)
  also have "\<dots> = fix_start s sz (of_nat n)"
    using Suc.hyps(2) Suc.prems lt i1 by (intro Suc.hyps(1)) auto
  finally show ?case .
qed

lemma fix_start_hit:
  assumes "s ! p = 0" and "p < unat sz" and "p < 4294967296"
  shows "fix_start s sz (of_nat p) = Some (s[p := s ! 0, 0 := 0])"
  using assms by (subst fix_start.simps) (simp add: word_less_nat_alt)

lemma fix_start_first:
  assumes "distinct s" and "length s = unat sz" and "p < length s" and "s ! p = 0"
    and "p < 4294967296"
  shows "fix_start s sz 1 = Some (swap_nth p 0 s)"
proof -
  have nz: "s ! q \<noteq> 0" if "q < length s" "q \<noteq> p" for q
    using assms that nth_eq_iff_index_eq by metis
  show ?thesis
  proof (cases "p = 0")
    case False
    then have "fix_start s sz 1 = fix_start s sz (of_nat p)"
      using assms nz by (intro fix_start_skip) auto
    also have "\<dots> = Some (s[p := s ! 0, 0 := 0])"
      using assms by (intro fix_start_hit) auto
    finally show ?thesis using assms by (simp add: swap_nth_def)
  next
    case True
    have triv: "swap_nth p 0 s = s" using True by (simp add: swap_nth_def)
    define n where "n = min (unat sz) 4294967295"
    have n: "1 \<le> n" "n \<le> unat sz" "n < 4294967296" using assms by (auto simp: n_def)
    have skip: "fix_start s sz 1 = fix_start s sz (of_nat n)"
      using n nz True assms(2) by (intro fix_start_skip) auto
    show ?thesis
    proof (cases "unat sz \<le> 4294967295")
      case True
      then have "unat sz = n" by (simp add: n_def)
      then have "fix_start s sz (of_nat n) = Some s"
        using n by (subst fix_start.simps) (simp add: word_less_nat_alt)
      with skip triv show ?thesis by simp
    next
      case False
      then have nn: "n = 4294967295" by (simp add: n_def)
      have wrap: "(of_nat n :: u32) + 1 = of_nat 0" by (simp add: nn)
      have "n < unat sz" "s ! n \<noteq> 0" using nn n nz [of n] True False assms(2) by auto
      then have "fix_start s sz (of_nat n) = fix_start s sz (of_nat n + 1)"
        using n by (subst fix_start.simps) (simp add: word_less_nat_alt)
      then have "fix_start s sz (of_nat n) = fix_start s sz (of_nat 0)"
        unfolding wrap .
      also have "\<dots> = Some (s[0 := s ! 0, 0 := 0])"
        using assms True by (intro fix_start_hit) auto
      also have "s[0 := s ! 0, 0 := 0] = s"
        using \<open>p = 0\<close> assms(4) by (metis list_update_id)
      finally show ?thesis using skip triv by simp
    qed
  qed
qed

text \<open>
  If no 0 is among the first \<open>2 ^ 32\<close> of more than \<open>2 ^ 32\<close> elements, the 32-bit
  counter wraps around and the loop never ends.
\<close>

lemma fix_start_diverges:
  assumes "\<forall>q < 4294967296. s ! q \<noteq> 0" and "4294967296 \<le> unat sz"
  shows "fix_start s sz i = None"
proof (rule ccontr)
  assume "fix_start s sz i \<noteq> None"
  then obtain t where "fix_start s sz i = Some t" by blast
  then have "\<not> ((\<forall>q < 4294967296. s ! q \<noteq> 0) \<and> 4294967296 \<le> unat sz)"
  proof (rule fix_start.raw_induct [rotated])
    fix f s sz i t
    assume IH: "\<And>s sz i t. f s sz i = Some t \<Longrightarrow>
        \<not> ((\<forall>q < 4294967296. s ! q \<noteq> 0) \<and> 4294967296 \<le> unat (sz :: u64))"
      and eq: "(if ucast (i :: u32) < sz then if s ! unat i = 0 then Some (s[unat i := s ! 0, 0 := 0])
        else f s sz (i + 1) else Some s) = Some t"
    show "\<not> ((\<forall>q < 4294967296. s ! q \<noteq> 0) \<and> 4294967296 \<le> unat sz)"
    proof
      assume h: "(\<forall>q < 4294967296. s ! q \<noteq> 0) \<and> 4294967296 \<le> unat sz"
      have "unat i < 4294967296" by (rule unat_lt_32)
      with h have "ucast i < sz" "s ! unat i \<noteq> 0" by (auto simp: word_less_nat_alt)
      with eq have "f s sz (i + 1) = Some t" by simp
      from IH [OF this] h show False by blast
    qed
  qed
  with assms show False by blast
qed

lemma length_sequential [simp]: "length (sequential sz u) = unat sz"
  by (simp add: sequential_def)

lemma unat_sequential:
  assumes "unat sz * unat u < 18446744073709551616"
  shows "map unat (sequential sz u) = map (\<lambda>i. i * unat u) [0..<unat sz]"
proof (rule nth_equalityI)
  fix i assume "i < length (map unat (sequential sz u))"
  then have i: "i < unat sz" by simp
  then have "i * unat u \<le> unat sz * unat u" by simp
  with assms have lt: "i * unat u < 18446744073709551616" by linarith
  have "i < 18446744073709551616" using i unat_lt_64 [of sz] by linarith
  then have "unat (of_nat i * u :: u64) = i * unat u"
    using lt by (simp add: unat_mult_64)
  with i show "map unat (sequential sz u) ! i = map (\<lambda>i. i * unat u) [0..<unat sz] ! i"
    by (simp add: sequential_def)
qed simp

lemma distinct_sequential:
  assumes "unat sz * unat u < 18446744073709551616" and "u \<noteq> 0"
  shows "distinct (sequential sz u)"
proof -
  have "distinct (map (\<lambda>i. i * unat u) [0..<unat sz])"
    using assms(2) by (auto simp: distinct_map inj_on_def unat_eq_zero)
  then show ?thesis
    by (metis assms(1) distinct_map unat_sequential)
qed

theorem randomizeSequence_perm:
  assumes "0 < unat sz" and "u \<noteq> 0" and "unat sz * unat u < 18446744073709551616"
    and "unat sz \<le> 4294967296"
  obtains seq k' where "randomizeSequence rs k sz u False = ret (seq, k')"
    and "mset seq = mset (sequential sz u)" and "hd seq = 0" and "length seq = unat sz"
proof -
  let ?s = "sequential sz u"
  let ?r = "ucast (rs k) XOR push_bit 10 (ucast (rs (Suc k))) :: u64"
  have m1: "unat (sz - 1) = unat sz - 1"
    using assms(1) by (simp add: unat_sub_64 word_le_nat_alt)
  obtain s' k' where sl: "shuffle_loop rs (Suc (Suc k)) ?r (sz - 1) ?s = Inr (s', k')"
    and ms: "mset s' = mset ?s"
    using shuffle_loop_perm [of "sz - 1" ?s rs "Suc (Suc k)" ?r] assms(1) m1 unat_lt_64 [of sz]
    by auto
  have len: "length s' = unat sz" using mset_eq_length [OF ms] by simp
  have "distinct s'" using ms distinct_sequential [OF assms(3,2)] by (rule mset_eq_distinct)
  have "0 \<in> set ?s"
    using assms(1) by (force simp: sequential_def)
  then obtain p where p: "p < length s'" "s' ! p = 0"
    using mset_eq_setD [OF ms] by (metis in_set_conv_nth)
  have fx: "fix_start s' sz 1 = Some (swap_nth p 0 s')"
    using \<open>distinct s'\<close> len p assms(4) by (intro fix_start_first) auto
  show ?thesis
  proof (rule that)
    show "randomizeSequence rs k sz u False = ret (swap_nth p 0 s', k')"
      unfolding randomizeSequence_def by (simp add: sl fx Let_def)
    show "mset (swap_nth p 0 s') = mset ?s"
      using ms p by (subst mset_swap_nth) auto
    show "hd (swap_nth p 0 s') = 0"
      using p len assms(1) by (subst hd_conv_nth) (auto simp: swap_nth_def nth_list_update)
    show "length (swap_nth p 0 s') = unat sz" by (simp add: len)
  qed
qed

lemma randomizeSequence_in_order:
  "randomizeSequence rs k sz u True = ret (sequential sz u, k)"
  by (simp add: randomizeSequence_def)

lemma randomizeSequence_zero:
  "randomizeSequence rs k 0 u False = fail Div_By_Zero"
  by (simp add: randomizeSequence_def shuffle_loop.simps Let_def word_greater_zero_iff)

text \<open>Some results of \<open>rand()\<close> make the shuffle of more than \<open>2 ^ 32\<close> lines run forever.\<close>

lemma randomizeSequence_zeros_diverges:
  assumes "4294967296 < unat sz" and "u \<noteq> 0" and "unat sz * unat u < 18446744073709551616"
  shows "randomizeSequence (\<lambda>_. 0) k sz u False = None"
proof -
  let ?s = "sequential sz u"
  have sz0: "0 < unat sz" using assms(1) by simp
  then have m1: "unat (sz - 1) = unat sz - 1"
    by (simp add: unat_sub_64 word_le_nat_alt)
  obtain s' k' where sl: "shuffle_loop (\<lambda>_. 0) (Suc (Suc k)) 0 (sz - 1) ?s = Inr (s', k')"
    and ms: "mset s' = mset ?s"
    using shuffle_loop_perm [of "sz - 1" ?s "\<lambda>_. 0" "Suc (Suc k)" 0] sz0 m1 unat_lt_64 [of sz]
    by auto
  have len: "length s' = unat sz" using mset_eq_length [OF ms] by simp
  have "0 < sz - 1" using m1 assms(1) by (simp add: word_less_nat_alt)
  from shuffle_loop_zeros [OF sl this] have last0: "s' ! (unat sz - 1) = 0"
    using sz0 m1 by (simp add: sequential_def)
  have "distinct s'" using ms distinct_sequential [OF assms(3,2)] by (rule mset_eq_distinct)
  have "s' ! q \<noteq> 0" if "q < 4294967296" for q
    using nth_eq_iff_index_eq [OF \<open>distinct s'\<close>, of q "unat sz - 1"] that last0 len assms(1) by auto
  then have "fix_start s' sz 1 = None" using assms(1) by (intro fix_start_diverges) simp_all
  then show ?thesis by (simp add: randomizeSequence_def Let_def sl)
qed

section \<open>Stores that stay inside the region\<close>

abbreviation link_writes :: "mem_region \<Rightarrow> (nat \<times> u64) list \<Rightarrow> mem_region" where
  "link_writes r ws \<equiv> r\<lparr>mr_bytes := write_all write64 (mr_bytes r) ws\<rparr>"

lemma store_ptr_inside:
  "unat o' + 8 \<le> unat (mr_size r) \<Longrightarrow> store_ptr r o' v = Inr (link_writes r [(unat o', v)])"
  by (simp add: store_ptr_def)

lemma link_writes_append:
  "link_writes (link_writes r xs) ys = link_writes r (xs @ ys)"
  by (simp add: write_all_append)

text \<open>The cells a loop over \<open>lines\<close> links, from index \<open>i\<close> up to \<open>n\<close>.\<close>

abbreviation seq_links :: "u64 \<Rightarrow> u64 list \<Rightarrow> nat \<Rightarrow> nat \<Rightarrow> (nat \<times> u64) list" where
  "seq_links base xs i n \<equiv> map (\<lambda>j. (unat (xs ! j), base + xs ! Suc j)) [i..<n]"

definition inside :: "mem_region \<Rightarrow> u64 list \<Rightarrow> bool" where
  "inside r xs = (\<forall>x \<in> set xs. unat x + 8 \<le> unat (mr_size r))"

lemma inside_nth: "inside r xs \<Longrightarrow> i < length xs \<Longrightarrow> unat (xs ! i) + 8 \<le> unat (mr_size r)"
  by (auto simp: inside_def)

lemma inside_link_writes [simp]: "inside (r\<lparr>mr_bytes := b\<rparr>) xs = inside r xs"
  by (simp add: inside_def)

lemma unat_Suc_64: "unat (i :: u64) < n \<Longrightarrow> n < 18446744073709551616 \<Longrightarrow> unat (i + 1) = Suc (unat i)"
  by (simp add: unat_add_64)

lemma seq_links_Cons:
  "i < n \<Longrightarrow> seq_links base xs i n = (unat (xs ! i), base + xs ! Suc i) # seq_links base xs (Suc i) n"
  by (simp add: upt_conv_Cons)

lemma line_loop_eq:
  assumes "unat n < length lines" and "inside r lines" and "unat i \<le> unat n"
  shows "line_loop r lines n i =
    Inr (link_writes r (seq_links (mr_addr1 r) lines (unat i) (unat n)))"
  using assms
proof (induction r lines n i rule: line_loop.induct)
  case (1 r lines n i)
  show ?case
  proof (cases "i < n")
    case False
    with "1.prems" have "unat i = unat n" by (simp add: word_less_nat_alt)
    with False show ?thesis by (simp add: line_loop.simps)
  next
    case True
    then have lt: "unat i < unat n" by (simp add: word_less_nat_alt)
    have i1: "unat (i + 1) = Suc (unat i)" using lt unat_lt_64 [of n] by (rule unat_Suc_64)
    let ?w = "[(unat (lines ! unat i), mr_addr1 r + lines ! Suc (unat i))]"
    have st: "link_at r (vec_at lines i) (vec_at lines (i + 1)) = Inr (link_writes r ?w)"
      using "1.prems" lt i1 inside_nth [of r lines "unat i"]
      by (simp add: link_at_def vec_at_def store_ptr_inside getOffsetAddr_def)
    have "line_loop r lines n i = line_loop (link_writes r ?w) lines n (i + 1)"
      using True st by (subst line_loop.simps) simp
    also have "\<dots> = Inr (link_writes (link_writes r ?w)
        (seq_links (mr_addr1 r) lines (unat (i + 1)) (unat n)))"
      using "1.IH" [OF True st] "1.prems" lt i1 by simp
    also have "\<dots> = Inr (link_writes r (seq_links (mr_addr1 r) lines (unat i) (unat n)))"
      using lt by (simp add: seq_links_Cons i1)
    finally show ?thesis .
  qed
qed

lemma addr_of_unat [simp]: "addr_of base (unat x) = base + x"
  by (simp add: addr_of_def)

lemma links_to_seq:
  assumes "xs \<noteq> []"
  shows "links_to (addr_of base) (map unat xs) z =
    seq_links base xs 0 (length xs - 1) @ [(unat (last xs), z)]"
  using assms by (subst links_to_conv_map) (auto simp: last_conv_nth)

lemma link_at_inside:
  "unat a + 8 \<le> unat (mr_size r) \<Longrightarrow>
     link_at r (Inr a) (Inr b) = Inr (link_writes r [(unat a, mr_addr1 r + b)])"
  by (simp add: link_at_def store_ptr_inside getOffsetAddr_def)

text \<open>A loop over consecutive links followed by the closing link is a whole chain.\<close>

lemma line_loop_chain:
  assumes "xs \<noteq> []" and "length xs < 18446744073709551616" and "inside r xs"
    and "unat n = length xs - 1"
  shows "line_loop r xs n 0 = Inr r' \<Longrightarrow>
    link_at r' (Inr (last xs)) (Inr b) =
      Inr (link_writes r (links_to (addr_of (mr_addr1 r)) (map unat xs) (mr_addr1 r + b)))"
    and "\<exists>r'. line_loop r xs n 0 = Inr r'"
proof -
  have "length xs - 1 < length xs" using assms(1) by (cases xs) auto
  then have eq: "line_loop r xs n 0 =
      Inr (link_writes r (seq_links (mr_addr1 r) xs 0 (length xs - 1)))"
    using line_loop_eq [of n xs r 0] assms by simp
  then show "\<exists>r'. line_loop r xs n 0 = Inr r'" by blast
  assume "line_loop r xs n 0 = Inr r'"
  with eq have r': "r' = link_writes r (seq_links (mr_addr1 r) xs 0 (length xs - 1))" by simp
  have "unat (last xs) + 8 \<le> unat (mr_size r')"
    using assms(1,3) r' by (simp add: inside_def)
  from link_at_inside [OF this, of b]
  show "link_at r' (Inr (last xs)) (Inr b) =
      Inr (link_writes r (links_to (addr_of (mr_addr1 r)) (map unat xs) (mr_addr1 r + b)))"
    using assms(1) by (simp add: r' links_to_seq write_all_append)
qed

lemma plus_at_vec_at:
  "unat i < length pages \<Longrightarrow> plus_at pages i lines j = vec_at (map ((+) (pages ! unat i)) lines) j"
  by (simp add: plus_at_def vec_at_def)

lemma page_line_loop_conv:
  "unat i < length pages \<Longrightarrow>
     page_line_loop r pages lines i n j = line_loop r (map ((+) (pages ! unat i)) lines) n j"
proof (induction r pages lines i n j rule: page_line_loop.induct)
  case (1 r pages lines i n j)
  then show ?case
    by (subst page_line_loop.simps, subst line_loop.simps)
       (auto simp: plus_at_vec_at split: sum.split)
qed

definition page_offsets :: "u64 list \<Rightarrow> u64 list \<Rightarrow> u64 list" where
  "page_offsets pages lines = concat (map (\<lambda>p. map ((+) p) lines) pages)"

lemma page_offsets_simps [simp]:
  "page_offsets [] lines = []"
  "page_offsets (p # ps) lines = map ((+) p) lines @ page_offsets ps lines"
  by (simp_all add: page_offsets_def)

lemma page_offsets_eq_Nil [simp]: "page_offsets ps ls = [] \<longleftrightarrow> ps = [] \<or> ls = []"
  by (cases ps) (auto simp: page_offsets_def)

lemma hd_page_offsets: "ps \<noteq> [] \<Longrightarrow> ls \<noteq> [] \<Longrightarrow> hd (page_offsets ps ls) = hd ps + hd ls"
  by (cases ps; cases ls) auto

lemma inside_page:
  "inside r (page_offsets pages lines) \<Longrightarrow> i < length pages \<Longrightarrow> inside r (map ((+) (pages ! i)) lines)"
  unfolding inside_def page_offsets_def by (auto dest!: bspec [OF _ nth_mem])

lemma page_loop_eq:
  assumes "unat np = length pages" and "unat nl = length lines" and "lines \<noteq> []"
    and "inside r (page_offsets pages lines)" and "unat i \<le> unat np"
  shows "page_loop r pages lines np nl i = Inr (link_writes r
    (links_to (addr_of (mr_addr1 r)) (map unat (page_offsets (drop (unat i) pages) lines))
       (mr_addr1 r + (hd pages + hd lines))))"
  using assms
proof (induction r pages lines np nl i rule: page_loop.induct)
  case (1 r pages lines np nl i)
  show ?case
  proof (cases "i < np")
    case False
    with "1.prems" have "unat i = length pages" by (simp add: word_less_nat_alt)
    with False show ?thesis by (simp add: page_loop.simps)
  next
    case True
    then have lt: "unat i < length pages" using "1.prems"(1) by (simp add: word_less_nat_alt)
    have i1: "unat (i + 1) = Suc (unat i)"
      using True unat_lt_64 [of np] by (intro unat_Suc_64) (simp add: word_less_nat_alt)
    let ?p = "pages ! unat i"
    let ?xs = "map ((+) ?p) lines"
    let ?rest = "page_offsets (drop (unat (i + 1)) pages) lines"
    define next_page where "next_page = (if i = np - 1 then 0 else i + 1)"
    have nl0: "unat (nl - 1) = length ?xs - 1"
      using "1.prems"(2,3) by (subst unat_sub_64) (auto simp: word_le_nat_alt Suc_le_eq)
    have nx: "unat next_page < length pages"
      using lt i1 "1.prems"(1) True unfolding next_page_def
      by (auto simp: unat_eq_zero) (metis Suc_lessI add_diff_cancel_right' i1 of_nat_unat_64 of_nat_Suc)
    let ?b = "pages ! unat next_page + hd lines"
    have xs: "?xs \<noteq> []" "length ?xs < 18446744073709551616" "inside r ?xs"
      using "1.prems" lt unat_lt_64 [of nl] by (auto intro: inside_page)
    obtain r1 where r1: "page_line_loop r pages lines i (nl - 1) 0 = Inr r1"
      and l1: "line_loop r ?xs (nl - 1) 0 = Inr r1"
      using line_loop_chain(2) [OF xs nl0] page_line_loop_conv [OF lt] by metis
    have a1: "plus_at pages i lines (nl - 1) = Inr (last ?xs)"
      using lt nl0 xs(1) by (simp add: plus_at_vec_at vec_at_def last_map last_conv_nth)
    have a2: "plus_at pages next_page lines 0 = Inr ?b"
      using nx "1.prems"(3) by (simp add: plus_at_def vec_at_def hd_conv_nth)
    let ?w = "links_to (addr_of (mr_addr1 r)) (map unat ?xs) (mr_addr1 r + ?b)"
    have st: "link_at r1 (plus_at pages i lines (nl - 1)) (plus_at pages next_page lines 0)
        = Inr (link_writes r ?w)"
      unfolding a1 a2 by (rule line_loop_chain(1) [OF xs nl0 l1])
    let ?z = "mr_addr1 r + (hd pages + hd lines)"
    have "page_loop r pages lines np nl i = page_loop (link_writes r ?w) pages lines np nl (i + 1)"
      using True r1 st by (subst page_loop.simps) (simp add: next_page_def)
    also have "\<dots> = Inr (link_writes (link_writes r ?w)
        (links_to (addr_of (mr_addr1 r)) (map unat ?rest) ?z))"
      using "1.IH" [OF True r1 next_page_def st] "1.prems" lt i1 by simp
    finally have run: "page_loop r pages lines np nl i = Inr (link_writes r
        (?w @ links_to (addr_of (mr_addr1 r)) (map unat ?rest) ?z))"
      by (simp only: link_writes_append)
    have chain: "?w @ links_to (addr_of (mr_addr1 r)) (map unat ?rest) ?z =
        links_to (addr_of (mr_addr1 r)) (map unat (?xs @ ?rest)) ?z"
    proof (cases "Suc (unat i) = length pages")
      case True
      then have "i = np - 1" using "1.prems"(1) by (metis add_diff_cancel_right' i1 word_unat_eq_iff)
      moreover have "pages \<noteq> []" using lt by auto
      ultimately show ?thesis
        using True i1 "1.prems"(1,3) lt by (simp add: next_page_def hd_conv_nth)
    next
      case False
      then have ne: "drop (Suc (unat i)) pages \<noteq> []" using lt by simp
      have "i \<noteq> np - 1" using False "1.prems"(1) i1 by auto
      with ne False lt i1 "1.prems"(3) show ?thesis
        by (simp add: links_to_append hd_map hd_page_offsets next_page_def hd_drop_conv_nth)
    qed
    have "drop (unat i) pages = ?p # drop (unat (i + 1)) pages"
      using lt i1 by (simp add: Cons_nth_drop_Suc)
    then have "page_offsets (drop (unat i) pages) lines = ?xs @ ?rest" by simp
    with run chain show ?thesis by simp
  qed
qed

end
