(* ===== verification/Region_Init.thy ===== *)
theory Region_Init
  imports Region_Rings
begin

text \<open>
  What the three initialisations of a region promise, and the constructor and allocation
  of \<open>MemRegion\<close>. The reference for a ring is the list of its line offsets: consecutive
  multiples of the line size (\<open>line_grid\<close>), or those of each page in turn
  (\<open>page_grid\<close>).
\<close>

section \<open>Reference offsets\<close>

definition line_grid :: "nat \<Rightarrow> nat \<Rightarrow> nat list" where
  "line_grid n line = map (\<lambda>i. i * line) [0..<n]"

definition page_grid :: "nat \<Rightarrow> nat \<Rightarrow> nat \<Rightarrow> nat \<Rightarrow> nat list" where
  "page_grid np nl page line =
     concat (map (\<lambda>p. map (\<lambda>l. p * page + l * line) [0..<nl]) [0..<np])"

definition region_wf :: "mem_region \<Rightarrow> bool" where
  "region_wf r =
     (mr_page_size r \<noteq> 0 \<and> mr_line_size r \<noteq> 0 \<and>
      mr_num_all_pages r = mr_size r div mr_page_size r \<and>
      mr_num_active_pages r = mr_active_size r div mr_page_size r \<and>
      mr_num_lines_in_page r = mr_page_size r div mr_line_size r \<and>
      mr_active_size r \<le> mr_size r)"

definition ring_in :: "mem_region \<Rightarrow> nat list \<Rightarrow> bool" where
  "ring_in r os = is_ring read64 (addr_of (mr_addr1 r)) (mr_bytes r) os"

definition follow :: "mem_region \<Rightarrow> nat \<Rightarrow> u64 \<Rightarrow> u64" where
  "follow r k p = chase read64 (off_of (mr_addr1 r)) (mr_bytes r) k p"

lemma length_line_grid [simp]: "length (line_grid n line) = n"
  by (simp add: line_grid_def)

lemma length_page_grid [simp]: "length (page_grid np nl page line) = np * nl"
  by (induction np) (simp_all add: page_grid_def)

lemma in_line_gridE:
  assumes "x \<in> set (line_grid n line)"
  obtains i where "x = i * line" "i < n"
  using assms by (auto simp: line_grid_def intro: that)

lemma page_grid_Suc:
  "page_grid (Suc np) nl page line =
     page_grid np nl page line @ map (\<lambda>l. np * page + l * line) [0..<nl]"
  by (simp add: page_grid_def)

lemma cells_apart_line_grid: "w \<le> line \<Longrightarrow> cells_apart w (line_grid n line)"
  unfolding line_grid_def by (rule cells_apart_map_mult) simp_all

lemma cells_apart_shift: "cells_apart w (map (\<lambda>l. c + f l) xs) = cells_apart w (map f xs)"
  by (simp add: cells_apart_def add.assoc)

lemma page_grid_bound:
  assumes "nl * line \<le> page" and "w \<le> line" and "x \<in> set (page_grid np nl page line)"
  shows "x + w \<le> np * page"
proof -
  from assms(3) obtain p l where x: "x = p * page + l * line" "p < np" "l < nl"
    by (auto simp: page_grid_def)
  have "Suc l * line \<le> nl * line" using x(3) by (intro mult_le_mono1) simp
  then have "l * line + w \<le> page" using assms(1,2) by simp
  then have "x + w \<le> Suc p * page" using x(1) by simp
  also have "\<dots> \<le> np * page" using x(2) by (intro mult_le_mono1) simp
  finally show ?thesis .
qed

lemma cells_apart_page_grid:
  assumes "nl * line \<le> page" and "w \<le> line"
  shows "cells_apart w (page_grid np nl page line)"
proof (induction np)
  case 0
  show ?case by (simp add: page_grid_def cells_apart_def)
next
  case (Suc np)
  have "cells_apart w (map (\<lambda>l. np * page + l * line) [0..<nl])"
    using cells_apart_map_mult [of "[0..<nl]" w line] assms(2) by (simp add: cells_apart_shift)
  with Suc.IH show ?case
    unfolding page_grid_Suc cells_apart_append
    using page_grid_bound [OF assms, of _ np] by fastforce
qed

lemma distinct_cells_apart: "cells_apart w os \<Longrightarrow> 0 < w \<Longrightarrow> distinct os"
  unfolding cells_apart_def distinct_conv_nth by force

section \<open>Following the pointers\<close>

text \<open>
  One lap: from the start of a ring, the first \<open>length os\<close> addresses are those of
  \<open>os\<close> in order, and the next one is the start again.
\<close>

lemma ring_lap:
  assumes "ring_in r os" and "\<forall>a \<in> set os. a < 2 ^ 64" and "hd os = 0"
  shows "follow r k (getStartPoint r) = addr_of (mr_addr1 r) (os ! (k mod length os))"
proof -
  have "os \<noteq> []" using assms(1) by (simp add: ring_in_def is_ring_def)
  then have "getStartPoint r = addr_of (mr_addr1 r) (os ! 0)"
    using assms(3) by (simp add: getStartPoint_def getOffsetAddr_def addr_of_def hd_conv_nth)
  with region.chase_ring [of "mr_addr1 r" "mr_bytes r" os k] assms(1,2)
  show ?thesis by (simp add: follow_def ring_in_def)
qed

lemma off_follow:
  assumes "ring_in r os" and "\<forall>a \<in> set os. a < 2 ^ 64" and "hd os = 0"
  shows "off_of (mr_addr1 r) (follow r k (getStartPoint r)) = os ! (k mod length os)"
proof -
  have "os \<noteq> []" using assms(1) by (simp add: ring_in_def is_ring_def)
  then have "os ! (k mod length os) \<in> set os" by simp
  with assms(2) have "os ! (k mod length os) < 2 ^ 64" by blast
  then show ?thesis by (simp only: ring_lap [OF assms] off_of_addr_of)
qed

lemma ring_in_writes [ring_intros]:
  assumes "os \<noteq> []" and "cells_apart 8 os"
    and "mr_bytes r' = write_all write64 m (ring_links (addr_of (mr_addr1 r')) os)"
  shows "ring_in r' os"
  unfolding ring_in_def assms(3) using assms(1,2) by (rule region.ring_links_is_ring)

section \<open>Sequential stride\<close>

lemma stride_loop_eq:
  assumes "unat (mr_active_size r) \<le> n * line" and "(n - 1) * line < unat (mr_active_size r)"
    and "line = unat (mr_line_size r)" and "n * line < 2 ^ 64" and "8 \<le> line"
    and "unat (mr_active_size r) \<le> unat (mr_size r)"
    and "1 \<le> k" and "k \<le> n"
  shows "stride_loop r (of_nat (k * line)) = ret
    (link_writes r (map (\<lambda>j. (j * line, addr_of (mr_addr1 r) (Suc j * line))) [k - 1..<n - 1]),
     of_nat (n * line))"
  using assms
proof (induction "n - k" arbitrary: k r)
  case 0
  then have kn: "k = n" using 0 by simp
  have u: "unat (of_nat (n * line) :: u64) = n * line"
    using 0 by (intro unat_of_nat_64) simp
  have "\<not> (of_nat (n * line) :: u64) < mr_active_size r"
    unfolding word_less_nat_alt u using 0 by simp
  then show ?case unfolding kn by (subst stride_loop.simps) simp
next
  case (Suc d)
  then have kn: "k < n" by simp
  obtain k' where k': "k = Suc k'" using Suc.prems(7) by (cases k) auto
  have "k * line \<le> (n - 1) * line" using kn by (intro mult_le_mono1) simp
  then have lt: "k * line < unat (mr_active_size r)" using Suc.prems(2) by (rule le_less_trans)
  have b: "k * line < 2 ^ 64" "Suc k * line < 2 ^ 64"
    using Suc.prems(4) kn mult_le_mono1 [of k n line] mult_le_mono1 [of "Suc k" n line] by auto
  have off: "of_nat (k * line) - mr_line_size r = of_nat (k' * line)"
    using Suc.prems(3) by (simp add: k' algebra_simps)
  have nxt: "of_nat (k * line) + mr_line_size r = of_nat (Suc k * line)"
    using Suc.prems(3) by (simp add: algebra_simps)
  have uk: "unat (of_nat (k' * line) :: u64) = k' * line"
    using b by (intro unat_of_nat_64) (simp add: k')
  let ?w = "(k' * line, addr_of (mr_addr1 r) (Suc k' * line))"
  have st: "store_ptr r (of_nat (k * line) - mr_line_size r) (getOffsetAddr r (of_nat (k * line)))
      = Inr (link_writes r [?w])"
    unfolding off using uk lt Suc.prems(5,6)
    by (subst store_ptr_inside) (auto simp: k' getOffsetAddr_def addr_of_def)
  have uk2: "unat (of_nat (k * line) :: u64) = k * line"
    using b by (intro unat_of_nat_64) simp
  have g: "(of_nat (k * line) :: u64) < mr_active_size r"
    unfolding word_less_nat_alt uk2 by (rule lt)
  have "stride_loop r (of_nat (k * line)) =
      (case store_ptr r (of_nat (k * line) - mr_line_size r) (getOffsetAddr r (of_nat (k * line))) of
         Inl e \<Rightarrow> fail e
       | Inr r' \<Rightarrow> stride_loop r' (of_nat (k * line) + mr_line_size r))"
    by (subst stride_loop.simps) (simp only: g if_True)
  also have "\<dots> = stride_loop (link_writes r [?w]) (of_nat (Suc k * line))"
    unfolding st nxt by (simp only: sum.case)
  also have "\<dots> = ret (link_writes (link_writes r [?w])
      (map (\<lambda>j. (j * line, addr_of (mr_addr1 r) (Suc j * line))) [Suc k - 1..<n - 1]),
      of_nat (n * line))"
    using Suc.hyps(1) [of "Suc k" "link_writes r [?w]"] Suc.hyps(2) Suc.prems kn by simp
  also have "link_writes (link_writes r [?w])
      (map (\<lambda>j. (j * line, addr_of (mr_addr1 r) (Suc j * line))) [Suc k - 1..<n - 1])
    = link_writes r (map (\<lambda>j. (j * line, addr_of (mr_addr1 r) (Suc j * line))) [k - 1..<n - 1])"
    using kn by (simp add: k' upt_conv_Cons)
  finally show ?case .
qed

definition stride_lines :: "mem_region \<Rightarrow> nat" where
  "stride_lines r = (unat (mr_active_size r) + unat (mr_line_size r) - 1) div unat (mr_line_size r)"

lemma stride_lines_bounds:
  assumes "0 < unat (mr_active_size r)" and "0 < unat (mr_line_size r)"
  shows "1 \<le> stride_lines r"
    and "unat (mr_active_size r) \<le> stride_lines r * unat (mr_line_size r)"
    and "(stride_lines r - 1) * unat (mr_line_size r) < unat (mr_active_size r)"
    and "stride_lines r * unat (mr_line_size r) < unat (mr_active_size r) + unat (mr_line_size r)"
proof -
  let ?a = "unat (mr_active_size r)" and ?l = "unat (mr_line_size r)" and ?n = "stride_lines r"
  have e: "?n * ?l + (?a + ?l - 1) mod ?l = ?a + ?l - 1"
    unfolding stride_lines_def by (simp add: mult.commute)
  have m: "(?a + ?l - 1) mod ?l < ?l" using assms(2) by simp
  show "?a \<le> ?n * ?l" "?n * ?l < ?a + ?l" using e m assms by linarith+
  then show "1 \<le> ?n" using assms by (cases ?n) auto
  then obtain m where "?n = Suc m" by (cases ?n) auto
  then show "(?n - 1) * ?l < ?a"
    using \<open>?n * ?l < ?a + ?l\<close> by simp
qed

text \<open>All links but the last always fit; the last one is written by the final store.\<close>

lemma stride_init_last:
  assumes "0 < unat (mr_active_size r)" and "8 \<le> unat (mr_line_size r)"
    and "unat (mr_active_size r) \<le> unat (mr_size r)"
    and "unat (mr_active_size r) + unat (mr_line_size r) \<le> 2 ^ 64"
  defines "n \<equiv> stride_lines r" and "line \<equiv> unat (mr_line_size r)"
  defines "ws \<equiv> map (\<lambda>j. (j * line, addr_of (mr_addr1 r) (Suc j * line))) [0..<n - 1]"
  shows "stride_init r = Some (store_ptr (link_writes r ws) (of_nat ((n - 1) * line)) (mr_addr1 r))"
    and "unat (of_nat ((n - 1) * line) :: u64) = (n - 1) * line"
    and "ws @ [((n - 1) * line, mr_addr1 r)] = ring_links (addr_of (mr_addr1 r)) (line_grid n line)"
proof -
  have l0: "0 < unat (mr_line_size r)" using assms(2) by simp
  note bd = stride_lines_bounds [OF assms(1) l0, folded n_def line_def]
  have n64: "n * line < 2 ^ 64" using bd(4) assms(4) by (simp add: line_def)
  have "stride_loop r (of_nat (1 * line)) = ret (link_writes r ws, of_nat (n * line))"
    using stride_loop_eq [OF bd(2,3) line_def [THEN meta_eq_to_obj_eq] n64, of 1] bd(1) assms(2,3)
    by (simp add: ws_def line_def)
  then have lp: "stride_loop r (mr_line_size r) = ret (link_writes r ws, of_nat (n * line))"
    by (simp add: line_def)
  have off: "of_nat (n * line) - mr_line_size r = of_nat ((n - 1) * line)"
    using bd(1) by (simp add: line_def of_nat_diff algebra_simps)
  show "stride_init r = Some (store_ptr (link_writes r ws) (of_nat ((n - 1) * line)) (mr_addr1 r))"
    unfolding stride_init_def lp andthen_simps prod.case off by (simp add: getOffsetAddr_def)
  show "unat (of_nat ((n - 1) * line) :: u64) = (n - 1) * line"
    using bd(3) unat_lt_64 [of "mr_active_size r"] by (intro unat_of_nat_64) linarith
  have grid: "line_grid n line \<noteq> []" "hd (line_grid n line) = 0"
    using bd(1) by (auto simp: line_grid_def hd_map)
  show "ws @ [((n - 1) * line, mr_addr1 r)] = ring_links (addr_of (mr_addr1 r)) (line_grid n line)"
    unfolding ring_links_def ws_def using bd(1) grid
    by (subst links_to_conv_map) (auto simp: line_grid_def addr_of_def algebra_simps)
qed

lemma stride_init_eq:
  assumes "0 < unat (mr_active_size r)" and "8 \<le> unat (mr_line_size r)"
    and "unat (mr_active_size r) \<le> unat (mr_size r)"
    and "unat (mr_active_size r) + unat (mr_line_size r) \<le> 2 ^ 64"
  shows "stride_init r =
    (if (stride_lines r - 1) * unat (mr_line_size r) + 8 \<le> unat (mr_size r)
     then ret (link_writes r (ring_links (addr_of (mr_addr1 r))
       (line_grid (stride_lines r) (unat (mr_line_size r)))))
     else fail Out_Of_Bounds)"
proof -
  note st = stride_init_last [OF assms]
  show ?thesis
    unfolding st(1) store_ptr_def st(2) st(3) [symmetric] by (simp add: write_all_append)
qed

section \<open>Random within each page\<close>

lemma mset_concat_shift:
  assumes "mset ls = mset ls'"
  shows "mset (concat (map (\<lambda>p. map (f p) ls) ps)) = mset (concat (map (\<lambda>p. map (f p) ls') ps))"
  using assms by (induction ps) simp_all

lemma unat_page_offsets:
  assumes "\<forall>p \<in> set ps. \<forall>l \<in> set ls. unat p + unat l < 2 ^ 64"
  shows "map unat (page_offsets ps ls) =
    concat (map (\<lambda>p. map (\<lambda>l. p + l) (map unat ls)) (map unat ps))"
  using assms
proof (induction ps)
  case (Cons p ps)
  have "map unat (map ((+) p) ls) = map (\<lambda>l. unat p + l) (map unat ls)"
    using Cons.prems by (auto intro!: unat_add_64)
  with Cons show ?case by simp
qed simp

text \<open>
  The offsets \<open>page_random_init\<close> links, in the order it links them: the pages in
  order, and in each the shuffled line offsets \<open>lines\<close>.
\<close>

definition page_order :: "mem_region \<Rightarrow> nat list \<Rightarrow> nat list" where
  "page_order r lines = concat (map (\<lambda>p. map (\<lambda>l. p * unat (mr_page_size r) + l) lines)
     [0..<unat (mr_num_active_pages r)])"

lemma region_page_bounds:
  assumes "region_wf r"
  shows "unat (mr_num_active_pages r) * unat (mr_page_size r) \<le> unat (mr_active_size r)"
    and "unat (mr_num_lines_in_page r) * unat (mr_line_size r) \<le> unat (mr_page_size r)"
    and "unat (mr_active_size r) \<le> unat (mr_size r)"
  using assms by (simp_all add: region_wf_def unat_div word_le_nat_alt)

lemma page_random_init_eq:
  assumes "region_wf r" and "8 \<le> unat (mr_line_size r)"
    and "mr_line_size r \<le> mr_page_size r" and "mr_page_size r \<le> mr_active_size r"
    and "unat (mr_num_lines_in_page r) \<le> 4294967296"
  obtains lines k' where
    "page_random_init rs k r = ret (link_writes r
       (ring_links (addr_of (mr_addr1 r)) (page_order r lines)), k')"
    and "mset lines = mset (line_grid (unat (mr_num_lines_in_page r)) (unat (mr_line_size r)))"
    and "lines \<noteq> []" and "hd lines = 0" and "0 < unat (mr_num_active_pages r)"
proof -
  let ?np = "mr_num_active_pages r" and ?nl = "mr_num_lines_in_page r"
  let ?page = "mr_page_size r" and ?line = "mr_line_size r"
  note bd = region_page_bounds [OF assms(1)]
  have np0: "0 < unat ?np" and nl0: "0 < unat ?nl"
    using assms(1,3,4) by (auto simp: region_wf_def unat_div word_le_nat_alt div_greater_zero_iff unat_gt_0)
  let ?pages = "sequential ?np ?page"
  have ovl: "unat ?nl * unat ?line < 18446744073709551616"
    using bd(2) unat_lt_64 [of ?page] by linarith
  have ovp: "unat ?np * unat ?page < 18446744073709551616"
    using bd(1) unat_lt_64 [of "mr_active_size r"] by linarith
  have line0: "?line \<noteq> 0" using assms(2) by auto
  obtain ls k' where ls: "randomizeSequence rs k ?nl ?line False = ret (ls, k')"
    and ms: "mset ls = mset (sequential ?nl ?line)" and hd0: "hd ls = 0" and len: "length ls = unat ?nl"
    using randomizeSequence_perm [OF nl0 line0 ovl assms(5)] by metis
  have ls0: "ls \<noteq> []" using len nl0 by auto
  have grid: "mset (map unat ls) = mset (line_grid (unat ?nl) (unat ?line))"
    using ms unat_sequential [OF ovl] by (metis line_grid_def mset_map)
  have pg: "map unat ?pages = map (\<lambda>p. p * unat ?page) [0..<unat ?np]"
    by (rule unat_sequential [OF ovp])
  have cell: "unat p + unat l + 8 \<le> unat (mr_size r)"
    if "p \<in> set ?pages" "l \<in> set ls" for p l
  proof -
    from that(1) have "unat p \<in> set (map unat ?pages)" by simp
    then have "unat p \<in> set (line_grid (unat ?np) (unat ?page))" by (simp only: pg line_grid_def)
    then obtain i where i: "unat p = i * unat ?page" "i < unat ?np" by (rule in_line_gridE)
    from that(2) have "unat l \<in> set (line_grid (unat ?nl) (unat ?line))"
      using grid by (metis image_eqI list.set_map mset_eq_setD)
    then obtain j where j: "unat l = j * unat ?line" "j < unat ?nl" by (rule in_line_gridE)
    have "Suc j * unat ?line \<le> unat ?nl * unat ?line" using j by (intro mult_le_mono1) simp
    moreover have "Suc i * unat ?page \<le> unat ?np * unat ?page" using i by (intro mult_le_mono1) simp
    ultimately have "unat ?line + unat l \<le> unat ?nl * unat ?line"
      and "unat ?page + unat p \<le> unat ?np * unat ?page"
      unfolding mult_Suc i(1) j(1) by blast+
    then show ?thesis using bd assms(2) by linarith
  qed
  have small: "\<forall>p \<in> set ?pages. \<forall>l \<in> set ls. unat p + unat l < 2 ^ 64"
    using cell unat_lt_64 [of "mr_size r"] by fastforce
  have ord: "map unat (page_offsets ?pages ls) = page_order r (map unat ls)"
    unfolding unat_page_offsets [OF small] pg by (simp add: page_order_def comp_def)
  have ins: "inside r (page_offsets ?pages ls)"
    unfolding inside_def page_offsets_def using cell small by (auto simp: unat_add_64)
  have pages0: "?pages \<noteq> []" using np0 by (metis length_sequential less_numeral_extra(3) list.size(3))
  have "page_loop r ?pages ls ?np ?nl 0 = Inr (link_writes r
      (ring_links (addr_of (mr_addr1 r)) (page_order r (map unat ls))))"
  proof -
    have "page_order r (map unat ls) \<noteq> []"
      using pages0 ls0 by (metis map_is_Nil_conv ord page_offsets_eq_Nil)
    then have "addr_of (mr_addr1 r) (hd (page_order r (map unat ls))) =
        mr_addr1 r + (hd ?pages + hd ls)"
      by (metis addr_of_unat hd_map hd_page_offsets ls0 map_is_Nil_conv ord pages0)
    with page_loop_eq [of ?np ?pages ?nl ls r 0] len ls0 ins ord
    show ?thesis by (simp add: ring_links_def)
  qed
  then have "page_random_init rs k r = ret (link_writes r
      (ring_links (addr_of (mr_addr1 r)) (page_order r (map unat ls))), k')"
    by (simp add: page_random_init_def randomizeSequence_in_order ls)
  then show thesis
    using that grid ls0 hd0 np0 by (metis hd_map map_is_Nil_conv unat_0)
qed

lemma page_order_perm:
  assumes "mset lines = mset (line_grid (unat (mr_num_lines_in_page r)) (unat (mr_line_size r)))"
  shows "mset (page_order r lines) = mset (page_grid (unat (mr_num_active_pages r))
    (unat (mr_num_lines_in_page r)) (unat (mr_page_size r)) (unat (mr_line_size r)))"
  using mset_concat_shift [OF assms, of "\<lambda>p l. p * unat (mr_page_size r) + l"
      "[0..<unat (mr_num_active_pages r)]"]
  by (simp add: page_order_def page_grid_def line_grid_def comp_def)

lemma hd_page_order:
  "0 < unat (mr_num_active_pages r) \<Longrightarrow> lines \<noteq> [] \<Longrightarrow> hd lines = 0 \<Longrightarrow> hd (page_order r lines) = 0"
  by (cases lines) (simp_all add: page_order_def upt_conv_Cons)

lemma length_page_order [simp]:
  "length (page_order r lines) = unat (mr_num_active_pages r) * length lines"
  by (simp add: page_order_def length_concat comp_def sum_list_triv)

lemma nth_concat_blocks:
  assumes "k < n * length xs"
  shows "concat (map (\<lambda>p. map (f p) xs) [0..<n]) ! k = f (k div length xs) (xs ! (k mod length xs))"
  using assms
proof (induction n)
  case (Suc n)
  let ?c = "concat (map (\<lambda>p. map (f p) xs) [0..<n])"
  have len: "length ?c = n * length xs"
    by (simp add: length_concat comp_def sum_list_triv)
  show ?case
  proof (cases "k < n * length xs")
    case True
    with Suc.IH len show ?thesis by (simp add: nth_append)
  next
    case False
    define j where "j = k - n * length xs"
    have k: "k = n * length xs + j" and j: "j < length xs"
      using False Suc.prems by (simp_all add: j_def)
    moreover have "xs \<noteq> []" using j by auto
    ultimately have "k div length xs = n" "k mod length xs = j" by simp_all
    with k j len show ?thesis by (simp add: nth_append)
  qed
qed simp

lemma nth_page_order:
  assumes "k < unat (mr_num_active_pages r) * length lines"
  shows "page_order r lines ! k =
    (k div length lines) * unat (mr_page_size r) + lines ! (k mod length lines)"
  unfolding page_order_def using assms by (rule nth_concat_blocks)

section \<open>Random over the whole region\<close>

lemma all_random_init_eq:
  assumes "region_wf r" and "8 \<le> unat (mr_line_size r)"
    and "0 < unat (mr_num_active_pages r)" and "0 < unat (mr_num_lines_in_page r)"
    and "unat (mr_num_active_pages r) * unat (mr_num_lines_in_page r) \<le> 4294967296"
  obtains lines k' where
    "all_random_init rs k r = ret (link_writes r (ring_links (addr_of (mr_addr1 r)) lines), k')"
    and "mset lines = mset (line_grid
      (unat (mr_num_active_pages r) * unat (mr_num_lines_in_page r)) (unat (mr_line_size r)))"
    and "lines \<noteq> []" and "hd lines = 0"
proof -
  let ?np = "unat (mr_num_active_pages r)" and ?nl = "unat (mr_num_lines_in_page r)"
  let ?line = "mr_line_size r"
  note bd = region_page_bounds [OF assms(1)]
  let ?n = "numActiveLines r"
  have n: "unat ?n = ?np * ?nl"
    unfolding numActiveLines_def using assms(5) by (intro unat_mult_64) simp
  have "?np * (?nl * unat ?line) \<le> ?np * unat (mr_page_size r)"
    using bd(2) by (rule mult_le_mono2)
  then have cover: "unat ?n * unat ?line \<le> unat (mr_size r)"
    unfolding n mult.assoc using bd(1,3) by linarith
  then have ov: "unat ?n * unat ?line < 18446744073709551616"
    using unat_lt_64 [of "mr_size r"] by linarith
  have n0: "0 < unat ?n" using assms(3,4) n by simp
  have line0: "?line \<noteq> 0" using assms(2) by auto
  have n32: "unat ?n \<le> 4294967296" using n assms(5) by simp
  obtain ls k' where ls: "randomizeSequence rs k ?n ?line False = ret (ls, k')"
    and ms: "mset ls = mset (sequential ?n ?line)" and hd0: "hd ls = 0" and len: "length ls = unat ?n"
    using randomizeSequence_perm [OF n0 line0 ov n32] by metis
  have ls0: "ls \<noteq> []" using len n0 by auto
  have grid: "mset (map unat ls) = mset (line_grid (unat ?n) (unat ?line))"
    using ms unat_sequential [OF ov] by (metis line_grid_def mset_map)
  have ins: "inside r ls"
    unfolding inside_def
  proof
    fix l assume "l \<in> set ls"
    then have "unat l \<in> set (line_grid (unat ?n) (unat ?line))"
      using grid by (metis image_eqI list.set_map mset_eq_setD)
    then obtain j where j: "unat l = j * unat ?line" "j < unat ?n" by (rule in_line_gridE)
    have "Suc j * unat ?line \<le> unat ?n * unat ?line" using j by (intro mult_le_mono1) simp
    then have "unat ?line + unat l \<le> unat ?n * unat ?line" unfolding mult_Suc j(1) .
    then show "unat l + 8 \<le> unat (mr_size r)" using cover assms(2) by linarith
  qed
  have nm1: "unat (?n - 1) = length ls - 1"
    using n0 len by (subst unat_sub_64) (auto simp: word_le_nat_alt)
  have len64: "length ls < 18446744073709551616" using len unat_lt_64 [of ?n] by simp
  obtain r1 where r1: "line_loop r ls (?n - 1) 0 = Inr r1"
    using line_loop_chain(2) [OF ls0 len64 ins nm1] by blast
  have "link_at r1 (Inr (last ls)) (Inr (hd ls)) = Inr (link_writes r
      (links_to (addr_of (mr_addr1 r)) (map unat ls) (mr_addr1 r + hd ls)))"
    by (rule line_loop_chain(1) [OF ls0 len64 ins nm1 r1])
  moreover have "vec_at ls (?n - 1) = Inr (last ls)" "vec_at ls 0 = Inr (hd ls)"
    using ls0 nm1 by (simp_all add: vec_at_def last_conv_nth hd_conv_nth)
  ultimately have "all_random_init rs k r = ret (link_writes r
      (ring_links (addr_of (mr_addr1 r)) (map unat ls)), k')"
    using ls r1 ls0 by (simp add: all_random_init_def ring_links_def hd_map)
  then show thesis
    using that grid ls0 hd0 n by (metis hd_map map_is_Nil_conv unat_0)
qed

section \<open>Construction\<close>

lemma MemRegion_ok:
  assumes "MemRegion env sz active page line mt ht = Inr r" and "active \<le> sz"
  shows "region_wf r"
  using assms unfolding MemRegion_def Let_def region_wf_def
  by (auto split: if_splits sum.splits)

lemma MemRegion_fields:
  assumes "MemRegion env sz active page line mt ht = Inr r"
  shows "mr_size r = sz" "mr_active_size r = active" "mr_line_size r = line"
    "mr_page_size r = (if page > active then 4096 else page)"
    "mr_mem_type r = mt" "mr_hugepage_type r = ht" "mr_bytes r = (\<lambda>_. 0)"
  using assms unfolding MemRegion_def Let_def
  by (auto split: if_splits sum.splits)

lemma MemRegion_div_by_zero_iff:
  "MemRegion env sz active page line mt ht = Inl Div_By_Zero \<longleftrightarrow> page = 0 \<or> line = 0"
  unfolding MemRegion_def Let_def allocNative_def set_placement_def shift_one_def
  by (auto split: if_splits sum.splits simp: Let_def)

lemma hugepage_real_size_spec:
  assumes "log2 < 64" and "unat sz + 2 ^ log2 \<le> 2 ^ 64"
  shows "2 ^ log2 dvd unat (hugepage_real_size sz log2)"
    and "unat sz \<le> unat (hugepage_real_size sz log2)"
    and "unat (hugepage_real_size sz log2) < unat sz + 2 ^ log2"
proof -
  let ?h = "2 ^ log2 :: nat"
  let ?p = "if unat sz mod ?h > 0 then 1 else 0 :: nat"
  have h0: "0 < ?h" by simp
  have h64: "?h < 2 ^ 64" by (rule power_strict_increasing) (use assms(1) in simp_all)
  have one: "unat (push_bit log2 1 :: u64) = ?h"
    using h64 by (subst unat_push_bit_64) simp_all
  have up: "unat sz \<le> (unat sz div ?h + ?p) * ?h" "(unat sz div ?h + ?p) * ?h < unat sz + ?h"
    by (rule round_up_bounds [OF h0])+
  have val: "unat (hugepage_real_size sz log2) = (unat sz div ?h + ?p) * ?h"
  proof -
    have pad: "(if sz mod push_bit log2 1 > 0 then 1 else 0 :: u64) = of_nat ?p"
      using one by (simp add: word_less_nat_alt unat_mod)
    define w where "w = drop_bit log2 sz + of_nat ?p"
    have "unat sz div ?h + ?p \<le> (unat sz div ?h + ?p) * ?h" using h0 by simp
    then have "unat sz div ?h + ?p < 2 ^ 64" using up(2) assms(2) by linarith
    then have w: "unat w = unat sz div ?h + ?p"
      unfolding w_def by (subst unat_add_64) (auto simp: unat_drop_bit_64 split: if_splits)
    have "unat (push_bit log2 w) = unat w * ?h"
      by (rule unat_push_bit_64, unfold w) (rule order_less_le_trans [OF up(2)], use assms(2) in simp)
    then show ?thesis
      unfolding hugepage_real_size_def Let_def pad w_def [symmetric] w .
  qed
  show "?h dvd unat (hugepage_real_size sz log2)"
    "unat sz \<le> unat (hugepage_real_size sz log2)"
    "unat (hugepage_real_size sz log2) < unat sz + ?h"
    unfolding val using up by simp_all
qed

end
