(* ===== verification/Kernels.thy ===== *)
theory Kernels
  imports Region_Init Floating
begin

text \<open>
  The measurement kernels, \<open>src/cpu_micro/kernels_common.h\<close>, \<open>kernels_latency.h\<close>,
  \<open>kernels_bandwidth.h\<close> and \<open>kernels_memcpy.h\<close>, and \<open>get_write_fraction\<close> of
  \<open>worker_common.cc\<close>. A kernel is straight-line code that the preprocessor unrolls, so
  it is the list of its statements; the repetition macros are functions on such lists.
\<close>

section \<open>Statements and the repetition macros\<close>

text \<open>
  \<open>Rd32\<close> and \<open>Wr32\<close> are the macros of the same name, \<open>Nop\<close> is \<open>asm("nop")\<close>,
  \<open>Chase\<close> is \<open>p = reinterpret_cast<uint64_t*>(*p)\<close> and \<open>Add\<close> is \<open>ret += *p\<close>.
\<close>

datatype stmt = Rd32 | Wr32 | Nop | Chase | Add

type_synonym kernel = "stmt list"

definition LP1 :: "kernel \<Rightarrow> kernel" where "LP1 x = x"
definition LP2 :: "kernel \<Rightarrow> kernel" where "LP2 x = x @ x"
definition LP3 :: "kernel \<Rightarrow> kernel" where "LP3 x = x @ x @ x"
definition LP4 :: "kernel \<Rightarrow> kernel" where "LP4 x = LP2 x @ LP2 x"
definition LP5 :: "kernel \<Rightarrow> kernel" where "LP5 x = LP3 x @ LP2 x"
definition LP6 :: "kernel \<Rightarrow> kernel" where "LP6 x = LP4 x @ LP2 x"
definition LP8 :: "kernel \<Rightarrow> kernel" where "LP8 x = LP4 x @ LP4 x"
definition LP16 :: "kernel \<Rightarrow> kernel" where "LP16 x = LP8 x @ LP8 x"
definition LP32 :: "kernel \<Rightarrow> kernel" where "LP32 x = LP16 x @ LP16 x"
definition LP42 :: "kernel \<Rightarrow> kernel" where "LP42 x = LP32 x @ LP8 x @ LP2 x"
definition LP64 :: "kernel \<Rightarrow> kernel" where "LP64 x = LP32 x @ LP32 x"
definition LP128 :: "kernel \<Rightarrow> kernel" where "LP128 x = LP64 x @ LP64 x"
definition LP256 :: "kernel \<Rightarrow> kernel" where "LP256 x = LP128 x @ LP128 x"

lemmas lp_defs = LP1_def LP2_def LP3_def LP4_def LP5_def LP6_def LP8_def LP16_def LP32_def
  LP42_def LP64_def LP128_def LP256_def

definition MN1 :: kernel where "MN1 = [Nop]"
definition MN2 :: kernel where "MN2 = MN1 @ MN1"
definition MN4 :: kernel where "MN4 = MN2 @ MN2"
definition MN8 :: kernel where "MN8 = MN4 @ MN4"
definition MN16 :: kernel where "MN16 = MN8 @ MN8"
definition MN32 :: kernel where "MN32 = MN16 @ MN16"
definition MN48 :: kernel where "MN48 = MN16 @ MN32"
definition MN64 :: kernel where "MN64 = MN32 @ MN32"
definition MN80 :: kernel where "MN80 = MN32 @ MN48"
definition MN88 :: kernel where "MN88 = MN32 @ MN48 @ MN8"
definition MN96 :: kernel where "MN96 = MN32 @ MN64"
definition MN104 :: kernel where "MN104 = MN64 @ MN48 @ MN8"
definition MN112 :: kernel where "MN112 = MN64 @ MN48"
definition MN128 :: kernel where "MN128 = MN64 @ MN64"
definition MN160 :: kernel where "MN160 = MN64 @ MN96"
definition MN192 :: kernel where "MN192 = MN64 @ MN128"
definition MN224 :: kernel where "MN224 = MN64 @ MN160"
definition MN256 :: kernel where "MN256 = MN128 @ MN128"
definition MN320 :: kernel where "MN320 = MN128 @ MN192"
definition MN384 :: kernel where "MN384 = MN128 @ MN256"
definition MN448 :: kernel where "MN448 = MN256 @ MN192"
definition MN512 :: kernel where "MN512 = MN256 @ MN256"
definition MN640 :: kernel where "MN640 = MN256 @ MN384"
definition MN768 :: kernel where "MN768 = MN256 @ MN512"
definition MN1024 :: kernel where "MN1024 = MN512 @ MN512"
definition MN1536 :: kernel where "MN1536 = MN512 @ MN1024"
definition MN2048 :: kernel where "MN2048 = MN1024 @ MN1024"

lemmas mn_defs = MN1_def MN2_def MN4_def MN8_def MN16_def MN32_def MN48_def MN64_def MN80_def
  MN88_def MN96_def MN104_def MN112_def MN128_def MN160_def MN192_def MN224_def MN256_def
  MN320_def MN384_def MN448_def MN512_def MN640_def MN768_def MN1024_def MN1536_def MN2048_def

section \<open>The kernels\<close>

definition kernel_lat :: kernel where
  "kernel_lat = LP256 [Chase] @ [Add]"

definition kernel_bw_r1w0_sequential :: kernel where
  "kernel_bw_r1w0_sequential = LP256 [Rd32]"

definition kernel_bw_r1w1_sequential :: kernel where
  "kernel_bw_r1w1_sequential = LP128 [Rd32, Wr32]"

definition kernel_bw_r2w1_sequential :: kernel where
  "kernel_bw_r2w1_sequential = LP32 (LP4 [Rd32] @ LP2 [Rd32, Wr32])"

definition kernel_bw_r3w1_sequential :: kernel where
  "kernel_bw_r3w1_sequential = LP42 (LP5 [Rd32] @ [Wr32]) @ LP3 [Rd32] @ LP1 [Wr32]"

definition get_kernels_with_wrmix :: "u32 \<Rightarrow> (u32 \<times> kernel) list" where
  "get_kernels_with_wrmix read_write_mix =
     (if read_write_mix = 0 then [(0, kernel_bw_r1w0_sequential)]
      else if read_write_mix = 1 then [(1, kernel_bw_r1w1_sequential)]
      else if read_write_mix = 2 then [(2, kernel_bw_r2w1_sequential)]
      else if read_write_mix = 3 then [(3, kernel_bw_r3w1_sequential)]
      else if read_write_mix = 100 then
        [(0, kernel_bw_r1w0_sequential), (3, kernel_bw_r3w1_sequential),
         (2, kernel_bw_r2w1_sequential), (1, kernel_bw_r1w1_sequential)]
      else [(0, kernel_bw_r1w0_sequential)])"

definition get_write_fraction :: "u32 \<Rightarrow> rat" where
  "get_write_fraction read_write_mix =
     single (if read_write_mix = 1 then 1 else if read_write_mix = 2 then 1 / 2
             else if read_write_mix = 3 then 3333 / 10000 else 0)"

section \<open>Running a kernel\<close>

text \<open>The 8 bytes at an address: a fault unless they lie inside the region.\<close>

definition load_at :: "mem_region \<Rightarrow> u64 \<Rightarrow> fault + u64" where
  "load_at r p =
     (let a = off_of (mr_addr1 r) p in
      if a + 8 \<le> unat (mr_size r) then Inr (read64 (mr_bytes r) a) else Inl Out_Of_Bounds)"

definition store_at :: "mem_region \<Rightarrow> u64 \<Rightarrow> u64 \<Rightarrow> fault + mem_region" where
  "store_at r p v = store_ptr r (p - mr_addr1 r) v"

text \<open>The variables \<open>ret\<close> and \<open>p\<close> of a kernel, which its caller owns.\<close>

type_synonym kernel_state = "mem_region \<times> u64 \<times> u64"

definition exec_stmt :: "stmt \<Rightarrow> kernel_state \<Rightarrow> fault + kernel_state" where
  "exec_stmt x s =
     (case s of (r, acc, p) \<Rightarrow>
        (case x of
           Nop \<Rightarrow> Inr (r, acc, p)
         | Rd32 \<Rightarrow> map_sum id (\<lambda>v. (r, acc + v, p + 32)) (load_at r p)
         | Wr32 \<Rightarrow> map_sum id (\<lambda>r'. (r', acc, p + 32)) (store_at r p acc)
         | Chase \<Rightarrow> map_sum id (\<lambda>v. (r, acc, v)) (load_at r p)
         | Add \<Rightarrow> map_sum id (\<lambda>v. (r, acc + v, p)) (load_at r p)))"

fun exec_kernel :: "kernel \<Rightarrow> kernel_state \<Rightarrow> fault + kernel_state" where
  "exec_kernel [] s = Inr s"
| "exec_kernel (x # xs) s =
     (case exec_stmt x s of Inl e \<Rightarrow> Inl e | Inr s' \<Rightarrow> exec_kernel xs s')"

lemma exec_kernel_append:
  "exec_kernel (xs @ ys) s =
     (case exec_kernel xs s of Inl e \<Rightarrow> Inl e | Inr s' \<Rightarrow> exec_kernel ys s')"
  by (induction xs arbitrary: s) (auto split: sum.split)

text \<open>\<open>glibc_memcpy\<close> between two regions: both ranges must lie inside their region.\<close>

definition glibc_memcpy :: "mem_region \<Rightarrow> nat \<Rightarrow> mem_region \<Rightarrow> nat \<Rightarrow> nat \<Rightarrow> fault + mem_region" where
  "glibc_memcpy dest d src s n =
     (if d + n \<le> unat (mr_size dest) \<and> s + n \<le> unat (mr_size src)
      then Inr (dest\<lparr>mr_bytes := (\<lambda>k. if d \<le> k \<and> k < d + n
                                     then mr_bytes src (s + (k - d)) else mr_bytes dest k)\<rparr>)
      else Inl Out_Of_Bounds)"

section \<open>Accesses and nops\<close>

text \<open>The memory accesses of a kernel, and the number of its nops.\<close>

definition accesses :: "kernel \<Rightarrow> kernel" where
  "accesses k = filter (\<lambda>x. x \<noteq> Nop) k"

definition nops :: "kernel \<Rightarrow> nat" where
  "nops k = count_list k Nop"

lemma accesses_append [simp]: "accesses (xs @ ys) = accesses xs @ accesses ys"
  by (simp add: accesses_def)

lemma accesses_simps [simp]:
  "accesses [] = []" "accesses (Nop # xs) = accesses xs"
  "x \<noteq> Nop \<Longrightarrow> accesses (x # xs) = x # accesses xs"
  by (simp_all add: accesses_def)

lemma nops_append [simp]: "nops (xs @ ys) = nops xs + nops ys"
  by (simp add: nops_def)

lemma nops_simps [simp]:
  "nops [] = 0" "nops (Nop # xs) = Suc (nops xs)" "x \<noteq> Nop \<Longrightarrow> nops (x # xs) = nops xs"
  by (simp_all add: nops_def)

lemma accesses_LP1 [simp]: "accesses (LP1 x) = LP1 (accesses x)" by (simp add: LP1_def)
lemma accesses_LP2 [simp]: "accesses (LP2 x) = LP2 (accesses x)" by (simp add: LP2_def)
lemma accesses_LP3 [simp]: "accesses (LP3 x) = LP3 (accesses x)" by (simp add: LP3_def)
lemma accesses_LP4 [simp]: "accesses (LP4 x) = LP4 (accesses x)" by (simp add: LP4_def)
lemma accesses_LP5 [simp]: "accesses (LP5 x) = LP5 (accesses x)" by (simp add: LP5_def)
lemma accesses_LP6 [simp]: "accesses (LP6 x) = LP6 (accesses x)" by (simp add: LP6_def)
lemma accesses_LP8 [simp]: "accesses (LP8 x) = LP8 (accesses x)" by (simp add: LP8_def)
lemma accesses_LP16 [simp]: "accesses (LP16 x) = LP16 (accesses x)" by (simp add: LP16_def)
lemma accesses_LP32 [simp]: "accesses (LP32 x) = LP32 (accesses x)" by (simp add: LP32_def)
lemma accesses_LP42 [simp]: "accesses (LP42 x) = LP42 (accesses x)" by (simp add: LP42_def)
lemma accesses_LP64 [simp]: "accesses (LP64 x) = LP64 (accesses x)" by (simp add: LP64_def)
lemma accesses_LP128 [simp]: "accesses (LP128 x) = LP128 (accesses x)" by (simp add: LP128_def)
lemma accesses_LP256 [simp]: "accesses (LP256 x) = LP256 (accesses x)" by (simp add: LP256_def)

lemma lp_Nil [simp]:
  "LP1 [] = []" "LP2 [] = []" "LP3 [] = []" "LP4 [] = []" "LP5 [] = []" "LP6 [] = []" "LP8 [] = []"
  by (simp_all add: lp_defs)

lemma nops_LP1 [simp]: "nops (LP1 x) = nops x" by (simp add: LP1_def)
lemma nops_LP2 [simp]: "nops (LP2 x) = 2 * nops x" by (simp add: LP2_def)
lemma nops_LP3 [simp]: "nops (LP3 x) = 3 * nops x" by (simp add: LP3_def)
lemma nops_LP4 [simp]: "nops (LP4 x) = 4 * nops x" by (simp add: LP4_def)
lemma nops_LP5 [simp]: "nops (LP5 x) = 5 * nops x" by (simp add: LP5_def)
lemma nops_LP6 [simp]: "nops (LP6 x) = 6 * nops x" by (simp add: LP6_def)
lemma nops_LP8 [simp]: "nops (LP8 x) = 8 * nops x" by (simp add: LP8_def)
lemma nops_LP16 [simp]: "nops (LP16 x) = 16 * nops x" by (simp add: LP16_def)
lemma nops_LP32 [simp]: "nops (LP32 x) = 32 * nops x" by (simp add: LP32_def)
lemma nops_LP42 [simp]: "nops (LP42 x) = 42 * nops x" by (simp add: LP42_def)
lemma nops_LP64 [simp]: "nops (LP64 x) = 64 * nops x" by (simp add: LP64_def)
lemma nops_LP128 [simp]: "nops (LP128 x) = 128 * nops x" by (simp add: LP128_def)
lemma nops_LP256 [simp]: "nops (LP256 x) = 256 * nops x" by (simp add: LP256_def)

lemma accesses_MN1 [simp]: "accesses MN1 = []" by (simp add: MN1_def)
lemma accesses_MN2 [simp]: "accesses MN2 = []" by (simp add: MN2_def)
lemma accesses_MN4 [simp]: "accesses MN4 = []" by (simp add: MN4_def)
lemma accesses_MN8 [simp]: "accesses MN8 = []" by (simp add: MN8_def)
lemma accesses_MN16 [simp]: "accesses MN16 = []" by (simp add: MN16_def)
lemma accesses_MN32 [simp]: "accesses MN32 = []" by (simp add: MN32_def)
lemma accesses_MN48 [simp]: "accesses MN48 = []" by (simp add: MN48_def)
lemma accesses_MN64 [simp]: "accesses MN64 = []" by (simp add: MN64_def)
lemma accesses_MN80 [simp]: "accesses MN80 = []" by (simp add: MN80_def)
lemma accesses_MN88 [simp]: "accesses MN88 = []" by (simp add: MN88_def)
lemma accesses_MN96 [simp]: "accesses MN96 = []" by (simp add: MN96_def)
lemma accesses_MN104 [simp]: "accesses MN104 = []" by (simp add: MN104_def)
lemma accesses_MN112 [simp]: "accesses MN112 = []" by (simp add: MN112_def)
lemma accesses_MN128 [simp]: "accesses MN128 = []" by (simp add: MN128_def)
lemma accesses_MN160 [simp]: "accesses MN160 = []" by (simp add: MN160_def)
lemma accesses_MN192 [simp]: "accesses MN192 = []" by (simp add: MN192_def)
lemma accesses_MN224 [simp]: "accesses MN224 = []" by (simp add: MN224_def)
lemma accesses_MN256 [simp]: "accesses MN256 = []" by (simp add: MN256_def)
lemma accesses_MN320 [simp]: "accesses MN320 = []" by (simp add: MN320_def)
lemma accesses_MN384 [simp]: "accesses MN384 = []" by (simp add: MN384_def)
lemma accesses_MN448 [simp]: "accesses MN448 = []" by (simp add: MN448_def)
lemma accesses_MN512 [simp]: "accesses MN512 = []" by (simp add: MN512_def)
lemma accesses_MN640 [simp]: "accesses MN640 = []" by (simp add: MN640_def)
lemma accesses_MN768 [simp]: "accesses MN768 = []" by (simp add: MN768_def)
lemma accesses_MN1024 [simp]: "accesses MN1024 = []" by (simp add: MN1024_def)
lemma accesses_MN1536 [simp]: "accesses MN1536 = []" by (simp add: MN1536_def)
lemma accesses_MN2048 [simp]: "accesses MN2048 = []" by (simp add: MN2048_def)

text \<open>\<open>MN104\<close> is 120 nops: its definition adds up 64, 48 and 8.\<close>

lemma nops_MN1 [simp]: "nops MN1 = 1" by (simp add: MN1_def)
lemma nops_MN2 [simp]: "nops MN2 = 2" by (simp add: MN2_def)
lemma nops_MN4 [simp]: "nops MN4 = 4" by (simp add: MN4_def)
lemma nops_MN8 [simp]: "nops MN8 = 8" by (simp add: MN8_def)
lemma nops_MN16 [simp]: "nops MN16 = 16" by (simp add: MN16_def)
lemma nops_MN32 [simp]: "nops MN32 = 32" by (simp add: MN32_def)
lemma nops_MN48 [simp]: "nops MN48 = 48" by (simp add: MN48_def)
lemma nops_MN64 [simp]: "nops MN64 = 64" by (simp add: MN64_def)
lemma nops_MN80 [simp]: "nops MN80 = 80" by (simp add: MN80_def)
lemma nops_MN88 [simp]: "nops MN88 = 88" by (simp add: MN88_def)
lemma nops_MN96 [simp]: "nops MN96 = 96" by (simp add: MN96_def)
lemma nops_MN104 [simp]: "nops MN104 = 120" by (simp add: MN104_def)
lemma nops_MN112 [simp]: "nops MN112 = 112" by (simp add: MN112_def)
lemma nops_MN128 [simp]: "nops MN128 = 128" by (simp add: MN128_def)
lemma nops_MN160 [simp]: "nops MN160 = 160" by (simp add: MN160_def)
lemma nops_MN192 [simp]: "nops MN192 = 192" by (simp add: MN192_def)
lemma nops_MN224 [simp]: "nops MN224 = 224" by (simp add: MN224_def)
lemma nops_MN256 [simp]: "nops MN256 = 256" by (simp add: MN256_def)
lemma nops_MN320 [simp]: "nops MN320 = 320" by (simp add: MN320_def)
lemma nops_MN384 [simp]: "nops MN384 = 384" by (simp add: MN384_def)
lemma nops_MN448 [simp]: "nops MN448 = 448" by (simp add: MN448_def)
lemma nops_MN512 [simp]: "nops MN512 = 512" by (simp add: MN512_def)
lemma nops_MN640 [simp]: "nops MN640 = 640" by (simp add: MN640_def)
lemma nops_MN768 [simp]: "nops MN768 = 768" by (simp add: MN768_def)
lemma nops_MN1024 [simp]: "nops MN1024 = 1024" by (simp add: MN1024_def)
lemma nops_MN1536 [simp]: "nops MN1536 = 1536" by (simp add: MN1536_def)
lemma nops_MN2048 [simp]: "nops MN2048 = 2048" by (simp add: MN2048_def)

text \<open>Nops do not change what a kernel does.\<close>

lemma exec_accesses: "exec_kernel (accesses k) s = exec_kernel k s"
proof (induction k arbitrary: s)
  case (Cons x xs)
  then show ?case
    by (cases x; cases s) (auto simp: accesses_def exec_stmt_def split: sum.split)
qed simp

end
