(* ===== verification/Workers.thy ===== *)
theory Workers
  imports Loop_Correct Kernels Configuration
begin

text \<open>
  The memory workers: \<open>src/cpu_micro/worker_thread_packet.h\<close>, \<open>worker_latency.h\<close>,
  \<open>worker_bandwidth.h\<close> and \<open>worker_memcpy.h\<close>. A routine maps the thread's packet to the
  packet it leaves behind. Each thread has its own environment: the operating system, the
  values \<open>rand()\<close> returns to it, and what it reads from the clock. The warnings the workers
  print to the standard error stream when a measurement overruns are in \<open>Worker_Warnings\<close>.
\<close>

section \<open>Packets\<close>

record cpu_micro_packet = base_packet +
  pk_target_duration :: u32
  pk_exec_time :: rat

type_synonym memcpy_fun = "mem_region \<Rightarrow> nat \<Rightarrow> mem_region \<Rightarrow> nat \<Rightarrow> nat \<Rightarrow> fault + mem_region"

record mem_packet = cpu_micro_packet +
  pk_mem_region :: "mem_region option"
  pk_region_size_kb :: u64
  pk_access_pattern :: u32
  pk_chunk_size_kb :: u32
  pk_stride_size_b :: u32
  pk_use_hugepage :: u32
  pk_mem_type :: i32
  pk_kernel_lat :: "kernel option"
  pk_ref_latency_ps :: u32
  pk_kernel_bw :: "kernel option"
  pk_read_write_mix :: u32
  pk_ref_total_bw_gbps :: u32
  pk_num_total_threads :: u32
  pk_src_mem_region :: "mem_region option"
  pk_kernel_memcpy :: "memcpy_fun option"
  pk_fragment_size :: u64
  pk_ref_one_exec_time_ns :: u64
  pk_finished_chases :: u64
  pk_finished_bytes :: u64

definition MemLatBwThreadPacket :: mem_packet where
  "MemLatBwThreadPacket =
     \<lparr>bp_num_threads = 0, bp_thread_id = 0, pk_target_duration = 0, pk_exec_time = 0,
      pk_mem_region = None, pk_region_size_kb = 0, pk_access_pattern = 0, pk_chunk_size_kb = 0,
      pk_stride_size_b = 0, pk_use_hugepage = 0, pk_mem_type = 0, pk_kernel_lat = None,
      pk_ref_latency_ps = 0, pk_kernel_bw = None, pk_read_write_mix = 0, pk_ref_total_bw_gbps = 0,
      pk_num_total_threads = 0, pk_src_mem_region = None, pk_kernel_memcpy = None,
      pk_fragment_size = 0, pk_ref_one_exec_time_ns = 0, pk_finished_chases = 0,
      pk_finished_bytes = 0\<rparr>"

definition copy_mem_region_config :: "configuration \<Rightarrow> mem_packet \<Rightarrow> mem_packet" where
  "copy_mem_region_config config p =
     p\<lparr>pk_region_size_kb := cf_region_size_kb config,
       pk_access_pattern := cf_access_pattern config,
       pk_chunk_size_kb := cf_chunk_size_kb config,
       pk_stride_size_b := cf_stride_size_b config,
       pk_use_hugepage := cf_use_hugepage config\<rparr>"

record thread_env =
  te_alloc :: alloc_env
  te_rand :: rand_stream
  te_clock :: "nat \<Rightarrow> int"

section \<open>Allocating the regions\<close>

abbreviation lift_run :: "fault + 'a \<Rightarrow> 'a run" where
  "lift_run r \<equiv> Some r"

definition null_region :: fault where
  "null_region = Undefined_Behaviour ''null MemRegion''"

definition alloc_lat_region :: "thread_env \<Rightarrow> mem_packet \<Rightarrow> fault + mem_region" where
  "alloc_lat_region te p =
     MemRegion (te_alloc te) (pk_region_size_kb p * 1024) (pk_region_size_kb p * 1024)
       (ucast (pk_chunk_size_kb p * 1024)) (ucast (pk_stride_size_b p))
       (mem_type_of (pk_mem_type p)) (hugepage_type_of (pk_use_hugepage p))"

definition init_region :: "thread_env \<Rightarrow> u32 \<Rightarrow> mem_region \<Rightarrow> mem_region run" where
  "init_region te access_pattern r =
     (if access_pattern = 0 then stride_init r
      else if access_pattern = 1 then andthen (page_random_init (te_rand te) 0 r) (\<lambda>(r', k). ret r')
      else if access_pattern = 2 then andthen (all_random_init (te_rand te) 0 r) (\<lambda>(r', k). ret r')
      else andthen (page_random_init (te_rand te) 0 r) (\<lambda>(r', k). ret r'))"

definition mem_region_alloc_lat :: "thread_env \<Rightarrow> mem_packet \<Rightarrow> mem_packet run" where
  "mem_region_alloc_lat te p =
     andthen (lift_run (alloc_lat_region te p))
       (\<lambda>r. andthen (init_region te (pk_access_pattern p) r)
         (\<lambda>r'. ret (p\<lparr>pk_mem_region := Some r'\<rparr>)))"

definition mem_region_alloc_bw :: "thread_env \<Rightarrow> mem_packet \<Rightarrow> mem_packet run" where
  "mem_region_alloc_bw te p =
     andthen (lift_run (MemRegion (te_alloc te) (pk_region_size_kb p * 1024)
         (pk_region_size_kb p * 1024) 4096 64 (mem_type_of (pk_mem_type p)) NONE))
       (\<lambda>r. ret (p\<lparr>pk_mem_region := Some r\<rparr>))"

definition mem_region_alloc_memcpy :: "thread_env \<Rightarrow> mem_packet \<Rightarrow> mem_packet run" where
  "mem_region_alloc_memcpy te p =
     (let region = MemRegion (te_alloc te) (pk_region_size_kb p * 1024)
         (pk_region_size_kb p * 1024) 4096 64 NATIVE NONE
      in andthen (lift_run region)
        (\<lambda>dst. andthen (lift_run region)
          (\<lambda>src. ret (p\<lparr>pk_mem_region := Some dst, pk_src_mem_region := Some src\<rparr>))))"

section \<open>Latency\<close>

definition call_kernel :: "kernel option \<Rightarrow> kernel_state \<Rightarrow> fault + kernel_state" where
  "call_kernel k s =
     (case k of None \<Rightarrow> Inl (Uncaught_Exception ''std::bad_function_call'')
              | Some k \<Rightarrow> exec_kernel k s)"

text \<open>\<open>p = start\<close>\<close>

definition rewind :: "kernel_state \<Rightarrow> kernel_state" where
  "rewind s = (case s of (r, acc, p) \<Rightarrow> (r, acc, getStartPoint r))"

definition target_duration_ns :: "mem_packet \<Rightarrow> int" where
  "target_duration_ns p = uint (pk_target_duration p) * 1000000000"

definition chkpt_chases :: "u32 \<Rightarrow> u64 \<Rightarrow> u64" where
  "chkpt_chases ref_latency_ps active_size =
     (if ref_latency_ps > 0 then push_bit 20 4 div ucast ref_latency_ps * 1000
      else if active_size > 32768 * 1024 then push_bit 20 4 div 128
      else if active_size > 2048 * 1024 then push_bit 20 4 div 32
      else if active_size > 32 * 1024 then push_bit 20 4 div 8
      else push_bit 20 4 div 2)"

definition lat_config :: "thread_env \<Rightarrow> mem_packet \<Rightarrow> mem_region \<Rightarrow> kernel_state loop_config" where
  "lat_config te p r =
     \<lparr>lc_unit = 256, lc_chkpt = chkpt_chases (pk_ref_latency_ps p) (mr_active_size r),
      lc_loop_count = mr_active_size r div (256 * mr_line_size r),
      lc_target_ns = target_duration_ns p, lc_clock = te_clock te,
      lc_kernel = (\<lambda>i. call_kernel (pk_kernel_lat p)), lc_restart = rewind\<rparr>"

definition lat_setup :: "thread_env \<Rightarrow> mem_packet \<Rightarrow> fault + (kernel_state loop_config \<times> kernel_state loop_state)" where
  "lat_setup te p =
     (case pk_mem_region p of
        None \<Rightarrow> Inl null_region
      | Some r \<Rightarrow>
          if 256 * mr_line_size r = 0 then Inl Div_By_Zero
          else let c = lat_config te p r in Inr (c, loop_start c (r, 0, 0)))"

definition lat_finish :: "kernel_state loop_state \<Rightarrow> mem_packet \<Rightarrow> mem_packet" where
  "lat_finish s p =
     p\<lparr>pk_mem_region := Some (fst (ls_body s)), pk_finished_chases := ls_finished s,
       pk_exec_time := getElapsedTime (ls_timer s)\<rparr>"

definition lat_ptr :: "thread_env \<Rightarrow> mem_packet \<Rightarrow> mem_packet run" where
  "lat_ptr te p =
     andthen (lift_run (lat_setup te p))
       (\<lambda>(c, s). andthen (run_loop c s) (\<lambda>s'. ret (lat_finish s' p)))"

section \<open>Bandwidth\<close>

definition per_core_bw_mbps :: "mem_packet \<Rightarrow> fault + u64" where
  "per_core_bw_mbps p =
     (if bp_num_threads p = 0 then Inl Div_By_Zero
      else Inr (ucast (if pk_ref_total_bw_gbps p > 0
                       then pk_ref_total_bw_gbps p * 1024 div bp_num_threads p
                       else 2 * 1024 * pk_num_total_threads p div bp_num_threads p)))"

definition chkpt_bytes :: "u64 \<Rightarrow> u64" where
  "chkpt_bytes mbps = mbps * 1024 * 1024 * 4 div 1000"

definition bw_config :: "thread_env \<Rightarrow> mem_packet \<Rightarrow> u64 \<Rightarrow> mem_region \<Rightarrow> kernel_state loop_config" where
  "bw_config te p mbps r =
     \<lparr>lc_unit = 256 * 32, lc_chkpt = chkpt_bytes mbps,
      lc_loop_count = mr_active_size r div (256 * 32),
      lc_target_ns = target_duration_ns p, lc_clock = te_clock te,
      lc_kernel = (\<lambda>i. call_kernel (pk_kernel_bw p)), lc_restart = rewind\<rparr>"

definition bw_setup :: "thread_env \<Rightarrow> mem_packet \<Rightarrow> fault + (kernel_state loop_config \<times> kernel_state loop_state)" where
  "bw_setup te p =
     (case per_core_bw_mbps p of
        Inl e \<Rightarrow> Inl e
      | Inr mbps \<Rightarrow>
          (case pk_mem_region p of
             None \<Rightarrow> Inl null_region
           | Some r \<Rightarrow> let c = bw_config te p mbps r in Inr (c, loop_start c (r, 0, 0))))"

text \<open>\<open>finished_bytes += finished_bytes * write_fraction\<close>, in \<open>float\<close>.\<close>

definition add_write_bytes :: "u64 \<Rightarrow> rat \<Rightarrow> fault + u64" where
  "add_write_bytes bytes write_fraction =
     (let f = single (of_nat (unat bytes))
      in map_sum id word_of_int (to_unsigned 64 (single (f + single (f * write_fraction)))))"

definition bw_finish :: "kernel_state loop_state \<Rightarrow> mem_packet \<Rightarrow> fault + mem_packet" where
  "bw_finish s p =
     map_sum id
       (\<lambda>bytes. p\<lparr>pk_mem_region := Some (fst (ls_body s)), pk_finished_bytes := bytes,
                  pk_exec_time := getElapsedTime (ls_timer s)\<rparr>)
       (add_write_bytes (ls_finished s) (get_write_fraction (pk_read_write_mix p)))"

definition bw_sequential :: "thread_env \<Rightarrow> mem_packet \<Rightarrow> mem_packet run" where
  "bw_sequential te p =
     andthen (lift_run (bw_setup te p))
       (\<lambda>(c, s). andthen (run_loop c s) (\<lambda>s'. lift_run (bw_finish s' p)))"

section \<open>Copying\<close>

definition chkpt_calls :: "u64 \<Rightarrow> u64" where
  "chkpt_calls ref_one_exec_time_ns =
     (if ref_one_exec_time_ns > 0 then max (5 * 1000000 div ref_one_exec_time_ns) 1 else 1)"

definition call_memcpy :: "memcpy_fun option \<Rightarrow> u64 \<Rightarrow> mem_region \<Rightarrow> u64 \<Rightarrow> mem_region \<Rightarrow> fault + mem_region" where
  "call_memcpy k fragment_size src i dst =
     (case k of
        None \<Rightarrow> Inl (Uncaught_Exception ''std::bad_function_call'')
      | Some f \<Rightarrow> f dst (unat (fragment_size * i)) src (unat (fragment_size * i)) (unat fragment_size))"

definition copy_config :: "thread_env \<Rightarrow> mem_packet \<Rightarrow> mem_region \<Rightarrow> mem_region \<Rightarrow> mem_region loop_config" where
  "copy_config te p dst src =
     \<lparr>lc_unit = 1, lc_chkpt = chkpt_calls (pk_ref_one_exec_time_ns p),
      lc_loop_count = mr_active_size dst div pk_fragment_size p,
      lc_target_ns = target_duration_ns p, lc_clock = te_clock te,
      lc_kernel = call_memcpy (pk_kernel_memcpy p) (pk_fragment_size p) src, lc_restart = id\<rparr>"

definition copy_setup :: "thread_env \<Rightarrow> mem_packet \<Rightarrow> fault + (mem_region loop_config \<times> mem_region loop_state)" where
  "copy_setup te p =
     (case pk_mem_region p of
        None \<Rightarrow> Inl null_region
      | Some dst \<Rightarrow>
          if pk_fragment_size p = 0 then Inl Div_By_Zero
          else (case pk_src_mem_region p of
                  None \<Rightarrow> Inl null_region
                | Some src \<Rightarrow> let c = copy_config te p dst src in Inr (c, loop_start c dst)))"

definition copy_finish :: "mem_region loop_state \<Rightarrow> mem_packet \<Rightarrow> mem_packet" where
  "copy_finish s p =
     p\<lparr>pk_mem_region := Some (ls_body s), pk_finished_bytes := ls_finished s * pk_fragment_size p,
       pk_exec_time := getElapsedTime (ls_timer s)\<rparr>"

definition copy_fragment :: "thread_env \<Rightarrow> mem_packet \<Rightarrow> mem_packet run" where
  "copy_fragment te p =
     andthen (lift_run (copy_setup te p))
       (\<lambda>(c, s). andthen (run_loop c s) (\<lambda>s'. ret (copy_finish s' p)))"

end
