(* ===== verification/Worker_Routines.thy ===== *)
theory Worker_Routines
  imports Workers
begin

text \<open>
  The routines the programs start threads with, in small steps for the schedule and as a
  whole, and the agreement of the two.
\<close>

datatype mem_routine =
  Alloc_Lat | Alloc_Bw | Alloc_Memcpy | Lat_Ptr | Bw_Sequential | Copy_Fragment

fun routine :: "mem_routine \<Rightarrow> thread_env \<Rightarrow> mem_packet \<Rightarrow> mem_packet run" where
  "routine Alloc_Lat = mem_region_alloc_lat"
| "routine Alloc_Bw = mem_region_alloc_bw"
| "routine Alloc_Memcpy = mem_region_alloc_memcpy"
| "routine Lat_Ptr = lat_ptr"
| "routine Bw_Sequential = bw_sequential"
| "routine Copy_Fragment = copy_fragment"

text \<open>
  The local state of a worker: not yet begun, or inside one of the three measurement loops.
\<close>

datatype worker_locals =
    Begin
  | In_Chase "kernel_state loop_config" "kernel_state loop_state"
  | In_Stream "kernel_state loop_config" "kernel_state loop_state"
  | In_Copy "mem_region loop_config" "mem_region loop_state"

text \<open>
  An allocation is one step, since no other thread sees its region; one that runs forever
  keeps its thread where it is.
\<close>

definition whole :: "mem_packet run \<Rightarrow> mem_packet \<Rightarrow> (worker_locals, mem_packet) outcome" where
  "whole m p =
     (case m of
        None \<Rightarrow> Continue Begin p
      | Some (Inl e) \<Rightarrow> Crash e
      | Some (Inr p') \<Rightarrow> Return p')"

definition enter :: "('a \<Rightarrow> worker_locals) \<Rightarrow> fault + 'a \<Rightarrow> mem_packet \<Rightarrow> (worker_locals, mem_packet) outcome" where
  "enter wrap m p = (case m of Inl e \<Rightarrow> Crash e | Inr x \<Rightarrow> Continue (wrap x) p)"

fun worker_step ::
    "(nat \<Rightarrow> thread_env) \<Rightarrow> nat \<Rightarrow> mem_routine \<Rightarrow> worker_locals \<Rightarrow> mem_packet \<Rightarrow> (worker_locals, mem_packet) outcome" where
  "worker_step te i Alloc_Lat Begin p = whole (mem_region_alloc_lat (te i) p) p"
| "worker_step te i Alloc_Bw Begin p = whole (mem_region_alloc_bw (te i) p) p"
| "worker_step te i Alloc_Memcpy Begin p = whole (mem_region_alloc_memcpy (te i) p) p"
| "worker_step te i Lat_Ptr Begin p = enter (case_prod In_Chase) (lat_setup (te i) p) p"
| "worker_step te i Bw_Sequential Begin p = enter (case_prod In_Stream) (bw_setup (te i) p) p"
| "worker_step te i Copy_Fragment Begin p = enter (case_prod In_Copy) (copy_setup (te i) p) p"
| "worker_step te i r (In_Chase c s) p = loop_outcome (In_Chase c) (\<lambda>s p. Inr (lat_finish s p)) c s p"
| "worker_step te i r (In_Stream c s) p = loop_outcome (In_Stream c) bw_finish c s p"
| "worker_step te i r (In_Copy c s) p = loop_outcome (In_Copy c) (\<lambda>s p. Inr (copy_finish s p)) c s p"

definition worker_start :: "nat \<Rightarrow> mem_routine \<Rightarrow> worker_locals" where
  "worker_start i r = Begin"

lemma run_steps_whole:
  assumes "nxt Begin p = whole m p"
  shows "run_steps nxt Begin p = m"
proof (cases m)
  case None
  then have "diverges (run_steps nxt Begin p)"
    using assms by (intro run_steps_diverges [where I = "\<lambda>l q. l = Begin \<and> q = p"]) (simp_all add: whole_def)
  with None show ?thesis by simp
next
  case (Some x)
  with assms show ?thesis by (cases x) (simp_all add: whole_def run_simps)
qed

lemma run_steps_enter:
  assumes "nxt Begin p = enter wrap m p"
  shows "run_steps nxt Begin p = andthen (lift_run m) (\<lambda>x. run_steps nxt (wrap x) p)"
  using assms by (cases m) (simp_all add: enter_def run_simps)

lemma worker_run: "run_steps (worker_step te i r) Begin p = routine r (te i) p"
proof (cases r)
  case Lat_Ptr
  have "run_steps (worker_step te i r) (In_Chase c s) p = andthen (run_loop c s) (\<lambda>s'. ret (lat_finish s' p))" for c s
    by (rule run_steps_loop) simp
  then show ?thesis
    using run_steps_enter [of "worker_step te i r" p "case_prod In_Chase" "lat_setup (te i) p"] Lat_Ptr
    by (simp add: lat_ptr_def case_prod_unfold)
next
  case Bw_Sequential
  have "run_steps (worker_step te i r) (In_Stream c s) p = andthen (run_loop c s) (\<lambda>s'. Some (bw_finish s' p))" for c s
    by (rule run_steps_loop) simp
  then show ?thesis
    using run_steps_enter [of "worker_step te i r" p "case_prod In_Stream" "bw_setup (te i) p"] Bw_Sequential
    by (simp add: bw_sequential_def case_prod_unfold)
next
  case Copy_Fragment
  have "run_steps (worker_step te i r) (In_Copy c s) p = andthen (run_loop c s) (\<lambda>s'. ret (copy_finish s' p))" for c s
    by (rule run_steps_loop) simp
  then show ?thesis
    using run_steps_enter [of "worker_step te i r" p "case_prod In_Copy" "copy_setup (te i) p"] Copy_Fragment
    by (simp add: copy_fragment_def case_prod_unfold)
qed (simp_all add: run_steps_whole)

end
