(* ===== verification/Delay_Kernels.thy ===== *)
theory Delay_Kernels
  imports Kernels
begin

text \<open>
  The load-generation kernels with delays, \<open>src/cpu_micro/kernels_delay_bandwidth/*.cc\<close>:
  one definition per function, named as in the source, and the table
  \<open>get_kernels_with_delays\<close> that pairs them with the delay each stands for.
\<close>

section \<open>The kernels\<close>

definition k_r1w0_s_n0 :: kernel where "k_r1w0_s_n0 = LP256 [Rd32]"
definition k_r1w0_s_n1 :: kernel where "k_r1w0_s_n1 = LP256 ([Rd32] @ MN1)"
definition k_r1w0_s_n2 :: kernel where "k_r1w0_s_n2 = LP256 ([Rd32] @ MN2)"
definition k_r1w0_s_n4 :: kernel where "k_r1w0_s_n4 = LP256 ([Rd32] @ MN4)"
definition k_r1w0_s_n8 :: kernel where "k_r1w0_s_n8 = LP256 ([Rd32] @ MN8)"
definition k_r1w0_s_n16 :: kernel where "k_r1w0_s_n16 = LP256 ([Rd32] @ MN16)"
definition k_r1w0_s_n32 :: kernel where "k_r1w0_s_n32 = LP256 ([Rd32] @ MN32)"
definition k_r1w0_s_n48 :: kernel where "k_r1w0_s_n48 = LP256 ([Rd32] @ MN48)"
definition k_r1w0_s_n64 :: kernel where "k_r1w0_s_n64 = LP256 ([Rd32] @ MN64)"
definition k_r1w0_s_n80 :: kernel where "k_r1w0_s_n80 = LP256 ([Rd32] @ MN80)"
definition k_r1w0_s_n88 :: kernel where "k_r1w0_s_n88 = LP256 ([Rd32] @ MN88)"
definition k_r1w0_s_n96 :: kernel where "k_r1w0_s_n96 = LP256 ([Rd32] @ MN96)"
definition k_r1w0_s_n104 :: kernel where "k_r1w0_s_n104 = LP256 ([Rd32] @ MN104)"
definition k_r1w0_s_n112 :: kernel where "k_r1w0_s_n112 = LP256 ([Rd32] @ MN112)"
definition k_r1w0_s_n128 :: kernel where "k_r1w0_s_n128 = LP256 ([Rd32] @ MN128)"
definition k_r1w0_s_n160 :: kernel where "k_r1w0_s_n160 = LP256 ([Rd32] @ MN160)"
definition k_r1w0_s_n192 :: kernel where "k_r1w0_s_n192 = LP256 ([Rd32] @ MN192)"
definition k_r1w0_s_n224 :: kernel where "k_r1w0_s_n224 = LP256 ([Rd32] @ MN224)"
definition k_r1w0_s_n256 :: kernel where "k_r1w0_s_n256 = LP256 ([Rd32] @ MN256)"
definition k_r1w0_s_n384 :: kernel where "k_r1w0_s_n384 = LP256 ([Rd32] @ MN384)"
definition k_r1w0_s_n512 :: kernel where "k_r1w0_s_n512 = LP256 ([Rd32] @ MN512)"
definition k_r1w0_s_n768 :: kernel where "k_r1w0_s_n768 = LP256 ([Rd32] @ MN768)"
definition k_r1w0_s_n1024 :: kernel where "k_r1w0_s_n1024 = LP256 ([Rd32] @ MN1024)"
definition k_r1w0_s_n1536 :: kernel where "k_r1w0_s_n1536 = LP256 ([Rd32] @ MN1536)"
definition k_r1w0_s_n2048 :: kernel where "k_r1w0_s_n2048 = LP256 ([Rd32] @ MN2048)"
definition k_r1w1_s_n0 :: kernel where "k_r1w1_s_n0 = LP128 [Rd32, Wr32]"
definition k_r1w1_s_n1 :: kernel where "k_r1w1_s_n1 = LP128 ([Rd32, Wr32] @ LP4 MN1)"
definition k_r1w1_s_n2 :: kernel where "k_r1w1_s_n2 = LP128 ([Rd32, Wr32] @ LP4 MN2)"
definition k_r1w1_s_n4 :: kernel where "k_r1w1_s_n4 = LP128 ([Rd32, Wr32] @ LP4 MN4)"
definition k_r1w1_s_n8 :: kernel where "k_r1w1_s_n8 = LP128 ([Rd32, Wr32] @ LP4 MN8)"
definition k_r1w1_s_n16 :: kernel where "k_r1w1_s_n16 = LP128 ([Rd32, Wr32] @ LP4 MN16)"
definition k_r1w1_s_n32 :: kernel where "k_r1w1_s_n32 = LP128 ([Rd32, Wr32] @ LP4 MN32)"
definition k_r1w1_s_n48 :: kernel where "k_r1w1_s_n48 = LP128 ([Rd32, Wr32] @ LP4 MN48)"
definition k_r1w1_s_n64 :: kernel where "k_r1w1_s_n64 = LP128 ([Rd32, Wr32] @ LP4 MN64)"
definition k_r1w1_s_n80 :: kernel where "k_r1w1_s_n80 = LP128 ([Rd32, Wr32] @ LP4 MN80)"
definition k_r1w1_s_n88 :: kernel where "k_r1w1_s_n88 = LP128 ([Rd32, Wr32] @ LP4 MN88)"
definition k_r1w1_s_n96 :: kernel where "k_r1w1_s_n96 = LP128 ([Rd32, Wr32] @ LP4 MN96)"
definition k_r1w1_s_n104 :: kernel where "k_r1w1_s_n104 = LP128 ([Rd32, Wr32] @ LP4 MN104)"
definition k_r1w1_s_n112 :: kernel where "k_r1w1_s_n112 = LP128 ([Rd32, Wr32] @ LP4 MN112)"
definition k_r1w1_s_n128 :: kernel where "k_r1w1_s_n128 = LP128 ([Rd32, Wr32] @ LP4 MN128)"
definition k_r1w1_s_n160 :: kernel where "k_r1w1_s_n160 = LP128 ([Rd32, Wr32] @ LP4 MN160)"
definition k_r1w1_s_n192 :: kernel where "k_r1w1_s_n192 = LP128 ([Rd32, Wr32] @ LP4 MN192)"
definition k_r1w1_s_n224 :: kernel where "k_r1w1_s_n224 = LP128 ([Rd32, Wr32] @ LP4 MN224)"
definition k_r1w1_s_n256 :: kernel where "k_r1w1_s_n256 = LP128 ([Rd32, Wr32] @ LP4 MN256)"
definition k_r1w1_s_n384 :: kernel where "k_r1w1_s_n384 = LP128 ([Rd32, Wr32] @ LP4 MN384)"
definition k_r1w1_s_n512 :: kernel where "k_r1w1_s_n512 = LP128 ([Rd32, Wr32] @ LP4 MN512)"
definition k_r1w1_s_n768 :: kernel where "k_r1w1_s_n768 = LP128 ([Rd32, Wr32] @ LP4 MN768)"
definition k_r1w1_s_n1024 :: kernel where "k_r1w1_s_n1024 = LP128 ([Rd32, Wr32] @ LP4 MN1024)"
definition k_r1w1_s_n1536 :: kernel where "k_r1w1_s_n1536 = LP128 ([Rd32, Wr32] @ LP4 MN1536)"
definition k_r1w1_s_n2048 :: kernel where "k_r1w1_s_n2048 = LP128 ([Rd32, Wr32] @ LP4 MN2048)"
definition k_r2w1_s_n0 :: kernel where "k_r2w1_s_n0 = LP32 (LP4 [Rd32] @ LP2 [Rd32, Wr32])"
definition k_r2w1_s_n1 :: kernel where "k_r2w1_s_n1 = LP32 (LP4 [Rd32] @ LP2 [Rd32, Wr32] @ LP3 MN1)"
definition k_r2w1_s_n2 :: kernel where "k_r2w1_s_n2 = LP32 (LP4 [Rd32] @ LP2 [Rd32, Wr32] @ LP3 MN2)"
definition k_r2w1_s_n4 :: kernel where "k_r2w1_s_n4 = LP32 (LP4 [Rd32] @ LP2 [Rd32, Wr32] @ LP3 MN4)"
definition k_r2w1_s_n8 :: kernel where "k_r2w1_s_n8 = LP32 (LP4 [Rd32] @ LP2 [Rd32, Wr32] @ LP3 MN8)"
definition k_r2w1_s_n16 :: kernel where "k_r2w1_s_n16 = LP32 (LP4 [Rd32] @ LP2 [Rd32, Wr32] @ LP3 MN16)"
definition k_r2w1_s_n32 :: kernel where "k_r2w1_s_n32 = LP32 (LP4 [Rd32] @ LP2 [Rd32, Wr32] @ LP3 MN32)"
definition k_r2w1_s_n48 :: kernel where "k_r2w1_s_n48 = LP32 (LP4 [Rd32] @ LP2 [Rd32, Wr32] @ LP3 MN48)"
definition k_r2w1_s_n64 :: kernel where "k_r2w1_s_n64 = LP32 (LP4 [Rd32] @ LP2 [Rd32, Wr32] @ LP3 MN64)"
definition k_r2w1_s_n80 :: kernel where "k_r2w1_s_n80 = LP32 (LP4 [Rd32] @ LP2 [Rd32, Wr32] @ LP3 MN80)"
definition k_r2w1_s_n88 :: kernel where "k_r2w1_s_n88 = LP32 (LP4 [Rd32] @ LP2 [Rd32, Wr32] @ LP3 MN88)"
definition k_r2w1_s_n96 :: kernel where "k_r2w1_s_n96 = LP32 (LP4 [Rd32] @ LP2 [Rd32, Wr32] @ LP3 MN96)"
definition k_r2w1_s_n104 :: kernel where "k_r2w1_s_n104 = LP32 (LP4 [Rd32] @ LP2 [Rd32, Wr32] @ LP3 MN104)"
definition k_r2w1_s_n112 :: kernel where "k_r2w1_s_n112 = LP32 (LP4 [Rd32] @ LP2 [Rd32, Wr32] @ LP3 MN112)"
definition k_r2w1_s_n128 :: kernel where "k_r2w1_s_n128 = LP32 (LP4 [Rd32] @ LP2 [Rd32, Wr32] @ LP3 MN128)"
definition k_r2w1_s_n160 :: kernel where "k_r2w1_s_n160 = LP32 (LP4 [Rd32] @ LP2 [Rd32, Wr32] @ LP3 MN160)"
definition k_r2w1_s_n192 :: kernel where "k_r2w1_s_n192 = LP32 (LP4 [Rd32] @ LP2 [Rd32, Wr32] @ LP3 MN192)"
definition k_r2w1_s_n224 :: kernel where "k_r2w1_s_n224 = LP32 (LP4 [Rd32] @ LP2 [Rd32, Wr32] @ LP3 MN224)"
definition k_r2w1_s_n256 :: kernel where "k_r2w1_s_n256 = LP32 (LP4 [Rd32] @ LP2 [Rd32, Wr32] @ LP3 MN256)"
definition k_r2w1_s_n320 :: kernel where "k_r2w1_s_n320 = LP32 (LP4 [Rd32] @ LP2 [Rd32, Wr32] @ LP3 MN320)"
definition k_r2w1_s_n384 :: kernel where "k_r2w1_s_n384 = LP32 (LP4 [Rd32] @ LP2 [Rd32, Wr32] @ LP3 MN384)"
definition k_r2w1_s_n448 :: kernel where "k_r2w1_s_n448 = LP32 (LP4 [Rd32] @ LP2 [Rd32, Wr32] @ LP3 MN448)"
definition k_r2w1_s_n512 :: kernel where "k_r2w1_s_n512 = LP32 (LP4 [Rd32] @ LP2 [Rd32, Wr32] @ LP3 MN512)"
definition k_r2w1_s_n640 :: kernel where "k_r2w1_s_n640 = LP32 (LP4 [Rd32] @ LP2 [Rd32, Wr32] @ LP3 MN640)"
definition k_r2w1_s_n768 :: kernel where "k_r2w1_s_n768 = LP32 (LP4 [Rd32] @ LP2 [Rd32, Wr32] @ LP3 MN768)"
definition k_r2w1_s_n1024 :: kernel where "k_r2w1_s_n1024 = LP32 (LP4 [Rd32] @ LP2 [Rd32, Wr32] @ LP3 MN1024)"
definition k_r2w1_s_n1536 :: kernel where "k_r2w1_s_n1536 = LP32 (LP4 [Rd32] @ LP2 [Rd32, Wr32] @ LP3 MN1536)"
definition k_r2w1_s_n2048 :: kernel where "k_r2w1_s_n2048 = LP32 (LP4 [Rd32] @ LP2 [Rd32, Wr32] @ LP3 MN2048)"
definition k_r3w1_s_n0 :: kernel where "k_r3w1_s_n0 = LP42 (LP5 [Rd32] @ [Wr32]) @ LP3 [Rd32] @ LP1 [Wr32]"
definition k_r3w1_s_n1 :: kernel where "k_r3w1_s_n1 = LP42 (LP5 [Rd32] @ [Wr32] @ LP8 MN1) @ LP3 [Rd32] @ LP1 [Wr32] @ LP4 MN1"
definition k_r3w1_s_n2 :: kernel where "k_r3w1_s_n2 = LP42 (LP5 [Rd32] @ [Wr32] @ LP8 MN2) @ LP3 [Rd32] @ LP1 [Wr32] @ LP4 MN2"
definition k_r3w1_s_n4 :: kernel where "k_r3w1_s_n4 = LP42 (LP5 [Rd32] @ [Wr32] @ LP8 MN4) @ LP3 [Rd32] @ LP1 [Wr32] @ LP4 MN4"
definition k_r3w1_s_n8 :: kernel where "k_r3w1_s_n8 = LP42 (LP5 [Rd32] @ [Wr32] @ LP8 MN8) @ LP3 [Rd32] @ LP1 [Wr32] @ LP4 MN8"
definition k_r3w1_s_n16 :: kernel where "k_r3w1_s_n16 = LP42 (LP5 [Rd32] @ [Wr32] @ LP8 MN16) @ LP3 [Rd32] @ LP1 [Wr32] @ LP4 MN16"
definition k_r3w1_s_n32 :: kernel where "k_r3w1_s_n32 = LP42 (LP5 [Rd32] @ [Wr32] @ LP8 MN32) @ LP3 [Rd32] @ LP1 [Wr32] @ LP4 MN32"
definition k_r3w1_s_n48 :: kernel where "k_r3w1_s_n48 = LP42 (LP5 [Rd32] @ [Wr32] @ LP8 MN48) @ LP3 [Rd32] @ LP1 [Wr32] @ LP4 MN48"
definition k_r3w1_s_n64 :: kernel where "k_r3w1_s_n64 = LP42 (LP5 [Rd32] @ [Wr32] @ LP8 MN64) @ LP3 [Rd32] @ LP1 [Wr32] @ LP4 MN64"
definition k_r3w1_s_n80 :: kernel where "k_r3w1_s_n80 = LP42 (LP5 [Rd32] @ [Wr32] @ LP8 MN80) @ LP3 [Rd32] @ LP1 [Wr32] @ LP4 MN80"
definition k_r3w1_s_n88 :: kernel where "k_r3w1_s_n88 = LP42 (LP5 [Rd32] @ [Wr32] @ LP8 MN88) @ LP3 [Rd32] @ LP1 [Wr32] @ LP4 MN88"
definition k_r3w1_s_n96 :: kernel where "k_r3w1_s_n96 = LP42 (LP5 [Rd32] @ [Wr32] @ LP8 MN96) @ LP3 [Rd32] @ LP1 [Wr32] @ LP4 MN96"
definition k_r3w1_s_n104 :: kernel where "k_r3w1_s_n104 = LP42 (LP5 [Rd32] @ [Wr32] @ LP8 MN104) @ LP3 [Rd32] @ LP1 [Wr32] @ LP4 MN104"
definition k_r3w1_s_n112 :: kernel where "k_r3w1_s_n112 = LP42 (LP5 [Rd32] @ [Wr32] @ LP8 MN112) @ LP3 [Rd32] @ LP1 [Wr32] @ LP4 MN112"
definition k_r3w1_s_n128 :: kernel where "k_r3w1_s_n128 = LP42 (LP5 [Rd32] @ [Wr32] @ LP8 MN128) @ LP3 [Rd32] @ LP1 [Wr32] @ LP4 MN128"
definition k_r3w1_s_n160 :: kernel where "k_r3w1_s_n160 = LP42 (LP5 [Rd32] @ [Wr32] @ LP8 MN160) @ LP3 [Rd32] @ LP1 [Wr32] @ LP4 MN160"
definition k_r3w1_s_n192 :: kernel where "k_r3w1_s_n192 = LP42 (LP5 [Rd32] @ [Wr32] @ LP8 MN192) @ LP3 [Rd32] @ LP1 [Wr32] @ LP4 MN192"
definition k_r3w1_s_n224 :: kernel where "k_r3w1_s_n224 = LP42 (LP5 [Rd32] @ [Wr32] @ LP8 MN224) @ LP3 [Rd32] @ LP1 [Wr32] @ LP4 MN224"
definition k_r3w1_s_n256 :: kernel where "k_r3w1_s_n256 = LP42 (LP5 [Rd32] @ [Wr32] @ LP8 MN256) @ LP3 [Rd32] @ LP1 [Wr32] @ LP4 MN256"
definition k_r3w1_s_n384 :: kernel where "k_r3w1_s_n384 = LP42 (LP5 [Rd32] @ [Wr32] @ LP8 MN384) @ LP3 [Rd32] @ LP1 [Wr32] @ LP4 MN384"
definition k_r3w1_s_n512 :: kernel where "k_r3w1_s_n512 = LP42 (LP5 [Rd32] @ [Wr32] @ LP8 MN512) @ LP3 [Rd32] @ LP1 [Wr32] @ LP4 MN512"
definition k_r3w1_s_n768 :: kernel where "k_r3w1_s_n768 = LP42 (LP5 [Rd32] @ [Wr32] @ LP8 MN768) @ LP3 [Rd32] @ LP1 [Wr32] @ LP4 MN768"
definition k_r3w1_s_n1024 :: kernel where "k_r3w1_s_n1024 = LP42 (LP5 [Rd32] @ [Wr32] @ LP8 MN1024) @ LP3 [Rd32] @ LP1 [Wr32] @ LP4 MN1024"
definition k_r3w1_s_n1536 :: kernel where "k_r3w1_s_n1536 = LP42 (LP5 [Rd32] @ [Wr32] @ LP8 MN1536) @ LP3 [Rd32] @ LP1 [Wr32] @ LP4 MN1536"
definition k_r3w1_s_n2048 :: kernel where "k_r3w1_s_n2048 = LP42 (LP5 [Rd32] @ [Wr32] @ LP8 MN2048) @ LP3 [Rd32] @ LP1 [Wr32] @ LP4 MN2048"

lemmas r1w0_defs =
  k_r1w0_s_n0_def k_r1w0_s_n1_def k_r1w0_s_n2_def k_r1w0_s_n4_def k_r1w0_s_n8_def
  k_r1w0_s_n16_def k_r1w0_s_n32_def k_r1w0_s_n48_def k_r1w0_s_n64_def k_r1w0_s_n80_def
  k_r1w0_s_n88_def k_r1w0_s_n96_def k_r1w0_s_n104_def k_r1w0_s_n112_def k_r1w0_s_n128_def
  k_r1w0_s_n160_def k_r1w0_s_n192_def k_r1w0_s_n224_def k_r1w0_s_n256_def k_r1w0_s_n384_def
  k_r1w0_s_n512_def k_r1w0_s_n768_def k_r1w0_s_n1024_def k_r1w0_s_n1536_def k_r1w0_s_n2048_def

lemmas r1w1_defs =
  k_r1w1_s_n0_def k_r1w1_s_n1_def k_r1w1_s_n2_def k_r1w1_s_n4_def k_r1w1_s_n8_def
  k_r1w1_s_n16_def k_r1w1_s_n32_def k_r1w1_s_n48_def k_r1w1_s_n64_def k_r1w1_s_n80_def
  k_r1w1_s_n88_def k_r1w1_s_n96_def k_r1w1_s_n104_def k_r1w1_s_n112_def k_r1w1_s_n128_def
  k_r1w1_s_n160_def k_r1w1_s_n192_def k_r1w1_s_n224_def k_r1w1_s_n256_def k_r1w1_s_n384_def
  k_r1w1_s_n512_def k_r1w1_s_n768_def k_r1w1_s_n1024_def k_r1w1_s_n1536_def k_r1w1_s_n2048_def

lemmas r2w1_defs =
  k_r2w1_s_n0_def k_r2w1_s_n1_def k_r2w1_s_n2_def k_r2w1_s_n4_def k_r2w1_s_n8_def
  k_r2w1_s_n16_def k_r2w1_s_n32_def k_r2w1_s_n48_def k_r2w1_s_n64_def k_r2w1_s_n80_def
  k_r2w1_s_n88_def k_r2w1_s_n96_def k_r2w1_s_n104_def k_r2w1_s_n112_def k_r2w1_s_n128_def
  k_r2w1_s_n160_def k_r2w1_s_n192_def k_r2w1_s_n224_def k_r2w1_s_n256_def k_r2w1_s_n320_def
  k_r2w1_s_n384_def k_r2w1_s_n448_def k_r2w1_s_n512_def k_r2w1_s_n640_def k_r2w1_s_n768_def
  k_r2w1_s_n1024_def k_r2w1_s_n1536_def k_r2w1_s_n2048_def

lemmas r3w1_defs =
  k_r3w1_s_n0_def k_r3w1_s_n1_def k_r3w1_s_n2_def k_r3w1_s_n4_def k_r3w1_s_n8_def
  k_r3w1_s_n16_def k_r3w1_s_n32_def k_r3w1_s_n48_def k_r3w1_s_n64_def k_r3w1_s_n80_def
  k_r3w1_s_n88_def k_r3w1_s_n96_def k_r3w1_s_n104_def k_r3w1_s_n112_def k_r3w1_s_n128_def
  k_r3w1_s_n160_def k_r3w1_s_n192_def k_r3w1_s_n224_def k_r3w1_s_n256_def k_r3w1_s_n384_def
  k_r3w1_s_n512_def k_r3w1_s_n768_def k_r3w1_s_n1024_def k_r3w1_s_n1536_def k_r3w1_s_n2048_def

lemmas delay_kernel_defs = r1w0_defs r1w1_defs r2w1_defs r3w1_defs

section \<open>The table\<close>

definition get_kernels_with_delays :: "u32 \<Rightarrow> (i32 \<times> kernel) list" where
  "get_kernels_with_delays read_write_mix =
     (if read_write_mix = 0 then
        [(1, k_r1w0_s_n1), (8, k_r1w0_s_n8), (32, k_r1w0_s_n32), (48, k_r1w0_s_n48),
         (64, k_r1w0_s_n64), (80, k_r1w0_s_n80), (88, k_r1w0_s_n88), (96, k_r1w0_s_n96),
         (104, k_r1w0_s_n104), (112, k_r1w0_s_n112), (128, k_r1w0_s_n128), (160, k_r1w0_s_n160),
         (192, k_r1w0_s_n192), (224, k_r1w0_s_n224), (256, k_r1w0_s_n256), (384, k_r1w0_s_n384),
         (512, k_r1w0_s_n512), (768, k_r1w0_s_n768), (1024, k_r1w0_s_n1024), (1536, k_r1w0_s_n1536),
         (2048, k_r1w0_s_n2048)]
      else if read_write_mix = 1 then
        [(1, k_r1w1_s_n1), (8, k_r1w1_s_n8), (32, k_r1w1_s_n32), (48, k_r1w1_s_n48),
         (64, k_r1w1_s_n64), (80, k_r1w1_s_n80), (88, k_r1w1_s_n88), (96, k_r1w1_s_n96),
         (104, k_r1w1_s_n104), (112, k_r1w1_s_n112), (128, k_r1w1_s_n128), (160, k_r1w1_s_n160),
         (192, k_r1w1_s_n192), (224, k_r1w1_s_n224), (256, k_r1w1_s_n256), (384, k_r1w1_s_n384),
         (512, k_r1w1_s_n512), (768, k_r1w1_s_n768), (1024, k_r1w1_s_n1024), (1536, k_r1w1_s_n1536),
         (2048, k_r1w1_s_n2048)]
      else if read_write_mix = 2 then
        [(1, k_r2w1_s_n1), (8, k_r2w1_s_n8), (32, k_r2w1_s_n32), (48, k_r2w1_s_n48),
         (64, k_r2w1_s_n64), (80, k_r2w1_s_n80), (88, k_r2w1_s_n88), (96, k_r2w1_s_n96),
         (104, k_r2w1_s_n104), (112, k_r2w1_s_n112), (128, k_r2w1_s_n128), (160, k_r2w1_s_n160),
         (192, k_r2w1_s_n192), (224, k_r2w1_s_n224), (256, k_r2w1_s_n256), (320, k_r2w1_s_n320),
         (384, k_r2w1_s_n384), (448, k_r2w1_s_n448), (512, k_r2w1_s_n512), (640, k_r2w1_s_n640),
         (768, k_r2w1_s_n768), (1024, k_r2w1_s_n1024), (1536, k_r2w1_s_n1536), (2048, k_r2w1_s_n2048)]
      else if read_write_mix = 3 then
        [(1, k_r3w1_s_n1), (8, k_r3w1_s_n8), (32, k_r3w1_s_n32), (48, k_r3w1_s_n48),
         (64, k_r3w1_s_n64), (80, k_r3w1_s_n80), (88, k_r3w1_s_n88), (96, k_r3w1_s_n96),
         (104, k_r3w1_s_n104), (112, k_r3w1_s_n112), (128, k_r3w1_s_n128), (160, k_r3w1_s_n160),
         (192, k_r3w1_s_n192), (224, k_r3w1_s_n224), (256, k_r3w1_s_n256), (384, k_r3w1_s_n384),
         (512, k_r3w1_s_n512), (768, k_r3w1_s_n768), (1024, k_r3w1_s_n1024), (1536, k_r3w1_s_n1536),
         (2048, k_r3w1_s_n2048)]
      else
        [(0, k_r2w1_s_n256)])"

text \<open>
  The functions the header \<open>kernels_delay_bandwidth.h\<close> declares, by read/write mix and by the
  number in their name.
\<close>

definition declared_kernels :: "u32 \<Rightarrow> (nat \<times> kernel) list" where
  "declared_kernels read_write_mix =
     (if read_write_mix = 0 then
        [(0, k_r1w0_s_n0), (1, k_r1w0_s_n1), (2, k_r1w0_s_n2), (4, k_r1w0_s_n4),
         (8, k_r1w0_s_n8), (16, k_r1w0_s_n16), (32, k_r1w0_s_n32), (48, k_r1w0_s_n48),
         (64, k_r1w0_s_n64), (80, k_r1w0_s_n80), (88, k_r1w0_s_n88), (96, k_r1w0_s_n96),
         (104, k_r1w0_s_n104), (112, k_r1w0_s_n112), (128, k_r1w0_s_n128), (160, k_r1w0_s_n160),
         (192, k_r1w0_s_n192), (224, k_r1w0_s_n224), (256, k_r1w0_s_n256), (384, k_r1w0_s_n384),
         (512, k_r1w0_s_n512), (768, k_r1w0_s_n768), (1024, k_r1w0_s_n1024), (1536, k_r1w0_s_n1536),
         (2048, k_r1w0_s_n2048)]
      else if read_write_mix = 1 then
        [(0, k_r1w1_s_n0), (1, k_r1w1_s_n1), (2, k_r1w1_s_n2), (4, k_r1w1_s_n4),
         (8, k_r1w1_s_n8), (16, k_r1w1_s_n16), (32, k_r1w1_s_n32), (48, k_r1w1_s_n48),
         (64, k_r1w1_s_n64), (80, k_r1w1_s_n80), (88, k_r1w1_s_n88), (96, k_r1w1_s_n96),
         (104, k_r1w1_s_n104), (112, k_r1w1_s_n112), (128, k_r1w1_s_n128), (160, k_r1w1_s_n160),
         (192, k_r1w1_s_n192), (224, k_r1w1_s_n224), (256, k_r1w1_s_n256), (384, k_r1w1_s_n384),
         (512, k_r1w1_s_n512), (768, k_r1w1_s_n768), (1024, k_r1w1_s_n1024), (1536, k_r1w1_s_n1536),
         (2048, k_r1w1_s_n2048)]
      else if read_write_mix = 2 then
        [(0, k_r2w1_s_n0), (1, k_r2w1_s_n1), (2, k_r2w1_s_n2), (4, k_r2w1_s_n4),
         (8, k_r2w1_s_n8), (16, k_r2w1_s_n16), (32, k_r2w1_s_n32), (48, k_r2w1_s_n48),
         (64, k_r2w1_s_n64), (80, k_r2w1_s_n80), (88, k_r2w1_s_n88), (96, k_r2w1_s_n96),
         (104, k_r2w1_s_n104), (112, k_r2w1_s_n112), (128, k_r2w1_s_n128), (160, k_r2w1_s_n160),
         (192, k_r2w1_s_n192), (224, k_r2w1_s_n224), (256, k_r2w1_s_n256), (320, k_r2w1_s_n320),
         (384, k_r2w1_s_n384), (448, k_r2w1_s_n448), (512, k_r2w1_s_n512), (640, k_r2w1_s_n640),
         (768, k_r2w1_s_n768), (1024, k_r2w1_s_n1024), (1536, k_r2w1_s_n1536), (2048, k_r2w1_s_n2048)]
      else if read_write_mix = 3 then
        [(0, k_r3w1_s_n0), (1, k_r3w1_s_n1), (2, k_r3w1_s_n2), (4, k_r3w1_s_n4),
         (8, k_r3w1_s_n8), (16, k_r3w1_s_n16), (32, k_r3w1_s_n32), (48, k_r3w1_s_n48),
         (64, k_r3w1_s_n64), (80, k_r3w1_s_n80), (88, k_r3w1_s_n88), (96, k_r3w1_s_n96),
         (104, k_r3w1_s_n104), (112, k_r3w1_s_n112), (128, k_r3w1_s_n128), (160, k_r3w1_s_n160),
         (192, k_r3w1_s_n192), (224, k_r3w1_s_n224), (256, k_r3w1_s_n256), (384, k_r3w1_s_n384),
         (512, k_r3w1_s_n512), (768, k_r3w1_s_n768), (1024, k_r3w1_s_n1024), (1536, k_r3w1_s_n1536),
         (2048, k_r3w1_s_n2048)]
      else [])"

end
