(* ===== verification/Kernel_Props.thy ===== *)
theory Kernel_Props
  imports Delay_Kernels
begin

text \<open>
  The properties of the kernels: the memory traffic each one generates, the nops of the
  delay kernels, and that a kernel that starts inside a region with 8 KiB ahead of it
  stays inside.
\<close>

section \<open>Cache-line traffic\<close>

text \<open>
  Two consecutive 32-byte accesses make up a 64-byte cache line. A line that is touched is
  read from memory, and a line that is written to is also written back.
\<close>

fun line_traffic :: "kernel \<Rightarrow> nat \<times> nat" where
  "line_traffic (a # b # xs) =
     (let (lines_read, lines_written) = line_traffic xs
      in (Suc lines_read, lines_written + (if a = Wr32 \<or> b = Wr32 then 1 else 0)))"
| "line_traffic _ = (0, 0)"

lemma kernel_eval:
  "accesses kernel_bw_r1w0_sequential = kernel_bw_r1w0_sequential"
  "accesses kernel_bw_r1w1_sequential = kernel_bw_r1w1_sequential"
  "accesses kernel_bw_r2w1_sequential = kernel_bw_r2w1_sequential"
  "accesses kernel_bw_r3w1_sequential = kernel_bw_r3w1_sequential"
  by (simp_all add: kernel_bw_r1w0_sequential_def kernel_bw_r1w1_sequential_def
      kernel_bw_r2w1_sequential_def kernel_bw_r3w1_sequential_def)

lemma kernel_lengths:
  "length kernel_bw_r1w0_sequential = 256" "length kernel_bw_r1w1_sequential = 256"
  "length kernel_bw_r2w1_sequential = 256" "length kernel_bw_r3w1_sequential = 256"
  by code_simp+

lemma kernel_traffic:
  "line_traffic kernel_bw_r1w0_sequential = (128, 0)"
  "line_traffic kernel_bw_r1w1_sequential = (128, 128)"
  "line_traffic kernel_bw_r2w1_sequential = (128, 64)"
  "line_traffic kernel_bw_r3w1_sequential = (128, 43)"
  by code_simp+

lemma write_fractions:
  "get_write_fraction 0 = 0" "get_write_fraction 1 = 1" "get_write_fraction 2 = 1 / 2"
  "\<bar>get_write_fraction 3 - 3333 / 10000\<bar> < 1 / 10 ^ 7"
proof -
  have "(2 :: rat) powi - 24 = 1 / 16777216" by (simp add: power_int_minus)
  with rnd_error [of 24 "3333 / 10000"] show "\<bar>get_write_fraction 3 - 3333 / 10000\<bar> < 1 / 10 ^ 7"
    by (simp add: get_write_fraction_def)
  show "get_write_fraction 0 = 0" "get_write_fraction 1 = 1"
    using rnd_exact [of 1 24] by (simp_all add: get_write_fraction_def)
  show "get_write_fraction 2 = 1 / 2" unfolding get_write_fraction_def by code_simp
qed

section \<open>Nops of the delay kernels\<close>

definition bandwidth_kernel :: "u32 \<Rightarrow> kernel" where
  "bandwidth_kernel m =
     (if m = 0 then kernel_bw_r1w0_sequential else if m = 1 then kernel_bw_r1w1_sequential
      else if m = 3 then kernel_bw_r3w1_sequential else kernel_bw_r2w1_sequential)"

definition nop_unit :: "u32 \<Rightarrow> nat" where
  "nop_unit m = (if m = 0 then 256 else if m = 1 then 512 else if m = 3 then 340 else 96)"

definition nops_of_delay :: "nat \<Rightarrow> nat" where
  "nops_of_delay n = (if n = 104 then 120 else n)"

lemma declared_kernels_load:
  "list_all (\<lambda>(n, k). accesses k = bandwidth_kernel m \<and> nops k = nop_unit m * nops_of_delay n)
     (declared_kernels m)"
  by (simp add: declared_kernels_def r1w0_defs r1w1_defs r2w1_defs r3w1_defs bandwidth_kernel_def
      nop_unit_def nops_of_delay_def kernel_bw_r1w0_sequential_def kernel_bw_r1w1_sequential_def
      kernel_bw_r2w1_sequential_def kernel_bw_r3w1_sequential_def)

lemma mix_less_4:
  fixes m :: u32
  assumes "m < 4"
  shows "m \<in> {0, 1, 2, 3}"
proof -
  have "unat m < 4" using assms by (simp add: word_less_nat_alt)
  then have "unat m \<in> {0, 1, 2, 3}" by auto
  then have "(of_nat (unat m) :: u32) \<in> of_nat ` {0, 1, 2, 3}" by (rule imageI)
  then show ?thesis unfolding of_nat_unat_32 by simp
qed

section \<open>Kernels stay inside the region\<close>

text \<open>
  Two regions that differ at most in the bytes from \<open>lo\<close> up to \<open>hi\<close>.
\<close>

definition same_outside :: "nat \<Rightarrow> nat \<Rightarrow> mem_region \<Rightarrow> mem_region \<Rightarrow> bool" where
  "same_outside lo hi r r' =
     (\<exists>m. r' = r\<lparr>mr_bytes := m\<rparr> \<and> (\<forall>k. k < lo \<or> hi \<le> k \<longrightarrow> m k = mr_bytes r k))"

lemma same_outside_refl [simp]: "same_outside lo hi r r"
  unfolding same_outside_def by (intro exI [of _ "mr_bytes r"]) simp

lemma same_outside_trans:
  assumes "same_outside lo mid r r'" and "same_outside mid hi r' r''" and "lo \<le> mid" and "mid \<le> hi"
  shows "same_outside lo hi r r''"
proof -
  obtain m m' where "r' = r\<lparr>mr_bytes := m\<rparr>" "\<forall>k. k < lo \<or> mid \<le> k \<longrightarrow> m k = mr_bytes r k"
    "r'' = r'\<lparr>mr_bytes := m'\<rparr>" "\<forall>k. k < mid \<or> hi \<le> k \<longrightarrow> m' k = mr_bytes r' k"
    using assms(1,2) unfolding same_outside_def by blast
  then show ?thesis
    unfolding same_outside_def using assms(3,4) by (intro exI [of _ m']) auto
qed

lemma same_outside_fields:
  "same_outside lo hi r r' \<Longrightarrow> mr_size r' = mr_size r \<and> mr_addr1 r' = mr_addr1 r \<and>
     mr_active_size r' = mr_active_size r \<and> mr_line_size r' = mr_line_size r"
  by (auto simp: same_outside_def)

definition streaming :: "kernel \<Rightarrow> bool" where
  "streaming k = list_all (\<lambda>x. x = Rd32 \<or> x = Wr32 \<or> x = Nop) k"

text \<open>One access of 32 bytes at offset \<open>a\<close>, with room for it.\<close>

lemma exec_streaming_stmt:
  assumes "x = Rd32 \<or> x = Wr32" and "a + 32 \<le> unat (mr_size r)"
  shows "\<exists>r' acc'. exec_stmt x (r, acc, addr_of (mr_addr1 r) a) =
      Inr (r', acc', addr_of (mr_addr1 r) (a + 32)) \<and> same_outside a (a + 32) r r' \<and>
      (x = Rd32 \<longrightarrow> r' = r)"
proof -
  have "a < 2 ^ 64" using assms(2) unat_lt_64 [of "mr_size r"] by simp
  then have off: "off_of (mr_addr1 r) (addr_of (mr_addr1 r) a) = a" by (rule off_of_addr_of)
  have un: "unat (addr_of (mr_addr1 r) a - mr_addr1 r) = a" using off by (simp add: off_of_def)
  have nx: "addr_of (mr_addr1 r) a + 32 = addr_of (mr_addr1 r) (a + 32)" by (simp add: addr_of_def)
  from assms(1) show ?thesis
  proof
    assume "x = Rd32"
    then show ?thesis using assms(2) by (simp add: exec_stmt_def load_at_def off nx)
  next
    assume "x = Wr32"
    then show ?thesis
      using assms(2)
      by (auto simp: exec_stmt_def store_at_def store_ptr_def un nx same_outside_def write64_def)
  qed
qed

lemma exec_streaming:
  assumes "streaming k" and "a + 32 * length (accesses k) \<le> unat (mr_size r)"
  shows "\<exists>r' acc'. exec_kernel k (r, acc, addr_of (mr_addr1 r) a) =
      Inr (r', acc', addr_of (mr_addr1 r) (a + 32 * length (accesses k))) \<and>
      same_outside a (a + 32 * length (accesses k)) r r' \<and> (Wr32 \<notin> set k \<longrightarrow> r' = r)"
  using assms
proof (induction k arbitrary: r acc a)
  case (Cons x xs)
  show ?case
  proof (cases "x = Nop")
    case True
    with Cons show ?thesis by (simp add: exec_stmt_def streaming_def)
  next
    case False
    with Cons.prems have x: "x = Rd32 \<or> x = Wr32" and xs: "streaming xs"
      and len: "length (accesses (x # xs)) = Suc (length (accesses xs))"
      by (auto simp: streaming_def)
    obtain r1 acc1 where st: "exec_stmt x (r, acc, addr_of (mr_addr1 r) a) =
        Inr (r1, acc1, addr_of (mr_addr1 r) (a + 32))" "same_outside a (a + 32) r r1" "x = Rd32 \<longrightarrow> r1 = r"
      using exec_streaming_stmt [OF x, of a r acc] Cons.prems(2) len by auto
    note f = same_outside_fields [OF st(2)]
    obtain r2 acc2 where ih: "exec_kernel xs (r1, acc1, addr_of (mr_addr1 r1) (a + 32)) =
        Inr (r2, acc2, addr_of (mr_addr1 r1) (a + 32 + 32 * length (accesses xs)))"
      "same_outside (a + 32) (a + 32 + 32 * length (accesses xs)) r1 r2" "Wr32 \<notin> set xs \<longrightarrow> r2 = r1"
      using Cons.IH [OF xs, of "a + 32" r1 acc1] Cons.prems(2) len f by auto
    have "same_outside a (a + 32 * length (accesses (x # xs))) r r2"
      using same_outside_trans [OF st(2) ih(2)] len by (simp add: add.assoc)
    then show ?thesis
      using st ih f len x by (auto simp: add.assoc)
  qed
qed simp

lemma streaming_append [simp]: "streaming (xs @ ys) \<longleftrightarrow> streaming xs \<and> streaming ys"
  by (simp add: streaming_def)

lemma streaming_accesses: "streaming (accesses k) \<longleftrightarrow> streaming k"
  by (induction k) (auto simp: streaming_def accesses_def)

lemma streaming_kernels:
  "streaming kernel_bw_r1w0_sequential" "streaming kernel_bw_r1w1_sequential"
  "streaming kernel_bw_r2w1_sequential" "streaming kernel_bw_r3w1_sequential"
  by code_simp+

text \<open>The kernels a bandwidth worker may be given.\<close>

definition bandwidth_like :: "kernel \<Rightarrow> bool" where
  "bandwidth_like k = (streaming k \<and> length (accesses k) = 256)"

lemma bandwidth_like_kernel: "accesses k = bandwidth_kernel m \<Longrightarrow> bandwidth_like k"
  using streaming_accesses [of k] streaming_kernels kernel_lengths
  by (auto simp: bandwidth_like_def bandwidth_kernel_def split: if_splits)

lemma bandwidth_like_wrmix:
  "list_all (\<lambda>(mix, k). bandwidth_like k) (get_kernels_with_wrmix m)"
  using streaming_kernels kernel_lengths kernel_eval
  by (simp add: get_kernels_with_wrmix_def bandwidth_like_def)

lemma delay_table_load:
  "list_all (\<lambda>(d, k). accesses k = bandwidth_kernel m) (get_kernels_with_delays m)"
  by (simp add: get_kernels_with_delays_def r1w0_defs r1w1_defs r2w1_defs r3w1_defs bandwidth_kernel_def
      kernel_bw_r1w0_sequential_def kernel_bw_r1w1_sequential_def
      kernel_bw_r2w1_sequential_def kernel_bw_r3w1_sequential_def)

lemma delay_table_declared:
  assumes "m \<in> {0, 1, 2, 3}"
  shows "list_all (\<lambda>(d, k). (nat (sint d), k) \<in> set (declared_kernels m)) (get_kernels_with_delays m)"
  using assms by (auto simp: get_kernels_with_delays_def declared_kernels_def)

lemma delay_table_sorted: "sorted_wrt (\<lambda>x y. sint (fst x) < sint (fst y)) (get_kernels_with_delays m)"
  by (simp add: get_kernels_with_delays_def)

section \<open>Chasing pointers\<close>

lemma exec_chases:
  assumes "ring_in r os" and "\<forall>x \<in> set os. x + 8 \<le> unat (mr_size r)" and "i < length os"
  shows "exec_kernel (replicate n Chase) (r, acc, addr_of (mr_addr1 r) (os ! i)) =
    Inr (r, acc, addr_of (mr_addr1 r) (os ! ((i + n) mod length os)))"
  using assms(3)
proof (induction n arbitrary: i)
  case (Suc n)
  have fit: "os ! i + 8 \<le> unat (mr_size r)" using assms(2) Suc.prems by simp
  then have "os ! i < 2 ^ 64" using unat_lt_64 [of "mr_size r"] by simp
  then have off: "off_of (mr_addr1 r) (addr_of (mr_addr1 r) (os ! i)) = os ! i" by (rule off_of_addr_of)
  have "read64 (mr_bytes r) (os ! i) = addr_of (mr_addr1 r) (os ! (Suc i mod length os))"
    using assms(1) Suc.prems by (simp add: ring_in_def is_ring_def)
  moreover have "Suc i mod length os < length os" using Suc.prems by (intro mod_less_divisor) linarith
  ultimately show ?case
    using Suc.IH [of "Suc i mod length os"] fit off
    by (simp add: exec_stmt_def load_at_def mod_add_left_eq)
qed simp

lemma lp256_chase: "LP256 [Chase] = replicate 256 Chase"
  by (simp add: lp_defs eval_nat_numeral)

lemma exec_kernel_lat:
  assumes "ring_in r os" and "\<forall>x \<in> set os. x + 8 \<le> unat (mr_size r)" and "i < length os"
  shows "\<exists>acc'. exec_kernel kernel_lat (r, acc, addr_of (mr_addr1 r) (os ! i)) =
    Inr (r, acc', addr_of (mr_addr1 r) (os ! ((i + 256) mod length os)))"
proof -
  let ?j = "(i + 256) mod length os"
  have "?j < length os" using assms(3) by (intro mod_less_divisor) linarith
  then have fit: "os ! ?j + 8 \<le> unat (mr_size r)" using assms(2) by simp
  then have "os ! ?j < 2 ^ 64" using unat_lt_64 [of "mr_size r"] by simp
  then have "off_of (mr_addr1 r) (addr_of (mr_addr1 r) (os ! ?j)) = os ! ?j" by (rule off_of_addr_of)
  with fit show ?thesis
    unfolding kernel_lat_def exec_kernel_append lp256_chase exec_chases [OF assms]
    by (simp add: exec_stmt_def load_at_def)
qed

section \<open>The properties\<close>

text \<open>
  C30. The read/write mix of a bandwidth kernel is that of its cache lines. Every kernel
  \<open>get_kernels_with_wrmix\<close> offers makes 256 accesses of 32 bytes, which are 128 cache
  lines, and the share of lines it dirties is the write fraction the worker adds to the
  finished bytes for that mix: exactly for the mixes 0, 1 and 2, and within one line in 128
  for mix 3.
\<close>

theorem kernels_match_mix:
  "list_all (\<lambda>(mix, k). length (accesses k) = 256 \<and> fst (line_traffic k) = 128 \<and>
      (if mix = 3 then \<bar>of_nat (snd (line_traffic k)) - 128 * get_write_fraction mix\<bar> < 1
       else of_nat (snd (line_traffic k)) = 128 * get_write_fraction mix))
    (get_kernels_with_wrmix m)"
proof -
  have "\<bar>43 - 128 * get_write_fraction 3\<bar> < 1"
    using write_fractions(4) by (simp add: abs_less_iff abs_if split: if_splits)
  then show ?thesis
    by (simp add: get_kernels_with_wrmix_def kernel_eval kernel_lengths kernel_traffic write_fractions)
qed

text \<open>
  C31. A delay kernel is the bandwidth kernel of its mix with nops added: each of the 103
  declared functions makes the same accesses in the same order as the peak-bandwidth
  kernel, and executes a number of nops proportional to the number in its name, with one
  exception: the kernels named 104 execute 120 per unit.
\<close>

theorem delay_kernels_load:
  "list_all (\<lambda>(n, k). accesses k = bandwidth_kernel m \<and> nops k = nop_unit m * nops_of_delay n)
     (declared_kernels m)"
  by (rule declared_kernels_load)

text \<open>
  The table of delays is strictly ascending and pairs every delay with the declared
  kernel of that number; for a mix outside 0 to 3 it has the single entry of delay 0.
\<close>

theorem delay_table_correct:
  "sorted_wrt (\<lambda>x y. sint (fst x) < sint (fst y)) (get_kernels_with_delays m) \<and>
   (if m < 4 then list_all (\<lambda>(d, k). (nat (sint d), k) \<in> set (declared_kernels m)) (get_kernels_with_delays m)
    else map fst (get_kernels_with_delays m) = [0])"
proof -
  note mix_less_4 [of m]
  moreover have "map fst (get_kernels_with_delays m) = [0]" if "\<not> m < 4"
  proof -
    have "m \<noteq> 0" "m \<noteq> 1" "m \<noteq> 2" "m \<noteq> 3" using that by auto
    then show ?thesis by (simp add: get_kernels_with_delays_def)
  qed
  ultimately show ?thesis using delay_table_sorted delay_table_declared by simp
qed

text \<open>
  A bandwidth or delay kernel that starts at offset \<open>a\<close> of a region with 8 KiB ahead
  of it runs without leaving the region, ends exactly 8 KiB further on, changes no byte
  outside those 8 KiB, and changes none at all if it has no write.
\<close>

theorem bandwidth_kernel_safe:
  assumes "bandwidth_like k" and "a + 8192 \<le> unat (mr_size r)"
  shows "\<exists>r' acc'. exec_kernel k (r, acc, addr_of (mr_addr1 r) a) =
      Inr (r', acc', addr_of (mr_addr1 r) (a + 8192)) \<and>
      same_outside a (a + 8192) r r' \<and> (if Wr32 \<in> set k then True else r' = r)"
  using exec_streaming [of k a r acc] assms by (auto simp: bandwidth_like_def)

lemma bandwidth_kernel_safe_witness:
  "\<exists>r. MemRegion \<lparr>env_numa_max_node = 0, env_numa_pagesize = 4096, env_getpagesize = 4096,
       env_set_mempolicy = (\<lambda>_ _ _. 0), env_mmap = (\<lambda>_ _. 65536),
       env_aligned_alloc = (\<lambda>_ _. 65536), env_strerror = ''''\<rparr> 8192 8192 4096 64 NATIVE NONE = Inr r \<and>
     (\<exists>acc'. exec_kernel k_r1w0_s_n2048 (r, 0, addr_of 65536 0) = Inr (r, acc', addr_of 65536 8192))"
proof -
  define env where "env = \<lparr>env_numa_max_node = 0, env_numa_pagesize = 4096, env_getpagesize = 4096,
       env_set_mempolicy = (\<lambda>_ _ _. 0), env_mmap = (\<lambda>_ _. 65536),
       env_aligned_alloc = (\<lambda>_ _. 65536), env_strerror = ''''\<rparr>"
  obtain r where r: "MemRegion env 8192 8192 4096 64 NATIVE NONE = Inr r" "mr_size r = 8192" "mr_addr1 r = 65536"
    by (simp add: env_def MemRegion_def allocNative_def set_placement_def Let_def)
  have acc: "accesses k_r1w0_s_n2048 = bandwidth_kernel 0"
    by (simp add: k_r1w0_s_n2048_def bandwidth_kernel_def kernel_bw_r1w0_sequential_def)
  have "Wr32 \<notin> set (accesses k_r1w0_s_n2048)" unfolding acc by code_simp
  then have "Wr32 \<notin> set k_r1w0_s_n2048" by (simp add: accesses_def)
  with bandwidth_kernel_safe [OF bandwidth_like_kernel [OF acc], of 0 r 0] r show ?thesis
    unfolding env_def by auto
qed

end
