(* ===== verification/Counted_Chases.thy ===== *)
theory Counted_Chases
  imports Workers Kernel_Props
begin

text \<open>
  The latency worker with a counter of its pointer hops beside it. The counter is advanced by
  the statement that makes the hop, \<open>p = reinterpret_cast<uint64_t*>(*p)\<close>, and by nothing
  else, so it does not rest on what the worker takes a kernel invocation to be worth; without
  the counter the run is that of \<open>lat_ptr\<close>.
\<close>

section \<open>Counting in a kernel\<close>

fun exec_counting :: "kernel \<Rightarrow> kernel_state \<times> nat \<Rightarrow> fault + kernel_state \<times> nat" where
  "exec_counting [] s = Inr s"
| "exec_counting (c # k) (s, hops) =
     (case exec_stmt c s of
        Inl e \<Rightarrow> Inl e
      | Inr s' \<Rightarrow> exec_counting k (s', if c = Chase then Suc hops else hops))"

lemma exec_counting_erase: "exec_counting k (s, n) = map_sum id (\<lambda>s'. (s', n + count_list k Chase)) (exec_kernel k s)"
proof (induction k arbitrary: s n)
  case (Cons c k)
  show ?case by (cases "exec_stmt c s") (simp_all add: Cons.IH)
qed simp

lemma hops_kernel_lat: "count_list kernel_lat Chase = 256"
  unfolding kernel_lat_def lp256_chase by (simp add: eval_nat_numeral)

definition call_counting :: "kernel option \<Rightarrow> kernel_state \<times> nat \<Rightarrow> fault + kernel_state \<times> nat" where
  "call_counting k s =
     (case k of None \<Rightarrow> Inl (Uncaught_Exception ''std::bad_function_call'')
              | Some k \<Rightarrow> exec_counting k s)"

lemma call_counting_erase: "call_kernel k (fst s) = map_sum id fst (call_counting k s)"
  by (cases s; cases k) (simp_all add: call_counting_def call_kernel_def exec_counting_erase sum.map_comp comp_def sum.map_ident)

section \<open>Loops that differ in what they carry\<close>

text \<open>The variables of the loop, with what its kernel works on seen through \<open>f\<close>.\<close>

definition on_body :: "('b \<Rightarrow> 'a) \<Rightarrow> 'b loop_state \<Rightarrow> 'a loop_state" where
  "on_body f s =
     \<lparr>ls_i = ls_i s, ls_finished = ls_finished s, ls_next_chkpt = ls_next_chkpt s,
      ls_num_chkpts = ls_num_chkpts s, ls_timer = ls_timer s, ls_reads = ls_reads s, ls_body = f (ls_body s)\<rparr>"

definition seen_through :: "('b \<Rightarrow> 'a) \<Rightarrow> 'b loop_config \<Rightarrow> 'a loop_config \<Rightarrow> bool" where
  "seen_through f d c \<longleftrightarrow>
     lc_unit c = lc_unit d \<and> lc_chkpt c = lc_chkpt d \<and> lc_loop_count c = lc_loop_count d \<and>
     lc_target_ns c = lc_target_ns d \<and> lc_clock c = lc_clock d \<and>
     (\<forall>i b. lc_kernel c i (f b) = map_sum id f (lc_kernel d i b)) \<and>
     (\<forall>b. lc_restart c (f b) = f (lc_restart d b))"

lemma checkpoint_on_body:
  assumes "seen_through f d c"
  shows "checkpoint c (on_body f s) = map_prod id (on_body f) (checkpoint d s)"
  using assms by (simp add: checkpoint_def on_body_def seen_through_def Let_def)

lemma loop_step_on_body:
  assumes "seen_through f d c"
  shows "loop_step c (on_body f s) = map_sum id (map_prod id (on_body f)) (loop_step d s)"
proof (cases "ls_i s < lc_loop_count d")
  case True
  let ?s = "\<lambda>b. s\<lparr>ls_body := b, ls_finished := ls_finished s + lc_unit d\<rparr>"
  have eq: "(on_body f s)\<lparr>ls_body := f b, ls_finished := ls_finished s + lc_unit d\<rparr> = on_body f (?s b)" for b
    by (simp add: on_body_def)
  have i: "(on_body f t)\<lparr>ls_i := ls_i t + 1\<rparr> = on_body f (t\<lparr>ls_i := ls_i t + 1\<rparr>)" "ls_i (on_body f t) = ls_i t" for t
    by (simp_all add: on_body_def)
  show ?thesis
  proof (cases "lc_kernel d (ls_i s) (ls_body s)")
    case (Inr b)
    obtain e t where "checkpoint d (?s b) = (e, t)" by fastforce
    moreover have "ls_i s \<noteq> lc_loop_count d" using True by auto
    ultimately show ?thesis
      using True Inr assms checkpoint_on_body [OF assms, of "?s b"] eq [of b] i [of t]
      by (cases e) (simp_all add: loop_step_def seen_through_def, simp_all add: on_body_def)
  qed (use True assms in \<open>simp add: loop_step_def seen_through_def on_body_def\<close>)
qed (use assms in \<open>simp add: loop_step_def seen_through_def on_body_def\<close>)

lemma run_loop_on_body:
  assumes "seen_through f d c" and "run_loop d s = ret s'"
  shows "run_loop c (on_body f s) = ret (on_body f s')"
proof -
  have "seen_through f d c \<longrightarrow> run_loop c (on_body f s) = Some (map_sum id (on_body f) y)"
    if "run_loop d s = Some y" for d s y
    using that
  proof (rule run_loop.raw_induct [rotated], intro impI)
    fix g d s y
    assume IH: "\<And>d s y. g d s = Some y \<Longrightarrow>
        seen_through f d c \<longrightarrow> run_loop c (on_body f s) = Some (map_sum id (on_body f) y)"
      and eq: "(case loop_step d s of Inl e \<Rightarrow> fail e
          | Inr (ended, s') \<Rightarrow> if ended then ret s' else g d s') = Some y"
      and c: "seen_through f d c"
    show "run_loop c (on_body f s) = Some (map_sum id (on_body f) y)"
      using eq IH [of d _ y] c loop_step_on_body [OF c, of s]
      by (auto simp: run_loop.simps [of c "on_body f s"] split: sum.splits if_splits)
  qed
  with assms show ?thesis by fastforce
qed

section \<open>The worker with its counter\<close>

definition counting_config :: "thread_env \<Rightarrow> mem_packet \<Rightarrow> mem_region \<Rightarrow> (kernel_state \<times> nat) loop_config" where
  "counting_config te p r =
     (let c = lat_config te p r
      in \<lparr>lc_unit = lc_unit c, lc_chkpt = lc_chkpt c, lc_loop_count = lc_loop_count c,
          lc_target_ns = lc_target_ns c, lc_clock = lc_clock c,
          lc_kernel = (\<lambda>i. call_counting (pk_kernel_lat p)), lc_restart = apfst (lc_restart c)\<rparr>)"

text \<open>What \<open>lat_ptr\<close> does, and the number of hops its kernel has made by then.\<close>

definition lat_ptr_counting :: "thread_env \<Rightarrow> mem_packet \<Rightarrow> (mem_packet \<times> nat) run" where
  "lat_ptr_counting te p =
     (case pk_mem_region p of
        None \<Rightarrow> fail null_region
      | Some r \<Rightarrow>
          if 256 * mr_line_size r = 0 then fail Div_By_Zero
          else let c = counting_config te p r
               in andthen (run_loop c (loop_start c ((r, 0, 0), 0)))
                    (\<lambda>s. ret (lat_finish (on_body fst s) p, snd (ls_body s))))"

lemma counting_seen_through: "seen_through fst (counting_config te p r) (lat_config te p r)"
  by (simp add: seen_through_def counting_config_def lat_config_def call_counting_erase Let_def)

text \<open>Forgetting the counter gives the worker.\<close>

lemma lat_ptr_counting_erase:
  assumes "lat_ptr_counting te p = ret (p', hops)"
  shows "lat_ptr te p = ret p'"
proof -
  obtain r where r: "pk_mem_region p = Some r" "256 * mr_line_size r \<noteq> 0"
    using assms by (auto simp: lat_ptr_counting_def split: option.splits if_splits)
  let ?d = "counting_config te p r"
  obtain s where s: "run_loop ?d (loop_start ?d ((r, 0, 0), 0)) = ret s" "p' = lat_finish (on_body fst s) p"
    using assms r by (auto simp: lat_ptr_counting_def Let_def elim!: andthen_eq_retE)
  have "on_body fst (loop_start ?d ((r, 0, 0), 0)) = loop_start (lat_config te p r) (r, 0, 0)"
    by (simp add: on_body_def loop_start_def counting_config_def Let_def)
  with run_loop_on_body [OF counting_seen_through s(1)]
  have "run_loop (lat_config te p r) (loop_start (lat_config te p r) (r, 0, 0)) = ret (on_body fst s)" by simp
  with r s(2) show ?thesis by (simp add: lat_ptr_def lat_setup_def Let_def)
qed

end
