(* ===== verification/Region_Props.thy ===== *)
theory Region_Props
  imports Region_Init
begin

unbundle bit_operations_syntax

text \<open>
  The properties of memory regions: each initialisation yields one circular list through
  every active line, and where it faults or runs forever.
\<close>

section \<open>A concrete environment\<close>

text \<open>One NUMA node, 4096-byte pages, and allocations at address 65536.\<close>

definition small_env :: alloc_env where
  "small_env = \<lparr>env_numa_max_node = 0, env_numa_pagesize = 4096, env_getpagesize = 4096,
     env_set_mempolicy = (\<lambda>_ _ _. 0), env_mmap = (\<lambda>_ _. 65536),
     env_aligned_alloc = (\<lambda>_ _. 65536), env_strerror = ''''\<rparr>"

lemma small_region:
  assumes "sz > 0" and "page > 0" and "line > 0"
  shows "\<exists>r. MemRegion small_env sz sz page line NATIVE NONE = Inr r"
  using assms
  by (simp add: MemRegion_def allocNative_def set_placement_def small_env_def Let_def
      word_greater_zero_iff)

section \<open>Circular lists\<close>

lemma ring_in_link_writes:
  assumes "os \<noteq> []" and "cells_apart 8 os"
  shows "ring_in (link_writes r (ring_links (addr_of (mr_addr1 r)) os)) os"
  by (rule ring_in_writes [OF assms]) simp

lemma small_offsets:
  assumes "mset os = mset offs" and "\<forall>x \<in> set offs. x + 8 \<le> unat (sz :: u64)"
  shows "\<forall>x \<in> set os. x < 2 ^ 64"
  using assms unat_lt_64 [of sz] mset_eq_setD [OF assms(1)] by fastforce

lemma line_grid_bound:
  "w \<le> line \<Longrightarrow> x \<in> set (line_grid n line) \<Longrightarrow> x + w \<le> n * line"
proof (erule in_line_gridE)
  fix i assume "w \<le> line" "x = i * line" "i < n"
  moreover have "Suc i * line \<le> n * line" using \<open>i < n\<close> by (intro mult_le_mono1) simp
  ultimately show "x + w \<le> n * line" by simp
qed

text \<open>A region linked through a permutation of well-separated offsets inside it.\<close>

lemma linked_region:
  fixes r :: mem_region
  assumes "mset os = mset offs" and "cells_apart 8 offs" and "offs \<noteq> []"
    and "\<forall>x \<in> set offs. x + 8 \<le> unat (sz :: u64)" and "hd os = 0"
  defines "r' \<equiv> link_writes r (ring_links (addr_of (mr_addr1 r)) os)"
  shows "distinct os"
    and "off_of (mr_addr1 r') (follow r' n (getStartPoint r')) = os ! (n mod length os)"
proof -
  have ap: "cells_apart 8 os" by (rule cells_apart_mset [OF assms(1,2)]) simp
  then show "distinct os" by (rule distinct_cells_apart) simp
  have "os \<noteq> []" using assms(1,3) by auto
  then have "ring_in r' os" unfolding r'_def using ap by (rule ring_in_link_writes)
  then show "off_of (mr_addr1 r') (follow r' n (getStartPoint r')) = os ! (n mod length os)"
    using small_offsets [OF assms(1,4)] assms(5) by (rule off_follow)
qed

lemma page_order_chunk:
  assumes "mset lines = mset (line_grid nl line)" and "8 \<le> line" and "nl * line \<le> unat (mr_page_size r)"
    and "0 < nl" and "0 < unat (mr_num_active_pages r)"
  shows "page_order r lines ! (n mod length (page_order r lines)) div unat (mr_page_size r)
    = (n div nl) mod unat (mr_num_active_pages r)"
proof -
  let ?np = "unat (mr_num_active_pages r)" and ?page = "unat (mr_page_size r)"
  have len: "length lines = nl" using mset_eq_length [OF assms(1)] by simp
  let ?m = "n mod (?np * nl)"
  have "?m < ?np * nl" using assms(4,5) by simp
  then have o: "page_order r lines ! ?m = (?m div nl) * ?page + lines ! (?m mod nl)"
    using nth_page_order [of ?m r lines] by (simp add: len)
  have "lines ! (?m mod nl) \<in> set (line_grid nl line)"
    using assms(1,4) len by (metis mod_less_divisor mset_eq_setD nth_mem)
  from line_grid_bound [OF assms(2) this] assms(3) have "lines ! (?m mod nl) < ?page" by linarith
  then have "page_order r lines ! ?m div ?page = ?m div nl" by (simp add: o)
  also have "?m = nl * (n div nl mod ?np) + n mod nl"
    by (subst mult.commute) (rule mod_mult2_eq)
  then have "?m div nl = n div nl mod ?np" using assms(4) by simp
  finally show ?thesis by (simp add: len)
qed

lemma page_grid_fits:
  assumes "8 \<le> unat line" and "active \<le> (sz :: u64)"
    and "x \<in> set (page_grid (unat active div unat page) (unat page div unat line) (unat page) (unat line))"
  shows "x + 8 \<le> unat sz"
proof -
  have "x + 8 \<le> (unat active div unat page) * unat page"
    by (rule page_grid_bound [OF _ assms(1,3)]) simp
  also have "\<dots> \<le> unat active" by simp
  also have "\<dots> \<le> unat sz" using assms(2) by (simp add: word_le_nat_alt)
  finally show ?thesis .
qed

text \<open>
  C9. Random access within chunks. For a region whose chunk size is at least its line
  size and at most its active size, with at most \<open>2 ^ 32\<close> lines per chunk,
  \<open>page_random_init\<close> succeeds whatever \<open>rand()\<close> returns, and links the start of
  every line of every whole chunk into one circular list that begins at offset 0. Following
  the pointers from \<open>getStartPoint\<close> visits each of these lines exactly once per lap, and
  finishes a chunk before it enters the next one.
\<close>

theorem page_random_init_ring:
  assumes "MemRegion env sz active page line mt ht = Inr r" and "active \<le> sz"
    and "8 \<le> unat line" and "line \<le> page" and "page \<le> active"
    and "unat page div unat line \<le> 2 ^ 32"
  shows "\<exists>r' k' os. page_random_init rs k r = ret (r', k') \<and>
    mset os = mset (page_grid (unat active div unat page) (unat page div unat line)
      (unat page) (unat line)) \<and>
    distinct os \<and> hd os = 0 \<and>
    (\<forall>n. off_of (mr_addr1 r') (follow r' n (getStartPoint r')) = os ! (n mod length os)) \<and>
    (\<forall>n. off_of (mr_addr1 r') (follow r' n (getStartPoint r')) div unat page =
       (n div (unat page div unat line)) mod (unat active div unat page))"
proof -
  let ?np = "unat active div unat page" and ?nl = "unat page div unat line"
  let ?grid = "page_grid ?np ?nl (unat page) (unat line)"
  note f = MemRegion_fields [OF assms(1)]
  have wf: "region_wf r" by (rule MemRegion_ok [OF assms(1,2)])
  have page: "mr_page_size r = page" using f(4) assms(5) by (simp add: leD)
  have np: "unat (mr_num_active_pages r) = ?np" and nl: "unat (mr_num_lines_in_page r) = ?nl"
    using wf f page by (simp_all add: region_wf_def unat_div)
  obtain lines k' where run: "page_random_init rs k r = ret (link_writes r
       (ring_links (addr_of (mr_addr1 r)) (page_order r lines)), k')"
    and ms: "mset lines = mset (line_grid ?nl (unat line))"
    and ne: "lines \<noteq> []" and h0: "hd lines = 0" and np0: "0 < ?np"
    using page_random_init_eq [OF wf, of rs k] assms(3-6) f page np nl by auto
  have nl0: "0 < ?nl" using ne mset_eq_length [OF ms] by (cases "?nl") auto
  have perm: "mset (page_order r lines) = mset ?grid"
    using page_order_perm [of lines r] ms np nl f page by simp
  have ap: "cells_apart 8 ?grid" by (rule cells_apart_page_grid [OF _ assms(3)]) simp
  have "length ?grid \<noteq> 0" using np0 nl0 by simp
  then have gne: "?grid \<noteq> []" by blast
  have hd0: "hd (page_order r lines) = 0" using hd_page_order np np0 ne h0 by simp
  have fits: "\<forall>x \<in> set ?grid. x + 8 \<le> unat sz" using page_grid_fits [OF assms(3,2)] by blast
  note linked = linked_region(1) [OF perm ap gne fits hd0]
    linked_region(2) [OF perm ap gne fits hd0, where r = r]
  have "page_order r lines ! (n mod length (page_order r lines)) div unat page = (n div ?nl) mod ?np"
    for n using page_order_chunk [OF ms assms(3), of r n] nl0 np0 np page by simp
  with run perm hd0 linked show ?thesis
    by (intro exI [of _ "link_writes r (ring_links (addr_of (mr_addr1 r)) (page_order r lines))"]
        exI [of _ k'] exI [of _ "page_order r lines"]) simp
qed

lemma page_random_init_ring_witness:
  "\<exists>r. MemRegion small_env 64 64 32 8 NATIVE NONE = Inr r \<and>
    (\<exists>r' k' os. page_random_init (\<lambda>_. 5) 0 r = ret (r', k') \<and>
      mset os = mset [0, 8, 16, 24, 32, 40, 48, 56] \<and> distinct os \<and> hd os = 0 \<and>
      (\<forall>n. off_of (mr_addr1 r') (follow r' n (getStartPoint r')) = os ! (n mod length os)) \<and>
      (\<forall>n. off_of (mr_addr1 r') (follow r' n (getStartPoint r')) div 32 = (n div 4) mod 2))"
proof -
  obtain r where r: "MemRegion small_env 64 64 32 8 NATIVE NONE = Inr r"
    using small_region [of 64 32 8] by auto
  have grid: "page_grid 2 4 32 8 = [0, 8, 16, 24, 32, 40, 48, 56]" by code_simp
  show ?thesis
    using page_random_init_ring [OF r, of "\<lambda>_. 5" 0] r by (auto simp: grid)
qed

text \<open>
  C14. Random access over the whole region. For a region with at least one active page and
  one line per page, and at most \<open>2 ^ 32\<close> active lines, \<open>all_random_init\<close> succeeds
  whatever \<open>rand()\<close> returns and links all \<open>numActiveLines\<close> lines into one
  circular list that begins at offset 0; following the pointers visits each of them exactly
  once per lap.
\<close>

theorem all_random_init_ring:
  assumes "MemRegion env sz active page line mt ht = Inr r" and "active \<le> sz"
    and "8 \<le> unat line" and "line \<le> page" and "page \<le> active"
    and "(unat active div unat page) * (unat page div unat line) \<le> 2 ^ 32"
  shows "\<exists>r' k' os. all_random_init rs k r = ret (r', k') \<and>
    mset os = mset (line_grid ((unat active div unat page) * (unat page div unat line)) (unat line)) \<and>
    length os = unat (numActiveLines r) \<and> distinct os \<and> hd os = 0 \<and>
    (\<forall>n. off_of (mr_addr1 r') (follow r' n (getStartPoint r')) = os ! (n mod length os))"
proof -
  let ?np = "unat active div unat page" and ?nl = "unat page div unat line"
  let ?grid = "line_grid (?np * ?nl) (unat line)"
  note f = MemRegion_fields [OF assms(1)]
  have wf: "region_wf r" by (rule MemRegion_ok [OF assms(1,2)])
  have page: "mr_page_size r = page" using f(4) assms(5) by (simp add: leD)
  have np: "unat (mr_num_active_pages r) = ?np" and nl: "unat (mr_num_lines_in_page r) = ?nl"
    using wf f page by (simp_all add: region_wf_def unat_div)
  have np0: "0 < ?np" and nl0: "0 < ?nl"
    using assms(3,4,5) wf page by (auto simp: word_le_nat_alt div_greater_zero_iff region_wf_def unat_gt_0)
  have count: "?np * ?nl \<le> 4294967296" using assms(6) by simp
  obtain os k' where run: "all_random_init rs k r =
      ret (link_writes r (ring_links (addr_of (mr_addr1 r)) os), k')"
    and perm: "mset os = mset ?grid" and h0: "hd os = 0"
    by (rule all_random_init_eq [OF wf, of rs k, unfolded np nl f(3), OF assms(3) np0 nl0 count])
  have num: "unat (numActiveLines r) = ?np * ?nl"
    unfolding numActiveLines_def using assms(6) np nl by (subst unat_mult_64) simp_all
  have ap: "cells_apart 8 ?grid" by (rule cells_apart_line_grid [OF assms(3)])
  have "length ?grid \<noteq> 0" using np0 nl0 by simp
  then have gne: "?grid \<noteq> []" by blast
  have "?np * (?nl * unat line) \<le> ?np * unat page" by (rule mult_le_mono2) simp
  also have "\<dots> \<le> unat active" by simp
  also have "\<dots> \<le> unat sz" using assms(2) by (simp add: word_le_nat_alt)
  finally have cover: "?np * ?nl * unat line \<le> unat sz" by (simp add: mult.assoc)
  have fits: "\<forall>x \<in> set ?grid. x + 8 \<le> unat sz"
    using line_grid_bound [OF assms(3)] cover le_trans by blast
  note linked = linked_region(1) [OF perm ap gne fits h0]
    linked_region(2) [OF perm ap gne fits h0, where r = r]
  show ?thesis
    using run perm h0 linked num mset_eq_length [OF perm]
    by (intro exI [of _ "link_writes r (ring_links (addr_of (mr_addr1 r)) os)"]
        exI [of _ k'] exI [of _ os]) simp
qed

lemma all_random_init_ring_witness:
  "\<exists>r. MemRegion small_env 64 64 32 8 NATIVE NONE = Inr r \<and>
    (\<exists>r' k' os. all_random_init (\<lambda>n. of_nat n) 0 r = ret (r', k') \<and>
      mset os = mset [0, 8, 16, 24, 32, 40, 48, 56] \<and> length os = unat (numActiveLines r) \<and>
      distinct os \<and> hd os = 0 \<and>
      (\<forall>n. off_of (mr_addr1 r') (follow r' n (getStartPoint r')) = os ! (n mod length os)))"
proof -
  obtain r where r: "MemRegion small_env 64 64 32 8 NATIVE NONE = Inr r"
    using small_region [of 64 32 8] by auto
  have grid: "line_grid 8 8 = [0, 8, 16, 24, 32, 40, 48, 56]" by code_simp
  show ?thesis
    using all_random_init_ring [OF r, of "\<lambda>n. of_nat n" 0] r by (auto simp: grid)
qed

text \<open>
  C16. Sequential access. For a line size of at least 8 bytes, \<open>stride_init\<close> links the
  multiples of the line size below the active size, in increasing order, into one circular
  list; it does so exactly when the cell of the last of them fits into the region, and
  otherwise its final store is outside the region's memory.
\<close>

theorem stride_init_ring:
  assumes "MemRegion env sz active page line mt ht = Inr r" and "active \<le> sz"
    and "8 \<le> unat line" and "0 < active" and "unat active + unat line \<le> 2 ^ 64"
  defines "n \<equiv> (unat active + unat line - 1) div unat line"
  shows "if (n - 1) * unat line + 8 \<le> unat sz
    then \<exists>r'. stride_init r = ret r' \<and>
      (\<forall>k. off_of (mr_addr1 r') (follow r' k (getStartPoint r')) = (k mod n) * unat line)
    else stride_init r = fail Out_Of_Bounds"
proof -
  note f = MemRegion_fields [OF assms(1)]
  have n: "stride_lines r = n" by (simp add: stride_lines_def f n_def)
  have a0: "0 < unat (mr_active_size r)" using assms(4) f by (simp add: word_less_nat_alt)
  have l0: "0 < unat (mr_line_size r)" using assms(3) f by simp
  note bd = stride_lines_bounds [OF a0 l0, unfolded n]
  have eq: "stride_init r =
    (if (n - 1) * unat line + 8 \<le> unat sz
     then ret (link_writes r (ring_links (addr_of (mr_addr1 r)) (line_grid n (unat line))))
     else fail Out_Of_Bounds)"
    using stride_init_eq [OF a0] assms(2,3,5) f n by (simp add: word_le_nat_alt)
  show ?thesis
  proof (cases "(n - 1) * unat line + 8 \<le> unat sz")
    case True
    let ?os = "line_grid n (unat line)"
    have fits: "\<forall>x \<in> set ?os. x + 8 \<le> unat sz"
    proof
      fix x assume "x \<in> set ?os"
      then obtain i where i: "x = i * unat line" "i < n" by (rule in_line_gridE)
      then have "i * unat line \<le> (n - 1) * unat line" by (intro mult_le_mono1) simp
      then show "x + 8 \<le> unat sz" using True i(1) by linarith
    qed
    have ne: "?os \<noteq> []" and h0: "hd ?os = 0" using bd(1) by (simp_all add: line_grid_def hd_map)
    have "?os ! (k mod length ?os) = (k mod n) * unat line" for k
      using bd(1) by (simp add: line_grid_def)
    with eq True linked_region(2) [OF refl cells_apart_line_grid [OF assms(3)] ne fits h0, where r = r]
    show ?thesis by simp
  qed (simp add: eq)
qed

lemma stride_init_ring_witness:
  "(\<exists>r. MemRegion small_env 72 72 72 32 NATIVE NONE = Inr r \<and>
    (\<exists>r'. stride_init r = ret r' \<and>
      (\<forall>k. off_of (mr_addr1 r') (follow r' k (getStartPoint r')) = (k mod 3) * 32)))
   \<and> (\<exists>r. MemRegion small_env 1024 1024 1024 60 NATIVE NONE = Inr r \<and>
    stride_init r = fail Out_Of_Bounds)"
proof -
  obtain r1 where r1: "MemRegion small_env 72 72 72 32 NATIVE NONE = Inr r1"
    using small_region [of 72 72 32] by auto
  obtain r2 where r2: "MemRegion small_env 1024 1024 1024 60 NATIVE NONE = Inr r2"
    using small_region [of 1024 1024 60] by auto
  show ?thesis
    using stride_init_ring [OF r1] r1 stride_init_ring [OF r2] r2 by auto
qed

section \<open>The shuffle\<close>

text \<open>
  C19. The shuffle is a permutation. For up to \<open>2 ^ 32\<close> elements whose offsets do not
  overflow, \<open>randomizeSequence_\<close> returns, whatever \<open>rand()\<close> yields; the result holds
  each offset \<open>i * unit\<close> exactly once and starts with offset 0.
\<close>

theorem randomizeSequence_correct:
  assumes "0 < unat sz" and "unat sz \<le> 2 ^ 32" and "unit_size \<noteq> 0"
    and "unat sz * unat unit_size < 2 ^ 64"
  shows "\<exists>seq k'. randomizeSequence rs k sz unit_size False = ret (seq, k') \<and>
    mset (map unat seq) = mset (line_grid (unat sz) (unat unit_size)) \<and> hd seq = 0"
proof -
  have a: "unat sz * unat unit_size < 18446744073709551616" "unat sz \<le> 4294967296"
    using assms by simp_all
  obtain seq k' where "randomizeSequence rs k sz unit_size False = ret (seq, k')"
    and ms: "mset seq = mset (sequential sz unit_size)" and "hd seq = 0"
    using randomizeSequence_perm [OF assms(1,3) a] by metis
  moreover have "mset (map unat seq) = mset (line_grid (unat sz) (unat unit_size))"
    using ms unat_sequential [OF a(1)] by (metis line_grid_def mset_map)
  ultimately show ?thesis by blast
qed

lemma randomizeSequence_correct_witness:
  "\<exists>seq k'. randomizeSequence (\<lambda>n. of_nat (n * n + 3)) 0 5 64 False = ret (seq, k') \<and>
    mset (map unat seq) = mset [0, 64, 128, 192, 256] \<and> hd seq = 0"
proof -
  have grid: "line_grid 5 64 = [0, 64, 128, 192, 256]" by code_simp
  show ?thesis
    using randomizeSequence_correct [of "5 :: u64" 64 "\<lambda>n. of_nat (n * n + 3)" 0]
    by (simp add: grid)
qed

text \<open>
  C36. The bound of C4 is needed. The loop of \<open>randomizeSequence_\<close> that moves offset 0 to
  the front counts with a \<open>uint32_t\<close> up to a \<open>uint64_t\<close>: with more than \<open>2 ^ 32\<close>
  elements there are results of \<open>rand()\<close> (all zeros, for one) for which it never ends.
\<close>

theorem randomizeSequence_may_hang:
  assumes "2 ^ 32 < unat sz" and "unit_size \<noteq> 0" and "unat sz * unat unit_size < 2 ^ 64"
  shows "diverges (randomizeSequence (\<lambda>_. 0) k sz unit_size False)"
  using randomizeSequence_zeros_diverges [of sz unit_size k] assms by simp

lemma randomizeSequence_may_hang_witness:
  "diverges (randomizeSequence (\<lambda>_. 0) 0 4294967297 64 False)"
  by (rule randomizeSequence_may_hang) simp_all

section \<open>Construction and allocation\<close>

text \<open>
  The size kept for \<open>munmap\<close>. When the allocation of a region with one of the four
  huge-page types succeeds, the recorded size is the least multiple of the huge-page size
  that is not below the requested size, as long as that does not exceed 64 bits; without
  huge pages it is the requested size.
\<close>

theorem allocNative_real_size:
  assumes "allocNative env mt ht sz = Inr (addr, real_size, policy)"
    and "ht \<in> {NONE, HGPG_2MB, HGPG_512MB, HGPG_1GB, HGPG_16GB}"
    and "unat sz + 2 ^ hugepage_size_log2 ht \<le> 2 ^ 64"
  shows "addr \<noteq> 0 \<and> unat sz \<le> unat real_size \<and>
    (if ht = NONE then real_size = sz
     else 2 ^ hugepage_size_log2 ht dvd unat real_size \<and>
          unat real_size < unat sz + 2 ^ hugepage_size_log2 ht)"
proof -
  have "hugepage_size_log2 ht < 64" using assms(2) by auto
  note spec = hugepage_real_size_spec [OF this assms(3)]
  have huge: "hugepage_type_code ht > hugepage_type_code NONE \<longleftrightarrow> ht \<noteq> NONE"
    using assms(2) by auto
  have "real_size = (if ht \<noteq> NONE then hugepage_real_size sz (hugepage_size_log2 ht) else sz)"
    and "addr \<noteq> 0"
    using assms(1) unfolding allocNative_def Let_def huge
    by (auto split: if_splits sum.splits)
  with spec show ?thesis by auto
qed

lemma allocNative_real_size_witness:
  "allocNative small_env NATIVE HGPG_2MB 5000000 = Inr (65536, 6291456, None) \<and>
   (65536 :: u64) \<noteq> 0 \<and> unat (5000000 :: u64) \<le> unat (6291456 :: u64) \<and>
   2 ^ 21 dvd unat (6291456 :: u64) \<and> unat (6291456 :: u64) < unat (5000000 :: u64) + 2 ^ 21"
proof -
  have a: "allocNative small_env NATIVE HGPG_2MB 5000000 = Inr (65536, 6291456, None)"
    by code_simp
  show ?thesis using allocNative_real_size [OF a] a by simp
qed

text \<open>
  What is released is what was allocated. Destroying a region with memory returns it
  exactly once, with \<open>munmap\<close> of the recorded size for huge pages and with \<open>free\<close>
  otherwise; destroying it a second time, or destroying an empty region, releases nothing.
\<close>

theorem MemRegion_destroy_once:
  assumes "MemRegion env sz active page line mt ht = Inr r"
  shows "fst (MemRegion_destroy r) =
      (if sz = 0 then []
       else if hugepage_type_code ht > 0 then [Munmap (mr_addr1 r) (mr_real_size r)]
       else [Free (mr_addr1 r)]) \<and>
    fst (MemRegion_destroy (snd (MemRegion_destroy r))) = []"
  using assms unfolding MemRegion_def Let_def allocNative_def MemRegion_destroy_def
  by (auto split: if_splits sum.splits simp: word_greater_zero_iff)

lemma MemRegion_destroy_once_witness:
  "\<exists>r. MemRegion small_env 64 64 32 8 NATIVE NONE = Inr r \<and>
    fst (MemRegion_destroy r) = [Free (mr_addr1 r)] \<and>
    fst (MemRegion_destroy (snd (MemRegion_destroy r))) = []"
proof -
  obtain r where r: "MemRegion small_env 64 64 32 8 NATIVE NONE = Inr r"
    using small_region [of 64 32 8] by auto
  show ?thesis using MemRegion_destroy_once [OF r] r by auto
qed

end
