(* ===== verification/Worker_Props.thy ===== *)
theory Worker_Props
  imports Worker_Routines Counted_Chases Region_Props
begin

text \<open>
  The properties of the memory workers: the initialised region supports the latency kernel,
  each measurement loop ends with an exact account of the work and the time when the clock
  reaches the target, and the region sizes for which it does not.
\<close>

section \<open>Regions ready for the latency kernel\<close>

definition chase_ready :: "mem_region \<Rightarrow> nat list \<Rightarrow> bool" where
  "chase_ready r os \<longleftrightarrow> ring_in r os \<and> hd os = 0 \<and> (\<forall>x \<in> set os. x + 8 \<le> unat (mr_size r))"

lemma linked_ready:
  fixes r :: mem_region
  assumes "mset os = mset offs" and "cells_apart 8 offs" and "offs \<noteq> []"
    and "\<forall>x \<in> set offs. x + 8 \<le> unat (mr_size r)" and "hd os = 0"
  shows "chase_ready (link_writes r (ring_links (addr_of (mr_addr1 r)) os)) os"
proof -
  have ap: "cells_apart 8 os" by (rule cells_apart_mset [OF assms(1,2)]) simp
  have "os \<noteq> []" using assms(1,3) by auto
  then have "ring_in (link_writes r (ring_links (addr_of (mr_addr1 r)) os)) os"
    using ap by (rule ring_in_link_writes)
  with assms show ?thesis by (simp add: chase_ready_def mset_eq_setD [OF assms(1)])
qed

text \<open>What the constructor and the options must satisfy for the three initialisations.\<close>

definition latency_sizes :: "nat \<Rightarrow> nat \<Rightarrow> nat \<Rightarrow> bool" where
  "latency_sizes sz page line \<longleftrightarrow>
     8 \<le> line \<and> line \<le> page \<and> page \<le> sz \<and> sz + line \<le> 2 ^ 64 \<and>
     (sz div page) * (page div line) \<le> 2 ^ 32 \<and> (sz - 1) div line * line + 8 \<le> sz"

text \<open>A whole region of such sizes.\<close>

definition latency_region :: "mem_region \<Rightarrow> bool" where
  "latency_region r \<longleftrightarrow>
     region_wf r \<and> mr_active_size r = mr_size r \<and>
     latency_sizes (unat (mr_size r)) (unat (mr_page_size r)) (unat (mr_line_size r))"

lemma latency_region_bounds:
  assumes "latency_region r"
  defines "np \<equiv> unat (mr_num_active_pages r)" and "nl \<equiv> unat (mr_num_lines_in_page r)"
  shows "8 \<le> unat (mr_line_size r)" "mr_line_size r \<le> mr_page_size r" "mr_page_size r \<le> mr_active_size r"
    and "np = unat (mr_size r) div unat (mr_page_size r)"
      "nl = unat (mr_page_size r) div unat (mr_line_size r)"
    and "0 < np" "0 < nl" "np * nl \<le> 4294967296" "nl \<le> 4294967296"
    and "np * nl * unat (mr_line_size r) \<le> unat (mr_size r)"
proof -
  let ?sz = "unat (mr_size r)" and ?page = "unat (mr_page_size r)" and ?line = "unat (mr_line_size r)"
  have s: "8 \<le> ?line" "?line \<le> ?page" "?page \<le> ?sz" "(?sz div ?page) * (?page div ?line) \<le> 4294967296"
    and wf: "region_wf r" "mr_active_size r = mr_size r"
    using assms(1) by (simp_all add: latency_region_def latency_sizes_def)
  show "8 \<le> unat (mr_line_size r)" "mr_line_size r \<le> mr_page_size r" "mr_page_size r \<le> mr_active_size r"
    using s wf by (simp_all add: word_le_nat_alt)
  show np: "np = ?sz div ?page" and nl: "nl = ?page div ?line"
    using wf by (simp_all add: np_def nl_def region_wf_def unat_div)
  show pos: "0 < np" "0 < nl" using s by (auto simp: np nl div_greater_zero_iff)
  show count: "np * nl \<le> 4294967296" using s np nl by simp
  have "nl \<le> np * nl" using pos(1) by simp
  with count show "nl \<le> 4294967296" by (rule le_trans [rotated])
  have "np * (nl * ?line) \<le> np * ?page" unfolding nl by (rule mult_le_mono2) simp
  also have "\<dots> \<le> ?sz" by (simp add: np)
  finally show "np * nl * ?line \<le> ?sz" by (simp add: mult.assoc)
qed

lemma page_random_ready:
  assumes "latency_region r"
  shows "\<exists>m os k. page_random_init rs 0 r = ret (r\<lparr>mr_bytes := m\<rparr>, k) \<and> chase_ready (r\<lparr>mr_bytes := m\<rparr>) os"
proof -
  note b = latency_region_bounds [OF assms]
  let ?grid = "page_grid (unat (mr_num_active_pages r)) (unat (mr_num_lines_in_page r))
    (unat (mr_page_size r)) (unat (mr_line_size r))"
  have wf: "region_wf r" using assms by (simp add: latency_region_def)
  obtain lines k' where run: "page_random_init rs 0 r = ret (link_writes r
       (ring_links (addr_of (mr_addr1 r)) (page_order r lines)), k')"
    and ms: "mset lines = mset (line_grid (unat (mr_num_lines_in_page r)) (unat (mr_line_size r)))"
    and ne: "lines \<noteq> []" and h0: "hd lines = 0"
    by (rule page_random_init_eq [OF wf b(1-3,9)])
  have "chase_ready (link_writes r (ring_links (addr_of (mr_addr1 r)) (page_order r lines))) (page_order r lines)"
  proof (rule linked_ready [OF page_order_perm [OF ms]])
    show "cells_apart 8 ?grid" by (rule cells_apart_page_grid [OF _ b(1)]) (simp add: b(5))
    have "length ?grid \<noteq> 0" using b(6,7) by simp
    then show "?grid \<noteq> []" by blast
    show "\<forall>x \<in> set ?grid. x + 8 \<le> unat (mr_size r)"
      using page_grid_fits [OF b(1), of "mr_size r" "mr_size r" _ "mr_page_size r"] by (simp add: b(4,5))
    show "hd (page_order r lines) = 0" using hd_page_order b(6) ne h0 by simp
  qed
  with run show ?thesis by auto
qed

lemma all_random_ready:
  assumes "latency_region r"
  shows "\<exists>m os k. all_random_init rs 0 r = ret (r\<lparr>mr_bytes := m\<rparr>, k) \<and> chase_ready (r\<lparr>mr_bytes := m\<rparr>) os"
proof -
  note b = latency_region_bounds [OF assms]
  let ?n = "unat (mr_num_active_pages r) * unat (mr_num_lines_in_page r)"
  let ?grid = "line_grid ?n (unat (mr_line_size r))"
  have wf: "region_wf r" using assms by (simp add: latency_region_def)
  obtain os k' where run: "all_random_init rs 0 r =
      ret (link_writes r (ring_links (addr_of (mr_addr1 r)) os), k')"
    and perm: "mset os = mset ?grid" and h0: "hd os = 0"
    by (rule all_random_init_eq [OF wf b(1,6-8)])
  have "chase_ready (link_writes r (ring_links (addr_of (mr_addr1 r)) os)) os"
  proof (rule linked_ready [OF perm _ _ _ h0])
    show "cells_apart 8 ?grid" by (rule cells_apart_line_grid [OF b(1)])
    have "length ?grid \<noteq> 0" using b(6,7) by simp
    then show "?grid \<noteq> []" by blast
    show "\<forall>x \<in> set ?grid. x + 8 \<le> unat (mr_size r)"
      using line_grid_bound [OF b(1)] b(10) le_trans by blast
  qed
  with run show ?thesis by auto
qed

lemma stride_ready:
  assumes "latency_region r"
  shows "\<exists>m os. stride_init r = ret (r\<lparr>mr_bytes := m\<rparr>) \<and> chase_ready (r\<lparr>mr_bytes := m\<rparr>) os"
proof -
  note b = latency_region_bounds [OF assms]
  let ?n = "stride_lines r" and ?sz = "unat (mr_size r)" and ?line = "unat (mr_line_size r)"
  let ?grid = "line_grid ?n ?line"
  have act: "mr_active_size r = mr_size r"
    and s: "latency_sizes ?sz (unat (mr_page_size r)) ?line"
    using assms by (simp_all add: latency_region_def)
  have a0: "0 < unat (mr_active_size r)" and l0: "0 < ?line"
    using s act by (auto simp: latency_sizes_def)
  note bd = stride_lines_bounds [OF a0 l0]
  have "?n = (?sz - 1 + ?line) div ?line"
    unfolding stride_lines_def act using a0 act by (simp add: algebra_simps)
  then have "?n - 1 = (?sz - 1) div ?line" using l0 by simp
  then have last: "(?n - 1) * ?line + 8 \<le> ?sz" using s by (simp add: latency_sizes_def)
  then have run: "stride_init r = ret (link_writes r (ring_links (addr_of (mr_addr1 r)) ?grid))"
    using stride_init_eq [OF a0 b(1)] s act by (simp add: latency_sizes_def)
  have "chase_ready (link_writes r (ring_links (addr_of (mr_addr1 r)) ?grid)) ?grid"
  proof (rule linked_ready [OF refl cells_apart_line_grid [OF b(1)]])
    show "?grid \<noteq> []" "hd ?grid = 0" using bd(1) by (simp_all add: line_grid_def hd_map)
    show "\<forall>x \<in> set ?grid. x + 8 \<le> ?sz"
    proof
      fix x assume "x \<in> set ?grid"
      then obtain i where i: "x = i * ?line" "i < ?n" by (rule in_line_gridE)
      then have "i * ?line \<le> (?n - 1) * ?line" by (intro mult_le_mono1) simp
      then show "x + 8 \<le> ?sz" using last i(1) by linarith
    qed
  qed
  with run show ?thesis by auto
qed

lemma init_region_ready:
  assumes "latency_region r"
  shows "\<exists>m os. init_region te pat r = ret (r\<lparr>mr_bytes := m\<rparr>) \<and> chase_ready (r\<lparr>mr_bytes := m\<rparr>) os"
  using stride_ready [OF assms] page_random_ready [OF assms, of "te_rand te"]
    all_random_ready [OF assms, of "te_rand te"]
  by (auto simp: init_region_def)

lemma latency_region_MemRegion:
  assumes "MemRegion env sz sz page line mt ht = Inr r" and "latency_sizes (unat sz) (unat page) (unat line)"
  shows "latency_region r"
  using MemRegion_ok [OF assms(1)] MemRegion_fields [OF assms(1)] assms(2)
  by (auto simp: latency_region_def latency_sizes_def word_less_nat_alt)


section \<open>The three loops meet the contract\<close>

text \<open>The latency kernel stands on a line of the ring, and has made 256 hops in every invocation.\<close>

definition chase_ok ::
    "mem_region \<Rightarrow> nat list \<Rightarrow> (kernel_state \<times> nat) loop_config \<Rightarrow> nat \<Rightarrow> u64 \<Rightarrow> kernel_state \<times> nat \<Rightarrow> bool" where
  "chase_ok r os c n i s \<longleftrightarrow>
     chase_ready r os \<and> lc_kernel c = (\<lambda>i. call_counting (Some kernel_lat)) \<and> lc_restart c = apfst rewind \<and>
     snd s = 256 * n \<and> (\<exists>acc j. j < length os \<and> fst s = (r, acc, addr_of (mr_addr1 r) (os ! j)))"

lemma chase_ok_rewind:
  assumes "chase_ready r os" and "lc_kernel c = (\<lambda>i. call_counting (Some kernel_lat))" and "lc_restart c = apfst rewind"
  shows "chase_ok r os c n i (apfst rewind ((r, acc, p), 256 * n))"
proof -
  have "os \<noteq> []" using assms(1) by (simp add: chase_ready_def ring_in_def is_ring_def)
  then have "0 < length os" "getStartPoint r = addr_of (mr_addr1 r) (os ! 0)"
    using assms(1) by (simp_all add: chase_ready_def getStartPoint_def getOffsetAddr_def addr_of_def hd_conv_nth)
  then show ?thesis using assms by (auto simp: chase_ok_def rewind_def)
qed

interpretation chase: loop_body "chase_ok r os" for r :: mem_region and os :: "nat list"
proof unfold_locales
  fix c n i b
  assume "chase_ok r os c n i b"
  then obtain acc j where h: "chase_ready r os" "lc_kernel c = (\<lambda>i. call_counting (Some kernel_lat))"
    "lc_restart c = apfst rewind" "j < length os" "b = ((r, acc, addr_of (mr_addr1 r) (os ! j)), 256 * n)"
    by (cases b) (auto simp: chase_ok_def)
  obtain acc' where "exec_kernel kernel_lat (fst b) = Inr (r, acc', addr_of (mr_addr1 r) (os ! ((j + 256) mod length os)))"
    using exec_kernel_lat [of r os j acc] h by (auto simp: chase_ready_def)
  moreover have "(j + 256) mod length os < length os" using h(4) by (intro mod_less_divisor) linarith
  ultimately show "\<exists>b'. lc_kernel c i b = Inr b' \<and> chase_ok r os c (Suc n) (i + 1) b'"
    using h by (auto simp: call_counting_def exec_counting_erase hops_kernel_lat chase_ok_def)
next
  fix c n b
  assume "chase_ok r os c n (lc_loop_count c) b"
  then obtain acc p where "chase_ready r os" "lc_kernel c = (\<lambda>i. call_counting (Some kernel_lat))"
    "lc_restart c = apfst rewind" "b = ((r, acc, p), 256 * n)"
    by (cases b) (auto simp: chase_ok_def)
  then show "chase_ok r os c n 0 (lc_restart c b)" using chase_ok_rewind by simp
qed

text \<open>The bandwidth kernel stands 8 KiB further on after each invocation of a pass.\<close>

definition stream_ok :: "kernel \<Rightarrow> mem_region \<Rightarrow> kernel_state loop_config \<Rightarrow> nat \<Rightarrow> u64 \<Rightarrow> kernel_state \<Rightarrow> bool" where
  "stream_ok k r0 c n i s \<longleftrightarrow>
     bandwidth_like k \<and> lc_kernel c = (\<lambda>i. call_kernel (Some k)) \<and> lc_restart c = rewind \<and>
     8192 * unat (lc_loop_count c) \<le> unat (mr_size r0) \<and>
     (\<exists>m acc. s = (r0\<lparr>mr_bytes := m\<rparr>, acc, addr_of (mr_addr1 r0) (8192 * unat i)))"

lemma stream_ok_rewind:
  assumes "bandwidth_like k" and "lc_kernel c = (\<lambda>i. call_kernel (Some k))" and "lc_restart c = rewind"
    and "8192 * unat (lc_loop_count c) \<le> unat (mr_size r)"
  shows "stream_ok k r c n 0 (rewind (r\<lparr>mr_bytes := m\<rparr>, acc, p))"
  using assms by (auto simp: stream_ok_def rewind_def getStartPoint_def getOffsetAddr_def addr_of_def)

interpretation stream: loop_body "stream_ok k r0" for k :: kernel and r0 :: mem_region
proof unfold_locales
  fix c n i b
  assume ok: "stream_ok k r0 c n i b" and i: "i < lc_loop_count c"
  then obtain m acc where h: "bandwidth_like k" "lc_kernel c = (\<lambda>i. call_kernel (Some k))"
    "lc_restart c = rewind" "8192 * unat (lc_loop_count c) \<le> unat (mr_size r0)"
    "b = (r0\<lparr>mr_bytes := m\<rparr>, acc, addr_of (mr_addr1 r0) (8192 * unat i))"
    by (auto simp: stream_ok_def)
  let ?r = "r0\<lparr>mr_bytes := m\<rparr>"
  have i1: "unat (i + 1) = Suc (unat i)"
    using unat_add_64 [of i 1] i unat_lt_64 [of "lc_loop_count c"] by (simp add: word_less_nat_alt)
  have "Suc (unat i) \<le> unat (lc_loop_count c)" using i by (simp add: word_less_nat_alt)
  then have "8192 * unat i + 8192 \<le> unat (mr_size ?r)" using h(4) by simp
  then obtain r' acc' where "exec_kernel k b = Inr (r', acc', addr_of (mr_addr1 ?r) (8192 * unat i + 8192))"
    and so: "same_outside (8192 * unat i) (8192 * unat i + 8192) ?r r'"
    using exec_streaming [of k "8192 * unat i" ?r acc] h(1,5) by (auto simp: bandwidth_like_def)
  moreover from so obtain m' where "r' = r0\<lparr>mr_bytes := m'\<rparr>" by (auto simp: same_outside_def)
  ultimately show "\<exists>b'. lc_kernel c i b = Inr b' \<and> stream_ok k r0 c (Suc n) (i + 1) b'"
    using h i1 by (auto simp: call_kernel_def stream_ok_def algebra_simps)
next
  fix c n b
  assume "stream_ok k r0 c n (lc_loop_count c) b"
  then show "stream_ok k r0 c n 0 (lc_restart c b)"
    using stream_ok_rewind [of k c r0] by (auto simp: stream_ok_def)
qed

text \<open>
  Every fragment of a pass lies inside both regions, and what the first pass has gone
  through, all of the region once it is over, equals the source.
\<close>

definition copy_ok :: "u64 \<Rightarrow> mem_region \<Rightarrow> mem_region \<Rightarrow> mem_region loop_config \<Rightarrow> nat \<Rightarrow> u64 \<Rightarrow> mem_region \<Rightarrow> bool" where
  "copy_ok frag src dst0 c n i dst \<longleftrightarrow>
     lc_kernel c = call_memcpy (Some glibc_memcpy) frag src \<and> lc_restart c = id \<and>
     (\<exists>m. dst = dst0\<lparr>mr_bytes := m\<rparr>) \<and>
     unat frag * unat (lc_loop_count c) \<le> min (unat (mr_size dst0)) (unat (mr_size src)) \<and>
     (n = unat i \<or> unat (lc_loop_count c) \<le> n) \<and>
     (\<forall>k < unat frag * min n (unat (lc_loop_count c)). mr_bytes dst k = mr_bytes src k)"

interpretation copy: loop_body "copy_ok frag src dst0" for frag :: u64 and src dst0 :: mem_region
proof unfold_locales
  fix c n i dst
  assume ok: "copy_ok frag src dst0 c n i dst" and i: "i < lc_loop_count c"
  let ?a = "unat frag * unat i" and ?count = "unat (lc_loop_count c)"
  have i1: "unat (i + 1) = Suc (unat i)"
    using unat_add_64 [of i 1] i unat_lt_64 [of "lc_loop_count c"] by (simp add: word_less_nat_alt)
  have "unat frag * Suc (unat i) \<le> unat frag * ?count"
    using i by (intro mult_le_mono2) (simp add: word_less_nat_alt)
  then have fit: "?a + unat frag \<le> unat (mr_size dst0)" "?a + unat frag \<le> unat (mr_size src)"
    using ok by (simp_all add: copy_ok_def)
  then have a: "unat (frag * i) = ?a" using unat_lt_64 [of "mr_size dst0"] by (intro unat_mult_64) simp
  have kernel: "lc_kernel c = call_memcpy (Some glibc_memcpy) frag src" "mr_size dst = mr_size dst0"
    using ok by (auto simp: copy_ok_def)
  define M where "M = (\<lambda>k. if ?a \<le> k \<and> k < ?a + unat frag then mr_bytes src k else mr_bytes dst k)"
  have M: "(\<lambda>k. if ?a \<le> k \<and> k < ?a + unat frag then mr_bytes src (?a + (k - ?a)) else mr_bytes dst k) = M"
    by (simp add: M_def fun_eq_iff)
  have "lc_kernel c i dst = Inr (dst\<lparr>mr_bytes := M\<rparr>)"
    using fit by (simp add: kernel call_memcpy_def glibc_memcpy_def a M)
  moreover have m: "M k = mr_bytes src k" if k: "k < unat frag * min (Suc n) ?count" for k
  proof (cases "n = unat i")
    case True
    then have "min n ?count = unat i" "min (Suc n) ?count = Suc (unat i)" using i by (simp_all add: word_less_nat_alt)
    with k ok show ?thesis by (simp add: copy_ok_def M_def)
  next
    case False
    then have "min n ?count = ?count" "min (Suc n) ?count = ?count" using ok by (simp_all add: copy_ok_def)
    with k ok show ?thesis by (simp add: copy_ok_def M_def)
  qed
  moreover have "\<exists>m'. dst\<lparr>mr_bytes := M\<rparr> = dst0\<lparr>mr_bytes := m'\<rparr>"
  proof -
    obtain m0 where "dst = dst0\<lparr>mr_bytes := m0\<rparr>" using ok by (auto simp: copy_ok_def)
    then show ?thesis by (intro exI [of _ M]) simp
  qed
  moreover have "Suc n = unat (i + 1) \<or> ?count \<le> Suc n" using ok i1 by (auto simp: copy_ok_def)
  ultimately have "copy_ok frag src dst0 c (Suc n) (i + 1) (dst\<lparr>mr_bytes := M\<rparr>)"
    using ok m by (simp add: copy_ok_def)
  with \<open>lc_kernel c i dst = Inr (dst\<lparr>mr_bytes := M\<rparr>)\<close>
  show "\<exists>b'. lc_kernel c i dst = Inr b' \<and> copy_ok frag src dst0 c (Suc n) (i + 1) b'" by blast
qed (auto simp: copy_ok_def)

end
