(* ===== verification/Region_Outcomes.thy ===== *)
theory Region_Outcomes
  imports Workers
begin

text \<open>
  How the initialisation of a region can end, whatever its sizes. It changes only the bytes;
  writing the lists fails with a bad access or a bad index, and the one division that can be
  by zero is that of the shuffle, for an empty sequence.
\<close>

section \<open>Writing the lists\<close>

text \<open>An outcome that is a region with the fields of \<open>r\<close>, or a failure other than a division.\<close>

definition links_only :: "mem_region \<Rightarrow> fault + mem_region \<Rightarrow> bool" where
  "links_only r x = (case x of Inl e \<Rightarrow> e \<noteq> Div_By_Zero | Inr r' \<Rightarrow> r' = r\<lparr>mr_bytes := mr_bytes r'\<rparr>)"

lemma links_only_simps [simp]:
  "links_only r (Inl e) \<longleftrightarrow> e \<noteq> Div_By_Zero"
  "links_only r (Inr r') \<longleftrightarrow> r' = r\<lparr>mr_bytes := mr_bytes r'\<rparr>"
  by (simp_all add: links_only_def)

lemma links_only_next:
  assumes "r' = r\<lparr>mr_bytes := m\<rparr>" and "links_only r' x"
  shows "links_only r x"
  using assms by (cases x) auto

lemma links_only_store: "links_only r (store_ptr r a v)"
  by (simp add: store_ptr_def)

lemma vec_at_fault: "vec_at xs i \<noteq> Inl Div_By_Zero"
  by (simp add: vec_at_def)

lemma plus_at_fault: "plus_at ps i ls j \<noteq> Inl Div_By_Zero"
  using vec_at_fault [of ps i] vec_at_fault [of ls j] by (auto simp: plus_at_def split: sum.split)

lemma links_only_link:
  assumes "a \<noteq> Inl Div_By_Zero" and "b \<noteq> Inl Div_By_Zero"
  shows "links_only r (link_at r a b)"
  using assms links_only_store by (auto simp: link_at_def split: sum.split)

lemma links_only_lines: "links_only r (line_loop r ls n i)"
proof (induction r ls n i rule: line_loop.induct)
  case (1 r ls n i)
  have l: "links_only r (link_at r (vec_at ls i) (vec_at ls (i + 1)))"
    by (intro links_only_link vec_at_fault)
  show ?case
  proof (cases "link_at r (vec_at ls i) (vec_at ls (i + 1))")
    case (Inr r')
    with 1 l links_only_next [of r' "mr_bytes r'" r] show ?thesis by (subst line_loop.simps) simp
  qed (use l in \<open>subst line_loop.simps, simp\<close>)
qed

lemma links_only_page: "links_only r (page_line_loop r ps ls i n j)"
proof (induction r ps ls i n j rule: page_line_loop.induct)
  case (1 r ps ls i n j)
  have l: "links_only r (link_at r (plus_at ps i ls j) (plus_at ps i ls (j + 1)))"
    by (intro links_only_link plus_at_fault)
  show ?case
  proof (cases "link_at r (plus_at ps i ls j) (plus_at ps i ls (j + 1))")
    case (Inr r')
    with 1 l links_only_next [of r' "mr_bytes r'" r] show ?thesis by (subst page_line_loop.simps) simp
  qed (use l in \<open>subst page_line_loop.simps, simp\<close>)
qed

lemma links_only_pages: "links_only r (page_loop r ps ls np nl i)"
proof (induction r ps ls np nl i rule: page_loop.induct)
  case (1 r ps ls np nl i)
  let ?next = "if i = np - 1 then 0 else i + 1"
  let ?link = "\<lambda>r. link_at r (plus_at ps i ls (nl - 1)) (plus_at ps ?next ls 0)"
  have p: "links_only r (page_line_loop r ps ls i (nl - 1) 0)" by (rule links_only_page)
  show ?case
  proof (cases "page_line_loop r ps ls i (nl - 1) 0")
    case r': (Inr r')
    have l: "links_only r' (?link r')" by (intro links_only_link plus_at_fault)
    note from_r = links_only_next [of r' "mr_bytes r'" r]
    show ?thesis
    proof (cases "?link r'")
      case (Inl e)
      with l r' p show ?thesis by (subst page_loop.simps) (simp add: Let_def)
    next
      case (Inr r'')
      have "i < np \<Longrightarrow> links_only r'' (page_loop r'' ps ls np nl (i + 1))"
        using 1 r' Inr by (simp add: Let_def)
      moreover have "r'' = r\<lparr>mr_bytes := mr_bytes r''\<rparr>" using l from_r [of "Inr r''"] p r' Inr by simp
      ultimately show ?thesis
        using r' Inr links_only_next [of r'' "mr_bytes r''" r] by (subst page_loop.simps) (simp add: Let_def)
    qed
  qed (use p in \<open>subst page_loop.simps, simp\<close>)
qed

lemma stride_loop_outcome:
  assumes "stride_loop r i = Some y"
  shows "links_only r (map_sum id fst y)"
  using assms
proof (rule stride_loop.raw_induct [rotated])
  fix f r i y
  assume IH: "\<And>r i y. f r i = Some y \<Longrightarrow> links_only r (map_sum id fst y)"
    and eq: "(if i < mr_active_size r
      then (case store_ptr r (i - mr_line_size r) (getOffsetAddr r i) of
              Inl e \<Rightarrow> fail e | Inr r' \<Rightarrow> f r' (i + mr_line_size r))
      else ret (r, i)) = Some y"
  show "links_only r (map_sum id fst y)"
  proof (cases "store_ptr r (i - mr_line_size r) (getOffsetAddr r i)")
    case (Inl e)
    with eq links_only_store [of r "i - mr_line_size r" "getOffsetAddr r i"] show ?thesis by (auto split: if_splits)
  next
    case (Inr r')
    have "r' = r\<lparr>mr_bytes := mr_bytes r'\<rparr>" using links_only_store [of r "i - mr_line_size r" "getOffsetAddr r i"] Inr by simp
    from links_only_next [OF this] IH [of r' "i + mr_line_size r" y] eq Inr show ?thesis by (auto split: if_splits)
  qed
qed

lemma stride_init_outcome:
  assumes "stride_init r = Some x"
  shows "links_only r x"
proof -
  obtain y where y: "stride_loop r (mr_line_size r) = Some y"
    using assms by (cases "stride_loop r (mr_line_size r)") (auto simp: stride_init_def)
  note o = stride_loop_outcome [OF y]
  show ?thesis
  proof (cases y)
    case (Inr p)
    then obtain r' i where p: "y = Inr (r', i)" by (cases p) simp
    have "r' = r\<lparr>mr_bytes := mr_bytes r'\<rparr>" using o p by simp
    moreover have "x = store_ptr r' (i - mr_line_size r) (getOffsetAddr r' 0)"
      using assms y p by (simp add: stride_init_def)
    ultimately show ?thesis using links_only_next [OF _ links_only_store] by blast
  qed (use assms y o in \<open>simp add: stride_init_def\<close>)
qed

section \<open>The shuffle\<close>

text \<open>\<open>i + 1\<close> is zero only where the loop starts at the largest number.\<close>

lemma shuffle_loop_div: "shuffle_loop rs k r i s = Inl Div_By_Zero \<longleftrightarrow> i = - 1"
proof (induction rs k r i s rule: shuffle_loop.induct)
  case (1 rs k r i s)
  have m: "i + 1 = 0 \<longleftrightarrow> i = - 1" using eq_neg_iff_add_eq_0 by metis
  have dec: "i > 0 \<Longrightarrow> i - 1 \<noteq> - 1" by auto
  show ?case
  proof (cases "i > 0")
    case True
    then show ?thesis
      using 1 [OF True refl] m dec
      by (subst shuffle_loop.simps) (auto simp: Let_def)
  next
    case False
    then have "i = 0" using word_neq_0_conv by blast
    then show ?thesis by (subst shuffle_loop.simps) simp
  qed
qed

lemma randomizeSequence_div:
  "randomizeSequence rs k sz unit in_order = fail Div_By_Zero \<longleftrightarrow> \<not> in_order \<and> sz = 0"
proof -
  have "sz - 1 = - 1 \<longleftrightarrow> sz = 0" by (simp add: diff_eq_eq)
  then show ?thesis
    using shuffle_loop_div [of rs "Suc (Suc k)" _ "sz - 1" "sequential sz unit"]
    by (auto simp: randomizeSequence_def Let_def split: sum.split option.split)
qed

section \<open>Initialising a region\<close>

lemma page_random_init_outcome:
  "page_random_init rs k r = fail Div_By_Zero \<longleftrightarrow> mr_num_lines_in_page r = 0"
  "page_random_init rs k r = ret (r', k') \<Longrightarrow> r' = r\<lparr>mr_bytes := mr_bytes r'\<rparr>"
proof -
  let ?pages = "sequential (mr_num_active_pages r) (mr_page_size r)"
  have first: "randomizeSequence rs k (mr_num_active_pages r) (mr_page_size r) True = ret (?pages, k)"
    by (simp add: randomizeSequence_def)
  let ?second = "randomizeSequence rs k (mr_num_lines_in_page r) (mr_line_size r) False"
  note div = randomizeSequence_div [of rs k "mr_num_lines_in_page r" "mr_line_size r" False]
  note loop = links_only_pages [of r ?pages _ "mr_num_active_pages r" "mr_num_lines_in_page r" 0]
  show "page_random_init rs k r = fail Div_By_Zero \<longleftrightarrow> mr_num_lines_in_page r = 0"
  proof (cases "\<exists>ls k2. ?second = ret (ls, k2)")
    case True
    then obtain ls k2 where s: "?second = ret (ls, k2)" by blast
    have "page_loop r ?pages ls (mr_num_active_pages r) (mr_num_lines_in_page r) 0 \<noteq> Inl Div_By_Zero"
      using loop [of ls] by auto
    then show ?thesis
      using div s by (cases "page_loop r ?pages ls (mr_num_active_pages r) (mr_num_lines_in_page r) 0")
        (auto simp: page_random_init_def first)
  next
    case False
    then consider "?second = None" | e where "?second = fail e"
      by (cases ?second) (auto simp: split: sum.splits, metis old.prod.exhaust sum.exhaust)
    then show ?thesis using div by cases (auto simp: page_random_init_def first)
  qed
  show "r' = r\<lparr>mr_bytes := mr_bytes r'\<rparr>" if "page_random_init rs k r = ret (r', k')"
  proof -
    from that obtain ls k2 where
      "map_sum id (\<lambda>r'. (r', k2)) (page_loop r ?pages ls (mr_num_active_pages r) (mr_num_lines_in_page r) 0) = Inr (r', k')"
      by (auto simp: page_random_init_def first elim!: andthen_eq_retE)
    with loop [of ls] show ?thesis
      by (cases "page_loop r ?pages ls (mr_num_active_pages r) (mr_num_lines_in_page r) 0") auto
  qed
qed

lemma all_random_init_outcome:
  "all_random_init rs k r = fail Div_By_Zero \<longleftrightarrow> numActiveLines r = 0"
  "all_random_init rs k r = ret (r', k') \<Longrightarrow> r' = r\<lparr>mr_bytes := mr_bytes r'\<rparr>"
proof -
  let ?n = "numActiveLines r"
  let ?s = "randomizeSequence rs k ?n (mr_line_size r) False"
  note div = randomizeSequence_div [of rs k ?n "mr_line_size r" False]
  have body: "links_only r (case line_loop r ls (?n - 1) 0 of Inl e \<Rightarrow> Inl e
      | Inr r' \<Rightarrow> link_at r' (vec_at ls (?n - 1)) (vec_at ls 0))" for ls
  proof (cases "line_loop r ls (?n - 1) 0")
    case (Inl e)
    with links_only_lines [of r ls "?n - 1" 0] show ?thesis by simp
  next
    case (Inr r1)
    have "r1 = r\<lparr>mr_bytes := mr_bytes r1\<rparr>" using links_only_lines [of r ls "?n - 1" 0] Inr by simp
    from links_only_next [OF this links_only_link [OF vec_at_fault vec_at_fault]] Inr show ?thesis by simp
  qed
  have run: "all_random_init rs k r = andthen ?s (\<lambda>(ls, k'). Some (map_sum id (\<lambda>r''. (r'', k'))
      (case line_loop r ls (?n - 1) 0 of Inl e \<Rightarrow> Inl e | Inr r' \<Rightarrow> link_at r' (vec_at ls (?n - 1)) (vec_at ls 0))))"
    unfolding all_random_init_def Let_def by (rule arg_cong [of _ _ "andthen ?s"]) (auto split: sum.split)
  show "all_random_init rs k r = fail Div_By_Zero \<longleftrightarrow> ?n = 0"
  proof (cases "\<exists>ls k2. ?s = ret (ls, k2)")
    case True
    then obtain ls k2 where s: "?s = ret (ls, k2)" by blast
    show ?thesis
      using div s body [of ls]
      by (cases "case line_loop r ls (?n - 1) 0 of Inl e \<Rightarrow> Inl e | Inr r' \<Rightarrow> link_at r' (vec_at ls (?n - 1)) (vec_at ls 0)")
         (auto simp: run)
  next
    case False
    then consider "?s = None" | e where "?s = fail e"
      by (cases ?s) (auto simp: split: sum.splits, metis old.prod.exhaust sum.exhaust)
    then show ?thesis using div by cases (auto simp: run)
  qed
  show "r' = r\<lparr>mr_bytes := mr_bytes r'\<rparr>" if "all_random_init rs k r = ret (r', k')"
  proof -
    from that obtain ls k2 where
      "map_sum id (\<lambda>r''. (r'', k2)) (case line_loop r ls (?n - 1) 0 of Inl e \<Rightarrow> Inl e
        | Inr r' \<Rightarrow> link_at r' (vec_at ls (?n - 1)) (vec_at ls 0)) = Inr (r', k')"
      by (auto simp: run elim!: andthen_eq_retE)
    with body [of ls] show ?thesis
      by (cases "case line_loop r ls (?n - 1) 0 of Inl e \<Rightarrow> Inl e | Inr r' \<Rightarrow> link_at r' (vec_at ls (?n - 1)) (vec_at ls 0)") auto
  qed
qed

lemma init_region_keeps:
  assumes "init_region te pat r = ret r'"
  shows "r' = r\<lparr>mr_bytes := mr_bytes r'\<rparr>"
  using assms stride_init_outcome [of r "Inr r'"] page_random_init_outcome(2) [of "te_rand te" 0 r r']
    all_random_init_outcome(2) [of "te_rand te" 0 r r']
  by (auto simp: init_region_def split: if_splits elim!: andthen_eq_retE)

lemma init_region_div:
  "init_region te pat r = fail Div_By_Zero \<longleftrightarrow>
     pat \<noteq> 0 \<and> (if pat = 2 then numActiveLines r = 0 else mr_num_lines_in_page r = 0)"
proof -
  have wrap: "andthen m (\<lambda>(r', k). ret r') = fail Div_By_Zero \<longleftrightarrow> m = fail Div_By_Zero" for m :: "(mem_region \<times> nat) run"
    by (auto simp: andthen_def split: option.splits sum.splits)
  have "stride_init r \<noteq> fail Div_By_Zero" using stride_init_outcome [of r "Inl Div_By_Zero"] by auto
  then show ?thesis
    using page_random_init_outcome(1) [of "te_rand te" 0 r] all_random_init_outcome(1) [of "te_rand te" 0 r]
    by (auto simp: init_region_def wrap)
qed

section \<open>Regions without lines\<close>

text \<open>The page size of a region, with the constructor's correction.\<close>

definition page_in_effect :: "nat \<Rightarrow> nat \<Rightarrow> nat" where
  "page_in_effect active page = (if active < page then 4096 else page)"

lemma MemRegion_no_lines:
  assumes "MemRegion env sz active page line mt ht = Inr r"
  defines "pg \<equiv> page_in_effect (unat active) (unat page)"
  shows "mr_num_lines_in_page r = 0 \<longleftrightarrow> pg < unat line"
    and "numActiveLines r = 0 \<longleftrightarrow> pg < unat line \<or> unat active < pg"
proof -
  let ?p = "if page > active then 4096 else page :: u64"
  have up: "unat ?p = pg" by (simp add: pg_def page_in_effect_def word_less_nat_alt)
  have r: "mr_num_active_pages r = active div ?p" "mr_num_lines_in_page r = ?p div line" "page \<noteq> 0" "line \<noteq> 0"
    using assms(1) by (auto simp: MemRegion_def Let_def split: if_splits sum.splits)
  have l0: "0 < unat line" using r(4) by (simp add: unat_gt_0)
  have p0: "0 < pg" using r(3) by (simp add: pg_def page_in_effect_def unat_gt_0)
  have lines: "unat (mr_num_lines_in_page r) = pg div unat line" by (simp only: r(2) unat_div up)
  have pages: "unat (mr_num_active_pages r) = unat active div pg" by (simp only: r(1) unat_div up)
  show z: "mr_num_lines_in_page r = 0 \<longleftrightarrow> pg < unat line"
    using lines l0 by (simp add: unat_eq_zero [symmetric] div_eq_0_iff del: unat_eq_zero)
  have "unat active div pg * (pg div unat line) \<le> unat active div pg * pg" by (intro mult_le_mono2) simp
  also have "\<dots> \<le> unat active" by simp
  also have "\<dots> < 2 ^ 64" using unat_lt_64 by simp
  finally have "unat (numActiveLines r) = unat active div pg * (pg div unat line)"
    unfolding numActiveLines_def by (subst unat_mult_64) (simp_all add: lines pages)
  then show "numActiveLines r = 0 \<longleftrightarrow> pg < unat line \<or> unat active < pg"
    using l0 p0 by (auto simp: unat_eq_zero [symmetric] div_eq_0_iff simp del: unat_eq_zero)
qed

end
