(* ===== verification/Write_Traffic.thy ===== *)
theory Write_Traffic
  imports Workers Kernel_Props
begin

text \<open>
  How precise the byte count of \<open>bw_sequential\<close> is: \<open>finished_bytes += finished_bytes *
  write_fraction\<close> goes through \<open>float\<close> and rounds three times.
\<close>

lemma write_fraction_bounds: "0 \<le> get_write_fraction m \<and> get_write_fraction m \<le> 1"
proof -
  have "m = 3 \<Longrightarrow> ?thesis" using write_fractions(4) unfolding abs_less_iff by simp
  moreover have "m \<noteq> 3 \<Longrightarrow> get_write_fraction m = get_write_fraction 0 \<or>
      get_write_fraction m = get_write_fraction 1 \<or> get_write_fraction m = get_write_fraction 2"
    by (auto simp: get_write_fraction_def)
  ultimately show ?thesis using write_fractions(1-3) by fastforce
qed

lemma near_bounds:
  fixes x y :: rat
  assumes "\<bar>y - x\<bar> \<le> x / 16777216" and "0 \<le> x"
  shows "0 \<le> y" "y \<le> 2 * x"
  using abs_le_D1 [OF assms(1)] abs_le_D2 [OF assms(1)] assms(2) by linarith+

lemma single_error: "0 \<le> x \<Longrightarrow> \<bar>single x - x\<bar> \<le> x / 16777216"
  using rnd_error [of 24 x] by (simp add: power_int_minus field_simps)

lemma three_errors:
  fixes b bw f fw g t :: rat
  assumes f: "\<bar>f - b\<bar> \<le> b / 16777216" and fw: "\<bar>fw - bw\<bar> \<le> bw / 16777216"
    and g: "\<bar>g - fw\<bar> \<le> fw / 16777216" and t: "\<bar>t - (f + g)\<bar> \<le> (f + g) / 16777216"
    and "0 \<le> b" and "0 \<le> bw"
  shows "\<bar>t - (b + bw)\<bar> \<le> 7 * (b + bw) / 16777216"
proof -
  note f2 = near_bounds [OF f assms(5)] and fw2 = near_bounds [OF fw assms(6)]
  note g2 = near_bounds [OF g fw2(1)]
  note D = abs_le_D1 [OF f] abs_le_D2 [OF f] abs_le_D1 [OF fw] abs_le_D2 [OF fw]
    abs_le_D1 [OF g] abs_le_D2 [OF g] abs_le_D1 [OF t] abs_le_D2 [OF t]
  note bounds = D [unfolded add_divide_distrib] f2 fw2 g2 assms(5,6)
  show ?thesis unfolding distrib_left add_divide_distrib
    by (rule abs_leI; use bounds in linarith)
qed

text \<open>Three roundings to \<open>float\<close> cost at most seven parts in \<open>2 ^ 24\<close>.\<close>

lemma float_sum_error:
  assumes "0 \<le> b" and "0 \<le> w" and "w \<le> 1"
  shows "\<bar>single (single b + single (single b * w)) - b * (1 + w)\<bar> \<le> 7 * (b * (1 + w)) / 16777216"
proof -
  define f where "f = single b"
  define g where "g = single (f * w)"
  have f: "\<bar>f - b\<bar> \<le> b / 16777216" unfolding f_def by (rule single_error [OF assms(1)])
  note f0 = near_bounds [OF f assms(1)]
  have fw0: "0 \<le> f * w" "f * w \<le> 2 * (b * w)"
    using f0 assms(2) mult_right_mono [OF f0(2) assms(2)] by simp_all
  have g: "\<bar>g - f * w\<bar> \<le> f * w / 16777216" unfolding g_def by (rule single_error [OF fw0(1)])
  note g0 = near_bounds [OF g fw0(1)]
  have s: "\<bar>single (f + g) - (f + g)\<bar> \<le> (f + g) / 16777216" using f0 g0 by (intro single_error) simp
  have "\<bar>(f - b) * w\<bar> \<le> b / 16777216 * w" unfolding abs_mult using f assms by (intro mult_mono) simp_all
  then have fwb: "\<bar>f * w - b * w\<bar> \<le> b * w / 16777216" by (simp add: left_diff_distrib)
  have "b * (1 + w) = b + b * w" "0 \<le> b * w" using assms by (simp_all add: algebra_simps)
  with three_errors [OF f fwb g s assms(1)] show ?thesis
    unfolding f_def [symmetric] g_def [symmetric] by simp
qed

lemma add_write_bytes_near:
  fixes n :: nat
  assumes "n < 2 ^ 62" and "0 \<le> w" and "w \<le> 1"
  shows "\<exists>t. to_unsigned 64 (single (single (of_nat n) + single (single (of_nat n) * w))) = Inr t \<and>
    0 \<le> t \<and> t < 2 ^ 64 \<and> \<bar>of_int t - of_nat n * (1 + w)\<bar> \<le> of_nat n * (1 + w) / 2 ^ 21 + 1"
proof -
  define y where "y = of_nat n * (1 + w)"
  define s where "s = single (single (of_nat n) + single (single (of_nat n) * w))"
  have n0: "0 \<le> (of_nat n :: rat)" by (rule of_nat_0_le_iff)
  have err: "\<bar>s - y\<bar> \<le> 7 * y / 16777216"
    unfolding s_def y_def using n0 assms(2,3) by (rule float_sum_error)
  have "(of_nat n :: rat) < of_nat (2 ^ 62)" using assms(1) by (simp only: of_nat_less_iff)
  then have n62: "(of_nat n :: rat) < 4611686018427387904" by simp
  have y: "0 \<le> y" "y \<le> of_nat n * 2"
    unfolding y_def using n0 assms(2,3) by (simp, intro mult_left_mono) simp_all
  note e = abs_le_D1 [OF err] abs_le_D2 [OF err]
  have s: "0 \<le> s" "s < 18446744073709551615" using e y n62 by linarith+
  define t where "t = \<lfloor>s\<rfloor>"
  have t: "of_int t \<le> s" "s < of_int t + 1" unfolding t_def by linarith+
  have t0: "0 \<le> t" using s(1) by (simp add: t_def)
  have t64: "t < 2 ^ 64" using s(2) by (simp add: t_def floor_less_iff)
  have "\<bar>of_int t - y\<bar> \<le> y / 2097152 + 1"
    by (rule abs_leI; use e t y(1) in linarith)
  moreover have "to_unsigned 64 s = Inr t" using s t64 by (simp add: to_unsigned_def t_def)
  ultimately show ?thesis using t0 t64 unfolding y_def s_def by auto
qed

lemma add_write_bytes_close:
  assumes "unat b < 2 ^ 62"
  shows "\<exists>bytes. add_write_bytes b (get_write_fraction m) = Inr bytes \<and>
    \<bar>of_nat (unat bytes) - of_nat (unat b) * (1 + get_write_fraction m)\<bar>
      \<le> of_nat (unat b) * (1 + get_write_fraction m) / 2 ^ 21 + 1"
proof -
  obtain t where t: "to_unsigned 64 (single (single (of_nat (unat b)) +
        single (single (of_nat (unat b)) * get_write_fraction m))) = Inr t" "0 \<le> t" "t < 2 ^ 64"
    and near: "\<bar>of_int t - of_nat (unat b) * (1 + get_write_fraction m)\<bar>
      \<le> of_nat (unat b) * (1 + get_write_fraction m) / 2 ^ 21 + 1"
    using add_write_bytes_near [OF assms] write_fraction_bounds [of m] by blast
  have "unat (word_of_int t :: u64) = nat t"
    using t(2,3) by (simp add: unat_eq_nat_uint uint_word_of_int)
  then have bytes: "(of_nat (unat (word_of_int t :: u64)) :: rat) = of_int t"
    using t(2) by (simp only: of_nat_nat)
  have "add_write_bytes b (get_write_fraction m) = Inr (word_of_int t)"
    unfolding add_write_bytes_def Let_def t(1) by simp
  with near show ?thesis unfolding bytes [symmetric] by blast
qed

end
