(* ===== verification/Measurements.thy ===== *)
theory Measurements
  imports Worker_Props Region_Outcomes Write_Traffic
begin

text \<open>
  The measurements as the programs run them: an allocation followed by a measurement loop on
  its region. When the clock reaches the target the loops return exact accounts of their
  work and time; on a region smaller than one kernel invocation they never return.
\<close>

section \<open>Latency\<close>

lemma lat_config_fields:
  "unat (lc_unit (lat_config te p r)) = 256"
  "lc_chkpt (lat_config te p r) = chkpt_chases (pk_ref_latency_ps p) (mr_active_size r)"
  "lc_clock (lat_config te p r) = te_clock te"
  by (simp_all add: lat_config_def)

text \<open>The worker with its counter: the hops it reports are those its kernel has made.\<close>

lemma lat_ptr_counts:
  assumes ready: "chase_ready r os" and packet: "pk_mem_region p = Some r" "pk_kernel_lat p = Some kernel_lat"
    and line: "0 < unat (mr_line_size r)" and big: "256 * unat (mr_line_size r) \<le> unat (mr_active_size r)"
    and clock: "target_reached_at (lat_config te p r) K"
    and fit: "256 * nth_check 256 (unat (chkpt_chases (pk_ref_latency_ps p) (mr_active_size r))) K < 2 ^ 64"
      "K * unat (chkpt_chases (pk_ref_latency_ps p) (mr_active_size r)) < 2 ^ 64"
  defines "hops \<equiv> 256 * nth_check 256 (unat (chkpt_chases (pk_ref_latency_ps p) (mr_active_size r))) K"
  shows "lat_ptr_counting te p = ret (p\<lparr>pk_finished_chases := of_nat hops,
      pk_exec_time := double (double (of_int (te_clock te K - te_clock te 0)) / 10 ^ 9)\<rparr>, hops)"
proof -
  let ?c = "counting_config te p r"
  note c = counting_config_def Let_def lat_config_def
  have lb: "unat (256 * mr_line_size r) = 256 * unat (mr_line_size r)"
    using big unat_lt_64 [of "mr_active_size r"] unat_mult_64 [of 256 "mr_line_size r"] by simp
  then have l0: "256 * mr_line_size r \<noteq> 0" using line by (auto simp: unat_eq_zero [symmetric] simp del: unat_eq_zero)
  have "unat (lc_loop_count ?c) = unat (mr_active_size r) div (256 * unat (mr_line_size r))"
    by (simp add: c unat_div lb)
  then have n: "0 < lc_loop_count ?c" using big line by (simp add: word_less_nat_alt div_greater_zero_iff)
  have ok: "chase_ok r os ?c 0 0 (lc_restart ?c ((r, 0, 0), 0))"
    using chase_ok_rewind [OF ready, of ?c 0 0 0 0] packet(2) by (simp add: c)
  have "target_reached_at ?c K" using clock by (simp add: target_reached_at_def c)
  then obtain s where s: "run_loop ?c (loop_start ?c ((r, 0, 0), 0)) = ret s" "chase.loop_result r os ?c K s"
    using chase.run_loop_returns [OF ok n] fit by (auto simp: c)
  then have "lat_ptr_counting te p = ret (lat_finish (on_body fst s) p, snd (ls_body s))"
    using packet l0 by (simp add: lat_ptr_counting_def Let_def)
  moreover have "fst (fst (ls_body s)) = r" "snd (ls_body s) = hops"
    using s(2) by (auto simp: chase.loop_result_def chase_ok_def c hops_def simp del: nth_check.simps)
  ultimately show ?thesis
    using s(2) packet(1)
    by (simp add: lat_finish_def on_body_def chase.loop_result_def getElapsedTime_def elapsed_in_def c hops_def
        del: nth_check.simps)
qed

lemmas lat_ptr_returns = lat_ptr_counts [THEN lat_ptr_counting_erase]

section \<open>Bandwidth\<close>

lemma bw_config_fields:
  "unat (lc_unit (bw_config te p mbps r)) = 8192"
  "lc_chkpt (bw_config te p mbps r) = chkpt_bytes mbps"
  "lc_clock (bw_config te p mbps r) = te_clock te"
  "lc_kernel (bw_config te p mbps r) = (\<lambda>i. call_kernel (pk_kernel_bw p))"
  "lc_restart (bw_config te p mbps r) = rewind"
  "unat (lc_loop_count (bw_config te p mbps r)) = unat (mr_active_size r) div 8192"
  by (simp_all add: bw_config_def unat_div)

lemma bw_sequential_returns:
  assumes k: "bandwidth_like k" and packet: "pk_mem_region p = Some r" "pk_kernel_bw p = Some k"
      "per_core_bw_mbps p = Inr mbps"
    and big: "8192 \<le> unat (mr_active_size r)" "mr_active_size r \<le> mr_size r"
    and clock: "target_reached_at (bw_config te p mbps r) K"
    and fit: "8192 * nth_check 8192 (unat (chkpt_bytes mbps)) K < 2 ^ 62" "K * unat (chkpt_bytes mbps) < 2 ^ 64"
  defines "done \<equiv> 8192 * nth_check 8192 (unat (chkpt_bytes mbps)) K"
    and "f \<equiv> get_write_fraction (pk_read_write_mix p)"
  shows "\<exists>m bytes. bw_sequential te p = ret (p\<lparr>pk_mem_region := Some (r\<lparr>mr_bytes := m\<rparr>), pk_finished_bytes := bytes,
        pk_exec_time := double (double (of_int (te_clock te K - te_clock te 0)) / 10 ^ 9)\<rparr>) \<and>
      \<bar>of_nat (unat bytes) - of_nat done * (1 + f)\<bar> \<le> of_nat done * (1 + f) / 2 ^ 21 + 1"
proof -
  let ?c = "bw_config te p mbps r"
  have n: "0 < lc_loop_count ?c"
    using big(1) by (simp add: word_less_nat_alt bw_config_fields div_greater_zero_iff)
  have "8192 * (unat (mr_active_size r) div 8192) \<le> unat (mr_active_size r)" by simp
  also have "\<dots> \<le> unat (mr_size r)" using big(2) by (simp add: word_le_nat_alt)
  finally have ok: "stream_ok k r ?c 0 0 (lc_restart ?c (r, 0, 0))"
    using stream_ok_rewind [OF k, of ?c r 0 "mr_bytes r" 0 0] packet(2) by (simp add: bw_config_fields)
  obtain s where s: "run_loop ?c (loop_start ?c (r, 0, 0)) = ret s" "stream.loop_result k r ?c K s"
    using stream.run_loop_returns [OF ok n _ clock] fit by (auto simp: bw_config_fields)
  have fin: "unat (ls_finished s) = done"
    using s(2) fit(1) unat_of_nat_64 [of "done"]
    by (simp add: stream.loop_result_def bw_config_fields done_def del: nth_check.simps)
  obtain bytes where bytes: "add_write_bytes (ls_finished s) f = Inr bytes"
    and near: "\<bar>of_nat (unat bytes) - of_nat done * (1 + f)\<bar> \<le> of_nat done * (1 + f) / 2 ^ 21 + 1"
    using add_write_bytes_close [of "ls_finished s" "pk_read_write_mix p"] fit(1) unfolding f_def fin done_def by blast
  obtain m where "fst (ls_body s) = r\<lparr>mr_bytes := m\<rparr>"
    using s(2) by (auto simp: stream.loop_result_def stream_ok_def)
  moreover have "bw_sequential te p = ret (p\<lparr>pk_mem_region := Some (fst (ls_body s)), pk_finished_bytes := bytes,
        pk_exec_time := double (double (of_int (te_clock te K - te_clock te 0)) / 10 ^ 9)\<rparr>)"
    using packet s bytes
    by (simp add: Let_def bw_sequential_def bw_setup_def bw_finish_def f_def stream.loop_result_def bw_config_fields
        getElapsedTime_def elapsed_in_def del: nth_check.simps)
  ultimately show ?thesis using near by auto
qed

section \<open>Copying\<close>

lemma copy_config_fields:
  "unat (lc_unit (copy_config te p dst src)) = 1"
  "lc_chkpt (copy_config te p dst src) = chkpt_calls (pk_ref_one_exec_time_ns p)"
  "lc_clock (copy_config te p dst src) = te_clock te"
  "lc_kernel (copy_config te p dst src) = call_memcpy (pk_kernel_memcpy p) (pk_fragment_size p) src"
  "lc_restart (copy_config te p dst src) = id"
  "unat (lc_loop_count (copy_config te p dst src)) = unat (mr_active_size dst) div unat (pk_fragment_size p)"
  by (simp_all add: copy_config_def unat_div)

lemma copy_unchanged: "\<exists>m. dst = dst\<lparr>mr_bytes := m :: bytes\<rparr>"
  by (rule exI [of _ "mr_bytes dst"]) simp

lemma copy_fragment_returns:
  assumes packet: "pk_mem_region p = Some dst" "pk_src_mem_region p = Some src"
      "pk_kernel_memcpy p = Some glibc_memcpy"
    and big: "0 < unat (pk_fragment_size p)" "unat (pk_fragment_size p) \<le> unat (mr_active_size dst)"
    and size: "mr_active_size dst \<le> mr_size dst" "mr_active_size dst \<le> mr_size src"
    and clock: "target_reached_at (copy_config te p dst src) K"
    and fit: "nth_check 1 (unat (chkpt_calls (pk_ref_one_exec_time_ns p))) K < 2 ^ 64"
      "K * unat (chkpt_calls (pk_ref_one_exec_time_ns p)) < 2 ^ 64"
  shows "\<exists>m. copy_fragment te p = ret (p\<lparr>pk_mem_region := Some (dst\<lparr>mr_bytes := m\<rparr>),
        pk_finished_bytes :=
          of_nat (nth_check 1 (unat (chkpt_calls (pk_ref_one_exec_time_ns p))) K) * pk_fragment_size p,
        pk_exec_time := double (double (of_int (te_clock te K - te_clock te 0)) / 10 ^ 9)\<rparr>) \<and>
      (\<forall>a < unat (pk_fragment_size p) *
          min (nth_check 1 (unat (chkpt_calls (pk_ref_one_exec_time_ns p))) K)
            (unat (mr_active_size dst) div unat (pk_fragment_size p)). m a = mr_bytes src a)"
proof -
  let ?c = "copy_config te p dst src"
  have n: "0 < lc_loop_count ?c"
    using big by (simp add: word_less_nat_alt copy_config_fields div_greater_zero_iff)
  have "unat (pk_fragment_size p) * unat (lc_loop_count ?c) \<le> unat (mr_active_size dst)"
    by (simp add: copy_config_fields)
  also have "\<dots> \<le> min (unat (mr_size dst)) (unat (mr_size src))" using size by (simp add: word_le_nat_alt)
  finally have ok: "copy_ok (pk_fragment_size p) src dst ?c 0 0 (lc_restart ?c dst)"
    using packet(3) copy_unchanged by (simp add: copy_ok_def copy_config_fields)
  obtain s where s: "run_loop ?c (loop_start ?c dst) = ret s"
      "copy.loop_result (pk_fragment_size p) src dst ?c K s"
    using copy.run_loop_returns [OF ok n _ clock] fit by (auto simp: copy_config_fields)
  let ?n = "nth_check 1 (unat (chkpt_calls (pk_ref_one_exec_time_ns p))) K"
  obtain i where i: "copy_ok (pk_fragment_size p) src dst ?c ?n i (ls_body s)"
    using s(2) by (auto simp: copy.loop_result_def copy_config_fields)
  have "pk_fragment_size p \<noteq> 0" using big(1) by auto
  then have "copy_fragment te p = ret (p\<lparr>pk_mem_region := Some (ls_body s),
        pk_finished_bytes :=
          of_nat (nth_check 1 (unat (chkpt_calls (pk_ref_one_exec_time_ns p))) K) * pk_fragment_size p,
        pk_exec_time := double (double (of_int (te_clock te K - te_clock te 0)) / 10 ^ 9)\<rparr>)"
    using packet s
    by (simp add: Let_def copy_fragment_def copy_setup_def copy_finish_def copy.loop_result_def copy_config_fields
        getElapsedTime_def elapsed_in_def del: nth_check.simps)
  moreover obtain m where "ls_body s = dst\<lparr>mr_bytes := m\<rparr>" using i by (auto simp: copy_ok_def)
  moreover have "\<forall>a < unat (pk_fragment_size p) * min ?n (unat (mr_active_size dst) div unat (pk_fragment_size p)).
      mr_bytes (ls_body s) a = mr_bytes src a"
    using i by (simp add: copy_ok_def copy_config_fields)
  ultimately show ?thesis by auto
qed

section \<open>The properties\<close>

definition example_thread_env :: thread_env where
  "example_thread_env =
     \<lparr>te_alloc = small_env, te_rand = (\<lambda>_. 5), te_clock = (\<lambda>k. int k * 1000000000)\<rparr>"

definition example_packet :: mem_packet where
  "example_packet = MemLatBwThreadPacket\<lparr>bp_num_threads := 1, pk_region_size_kb := 16,
     pk_chunk_size_kb := 4, pk_stride_size_b := 64, pk_target_duration := 1,
     pk_kernel_lat := Some kernel_lat, pk_kernel_bw := Some (bandwidth_kernel 0),
     pk_num_total_threads := 1, pk_kernel_memcpy := Some glibc_memcpy, pk_fragment_size := 4096\<rparr>"

text \<open>
  C10. The latency measurement. When the region of the packet can be allocated, with chunk and
  stride sizes in range, \<open>mem_region_alloc_lat\<close> followed by \<open>lat_ptr\<close> returns for
  every access pattern and every sequence of random numbers, at the first checkpoint that
  reads the target time. The number of pointer hops the packet then has is the number its
  kernel has made, counted statement by statement in the same run, with a counter that the
  worker does not have; it is 256 for each kernel invocation up to that checkpoint. The time
  is that between the first and the last reading of the clock. No load leaves the region, and
  measuring does not change it.
\<close>

theorem latency_measurement:
  assumes sizes: "latency_sizes (unat (pk_region_size_kb p * 1024)) (unat (pk_chunk_size_kb p * 1024))
      (unat (pk_stride_size_b p))"
    and alloc: "alloc_lat_region te p = Inr r"
    and kernel: "pk_kernel_lat q = Some kernel_lat"
    and big: "256 * unat (mr_line_size r) \<le> unat (mr_active_size r)"
    and clock: "target_reached_at (lat_config te q r) K"
    and fit: "256 * nth_check 256 (unat (chkpt_chases (pk_ref_latency_ps q) (mr_active_size r))) K < 2 ^ 64"
      "K * unat (chkpt_chases (pk_ref_latency_ps q) (mr_active_size r)) < 2 ^ 64"
  shows "\<exists>m q' hops. mem_region_alloc_lat te p = ret (p\<lparr>pk_mem_region := Some (r\<lparr>mr_bytes := m\<rparr>)\<rparr>) \<and>
    lat_ptr te (q\<lparr>pk_mem_region := Some (r\<lparr>mr_bytes := m\<rparr>)\<rparr>) = ret q' \<and>
    lat_ptr_counting te (q\<lparr>pk_mem_region := Some (r\<lparr>mr_bytes := m\<rparr>)\<rparr>) = ret (q', hops) \<and>
    hops = 256 * nth_check 256 (unat (chkpt_chases (pk_ref_latency_ps q) (mr_active_size r))) K \<and>
    q' = q\<lparr>pk_mem_region := Some (r\<lparr>mr_bytes := m\<rparr>), pk_finished_chases := of_nat hops,
        pk_exec_time := double (double (of_int (te_clock te K - te_clock te 0)) / 10 ^ 9)\<rparr>"
proof -
  have "latency_region r"
    by (rule latency_region_MemRegion [OF alloc [unfolded alloc_lat_region_def]])
       (use sizes in simp)
  then obtain m os where init: "init_region te (pk_access_pattern p) r = ret (r\<lparr>mr_bytes := m\<rparr>)"
    and ready: "chase_ready (r\<lparr>mr_bytes := m\<rparr>) os" and line: "0 < unat (mr_line_size r)"
    using init_region_ready latency_region_bounds(1) by fastforce
  have "target_reached_at (lat_config te (q\<lparr>pk_mem_region := Some (r\<lparr>mr_bytes := m\<rparr>)\<rparr>) (r\<lparr>mr_bytes := m\<rparr>)) K"
    using clock by (simp add: target_reached_at_def lat_config_def target_duration_ns_def)
  from lat_ptr_returns [OF ready _ _ _ _ this] lat_ptr_counts [OF ready _ _ _ _ this] init alloc kernel big fit line
  show ?thesis by (intro exI [of _ m]) (simp add: mem_region_alloc_lat_def)
qed

lemma latency_measurement_witness:
  "\<exists>p' p''. mem_region_alloc_lat example_thread_env example_packet = ret p' \<and>
     lat_ptr example_thread_env p' = ret p'' \<and> lat_ptr_counting example_thread_env p' = ret (p'', 2097408) \<and>
     pk_finished_chases p'' = 2097408"
proof -
  let ?te = example_thread_env and ?p = example_packet
  obtain r where r: "MemRegion small_env 16384 16384 4096 64 NATIVE NONE = Inr r"
    using small_region [of 16384 4096 64] by auto
  note f = MemRegion_fields [OF r]
  have chk: "chkpt_chases 0 16384 = 2097152" by (simp add: chkpt_chases_def push_bit_eq_mult)
  have sel: "pk_ref_latency_ps ?p = 0" "pk_target_duration ?p = 1" "pk_kernel_lat ?p = Some kernel_lat"
    by (simp_all add: example_packet_def MemLatBwThreadPacket_def)
  have alloc: "alloc_lat_region ?te ?p = Inr r"
    using r by (simp add: alloc_lat_region_def example_thread_env_def example_packet_def
        MemLatBwThreadPacket_def mem_type_of_def hugepage_type_of_def)
  have sizes: "latency_sizes (unat (pk_region_size_kb ?p * 1024)) (unat (pk_chunk_size_kb ?p * 1024))
      (unat (pk_stride_size_b ?p))"
    by (simp add: example_packet_def MemLatBwThreadPacket_def latency_sizes_def)
  have clock: "target_reached_at (lat_config ?te ?p r) 1"
    by (simp add: target_reached_at_def lat_config_def target_duration_ns_def sel example_thread_env_def)
  have n: "nth_check 256 2097152 1 = 8193" by (simp add: numeral_eq_Suc [of "num.One"])
  from latency_measurement [OF sizes alloc sel(3) _ clock] f sel chk n show ?thesis
    by (fastforce simp del: nth_check.simps)
qed

text \<open>
  C33. A measurement that cannot end. When the active region is smaller than 256 lines the
  pass of \<open>lat_ptr\<close> is empty: the clock is never read again and the thread never returns,
  whatever the target duration, the kernel or the clock.
\<close>

theorem latency_of_small_region_hangs:
  assumes "pk_mem_region p = Some r" and "0 < unat (mr_line_size r)"
    and "256 * unat (mr_line_size r) < 2 ^ 64" and "unat (mr_active_size r) < 256 * unat (mr_line_size r)"
  shows "diverges (lat_ptr te p)"
proof -
  have lb: "unat (256 * mr_line_size r) = 256 * unat (mr_line_size r)"
    using assms(3) unat_mult_64 [of 256 "mr_line_size r"] by simp
  then have l0: "256 * mr_line_size r \<noteq> 0" using assms(2) by (auto simp: unat_eq_zero [symmetric] simp del: unat_eq_zero)
  have "lc_loop_count (lat_config te p r) = 0"
    using assms(4) by (intro word_unat_eq_iff [THEN iffD2]) (simp add: lat_config_def unat_div lb)
  from run_loop_diverges [OF this] l0 assms(1) show ?thesis
    by (simp add: lat_ptr_def lat_setup_def Let_def loop_start_def)
qed

lemma latency_of_small_region_hangs_witness:
  "\<exists>p'. mem_region_alloc_bw example_thread_env (example_packet\<lparr>pk_region_size_kb := 4\<rparr>) = ret p' \<and>
     diverges (lat_ptr example_thread_env p')"
proof -
  obtain r where r: "MemRegion small_env 4096 4096 4096 64 NATIVE NONE = Inr r"
    using small_region [of 4096 4096 64] by auto
  have "mem_region_alloc_bw example_thread_env (example_packet\<lparr>pk_region_size_kb := 4\<rparr>) =
      ret (example_packet\<lparr>pk_region_size_kb := 4, pk_mem_region := Some r\<rparr>)"
    using r by (simp add: mem_region_alloc_bw_def example_thread_env_def example_packet_def
        MemLatBwThreadPacket_def mem_type_of_def)
  with latency_of_small_region_hangs [of "example_packet\<lparr>pk_region_size_kb := 4, pk_mem_region := Some r\<rparr>" r
      example_thread_env] MemRegion_fields [OF r] show ?thesis by fastforce
qed

text \<open>
  C35. When an allocation for the latency test divides by zero: exactly when the stride is 0,
  when the chunk size in KiB is a multiple of \<open>2 ^ 22\<close>, whose size in bytes wraps to 0 in
  32 bits, or when the region is allocated but a random access pattern finds no line to
  shuffle: with a stride larger than the chunk in effect, and for the pattern over all
  lines also with a region smaller than that chunk.
\<close>

theorem latency_alloc_traps_iff:
  "mem_region_alloc_lat te p = fail Div_By_Zero \<longleftrightarrow>
     4194304 dvd unat (pk_chunk_size_kb p) \<or> pk_stride_size_b p = 0 \<or>
     (\<exists>r. alloc_lat_region te p = Inr r) \<and> pk_access_pattern p \<noteq> 0 \<and>
     (let region = unat (pk_region_size_kb p * 1024);
          chunk = page_in_effect region (unat (pk_chunk_size_kb p * 1024))
      in chunk < unat (pk_stride_size_b p) \<or> pk_access_pattern p = 2 \<and> region < chunk)"
proof -
  have "(ucast (pk_chunk_size_kb p * 1024) :: u64) = 0 \<longleftrightarrow> unat (pk_chunk_size_kb p * 1024) = 0"
    by (simp only: word_unat_eq_iff unat_ucast_32_64 unat_0)
  also have "\<dots> \<longleftrightarrow> 4294967296 dvd unat (pk_chunk_size_kb p) * 1024"
    by (simp add: unat_word_ariths dvd_eq_mod_eq_0)
  also have "\<dots> \<longleftrightarrow> 4194304 dvd unat (pk_chunk_size_kb p)"
    using dvd_times_right_cancel_iff [of 1024 4194304 "unat (pk_chunk_size_kb p)"] by simp
  finally have chunk: "(ucast (pk_chunk_size_kb p * 1024) :: u64) = 0 \<longleftrightarrow> 4194304 dvd unat (pk_chunk_size_kb p)" .
  have line: "(ucast (pk_stride_size_b p) :: u64) = 0 \<longleftrightarrow> pk_stride_size_b p = 0"
    by (rule ucast_32_64_eq_0)
  have region: "alloc_lat_region te p = Inl Div_By_Zero \<longleftrightarrow>
      4194304 dvd unat (pk_chunk_size_kb p) \<or> pk_stride_size_b p = 0"
    using chunk line MemRegion_div_by_zero_iff by (simp add: alloc_lat_region_def)
  show ?thesis
  proof (cases "alloc_lat_region te p")
    case (Inr r)
    note empty = MemRegion_no_lines [OF Inr [unfolded alloc_lat_region_def]]
    have "mem_region_alloc_lat te p = fail Div_By_Zero \<longleftrightarrow> init_region te (pk_access_pattern p) r = fail Div_By_Zero"
      using Inr by (auto simp: mem_region_alloc_lat_def andthen_def split: option.splits sum.splits)
    with init_region_div [of te "pk_access_pattern p" r] empty Inr region show ?thesis
      by (auto simp: Let_def unat_ucast_32_64)
  qed (use region in \<open>auto simp: mem_region_alloc_lat_def\<close>)
qed

lemma latency_alloc_traps_iff_witness:
  "mem_region_alloc_lat example_thread_env (example_packet\<lparr>pk_stride_size_b := 8192, pk_access_pattern := 1\<rparr>) =
     fail Div_By_Zero"
proof -
  let ?p = "example_packet\<lparr>pk_stride_size_b := 8192, pk_access_pattern := 1\<rparr>"
  have "\<exists>r. alloc_lat_region example_thread_env ?p = Inr r"
    using small_region [of 16384 4096 8192]
    by (simp add: alloc_lat_region_def example_thread_env_def example_packet_def MemLatBwThreadPacket_def
        mem_type_of_def hugepage_type_of_def)
  then show ?thesis
    unfolding latency_alloc_traps_iff
    by (simp add: example_packet_def MemLatBwThreadPacket_def page_in_effect_def)
qed

text \<open>
  C13. The bandwidth measurement. On a region of at least 8 KiB, with the kernel of any mix,
  plain or delayed, \<open>bw_sequential\<close> ends at the first checkpoint that reads the target
  time without an access outside the region. The bytes it reports are those read, 8192 for
  each invocation, plus the written share of the mix, up to five parts in ten million and
  one byte of \<open>float\<close> rounding.
\<close>

theorem bandwidth_measurement:
  assumes alloc: "mem_region_alloc_bw te p = ret p'" and "pk_mem_region p' = Some r"
    and kernel: "pk_kernel_bw q = Some k" "accesses k = bandwidth_kernel (pk_read_write_mix q)"
    and mbps: "per_core_bw_mbps q = Inr mbps"
    and big: "8192 \<le> unat (pk_region_size_kb p * 1024)"
    and clock: "target_reached_at (bw_config te q mbps r) K"
    and fit: "8192 * nth_check 8192 (unat (chkpt_bytes mbps)) K < 2 ^ 62" "K * unat (chkpt_bytes mbps) < 2 ^ 64"
  defines "done \<equiv> 8192 * nth_check 8192 (unat (chkpt_bytes mbps)) K"
    and "f \<equiv> get_write_fraction (pk_read_write_mix q)"
  shows "\<exists>m bytes. bw_sequential te (q\<lparr>pk_mem_region := Some r\<rparr>) =
      ret (q\<lparr>pk_mem_region := Some (r\<lparr>mr_bytes := m\<rparr>), pk_finished_bytes := bytes,
        pk_exec_time := double (double (of_int (te_clock te K - te_clock te 0)) / 10 ^ 9)\<rparr>) \<and>
      \<bar>of_nat (unat bytes) - of_nat done * (1 + f)\<bar> \<le> of_nat done * (1 + f) / 2 ^ 21 + 1"
proof -
  let ?q = "q\<lparr>pk_mem_region := Some r\<rparr>"
  have "MemRegion (te_alloc te) (pk_region_size_kb p * 1024) (pk_region_size_kb p * 1024) 4096 64
      (mem_type_of (pk_mem_type p)) NONE = Inr r"
    using alloc assms(2) unfolding mem_region_alloc_bw_def
    by (cases "MemRegion (te_alloc te) (pk_region_size_kb p * 1024) (pk_region_size_kb p * 1024) 4096 64
      (mem_type_of (pk_mem_type p)) NONE") auto
  note size = MemRegion_fields(1,2) [OF this]
  have "per_core_bw_mbps ?q = per_core_bw_mbps q" by (simp add: per_core_bw_mbps_def)
  with mbps have mbps': "per_core_bw_mbps ?q = Inr mbps" by simp
  have clock': "target_reached_at (bw_config te ?q mbps r) K"
    using clock by (simp add: target_reached_at_def bw_config_def target_duration_ns_def)
  show ?thesis
    using bw_sequential_returns [OF bandwidth_like_kernel [OF kernel(2)] _ _ mbps' _ _ clock' fit] kernel(1) big size
    unfolding done_def f_def by auto
qed

lemma bandwidth_measurement_witness:
  "\<exists>r p'' bytes. mem_region_alloc_bw example_thread_env example_packet =
       ret (example_packet\<lparr>pk_mem_region := Some r\<rparr>) \<and>
     bw_sequential example_thread_env (example_packet\<lparr>pk_mem_region := Some r\<rparr>) = ret p'' \<and>
     pk_finished_bytes p'' = bytes \<and> \<bar>of_nat (unat bytes) - (8593408 :: rat)\<bar> \<le> 6"
proof -
  let ?te = example_thread_env and ?p = example_packet
  obtain r where r: "MemRegion small_env 16384 16384 4096 64 NATIVE NONE = Inr r"
    using small_region [of 16384 4096 64] by auto
  have alloc: "mem_region_alloc_bw ?te ?p = ret (?p\<lparr>pk_mem_region := Some r\<rparr>)"
    using r by (simp add: mem_region_alloc_bw_def example_thread_env_def example_packet_def
        MemLatBwThreadPacket_def mem_type_of_def)
  have sel: "pk_kernel_bw ?p = Some (bandwidth_kernel 0)" "pk_read_write_mix ?p = 0"
    "accesses (bandwidth_kernel 0) = bandwidth_kernel 0" "8192 \<le> unat (pk_region_size_kb ?p * 1024)"
    by (simp_all add: example_packet_def MemLatBwThreadPacket_def bandwidth_kernel_def
        kernel_bw_r1w0_sequential_def)
  have mbps: "per_core_bw_mbps ?p = Inr 2048"
    by (simp add: example_packet_def MemLatBwThreadPacket_def per_core_bw_mbps_def)
  have chk: "unat (chkpt_bytes 2048) = 8589934" by (simp add: chkpt_bytes_def unat_div)
  have n: "nth_check 8192 8589934 1 = 1049" by (simp add: numeral_eq_Suc [of "num.One"])
  have clock: "target_reached_at (bw_config ?te ?p 2048 r) 1"
    by (simp add: target_reached_at_def bw_config_def target_duration_ns_def example_thread_env_def
        example_packet_def)
  from bandwidth_measurement [OF alloc _ sel(1) _ mbps sel(4) clock] chk n sel write_fractions
  obtain m bytes t where run: "bw_sequential ?te (?p\<lparr>pk_mem_region := Some r\<rparr>) =
      ret (?p\<lparr>pk_mem_region := Some (r\<lparr>mr_bytes := m\<rparr>), pk_finished_bytes := bytes, pk_exec_time := t\<rparr>)"
    and near: "\<bar>of_nat (unat bytes) - (8593408 :: rat)\<bar> \<le> 8593408 / 2 ^ 21 + 1"
    by (fastforce simp del: nth_check.simps)
  have "(8593408 :: rat) / 2 ^ 21 + 1 \<le> 6" by simp
  with near have "\<bar>of_nat (unat bytes) - (8593408 :: rat)\<bar> \<le> 6" by (rule order_trans)
  with alloc run show ?thesis by fastforce
qed

text \<open>
  C34. On an active region of less than 8 KiB \<open>bw_sequential\<close> never returns.
\<close>

theorem bandwidth_of_small_region_hangs:
  assumes "pk_mem_region p = Some r" and "bp_num_threads p \<noteq> 0" and "unat (mr_active_size r) < 8192"
  shows "diverges (bw_sequential te p)"
proof -
  obtain mbps where mbps: "per_core_bw_mbps p = Inr mbps" using assms(2) by (simp add: per_core_bw_mbps_def)
  have "lc_loop_count (bw_config te p mbps r) = 0"
    using assms(3) by (intro word_unat_eq_iff [THEN iffD2]) (simp add: bw_config_fields)
  from run_loop_diverges [OF this] assms(1) mbps show ?thesis
    by (simp add: bw_sequential_def bw_setup_def Let_def loop_start_def)
qed

lemma bandwidth_of_small_region_hangs_witness:
  "\<exists>p'. mem_region_alloc_bw example_thread_env (example_packet\<lparr>pk_region_size_kb := 4\<rparr>) = ret p' \<and>
     diverges (bw_sequential example_thread_env p')"
proof -
  obtain r where r: "MemRegion small_env 4096 4096 4096 64 NATIVE NONE = Inr r"
    using small_region [of 4096 4096 64] by auto
  have "mem_region_alloc_bw example_thread_env (example_packet\<lparr>pk_region_size_kb := 4\<rparr>) =
      ret (example_packet\<lparr>pk_region_size_kb := 4, pk_mem_region := Some r\<rparr>)"
    using r by (simp add: mem_region_alloc_bw_def example_thread_env_def example_packet_def
        MemLatBwThreadPacket_def mem_type_of_def)
  moreover have "bp_num_threads (example_packet\<lparr>pk_region_size_kb := 4, pk_mem_region := Some r\<rparr>) \<noteq> 0"
    by (simp add: example_packet_def)
  ultimately show ?thesis
    using bandwidth_of_small_region_hangs [of "example_packet\<lparr>pk_region_size_kb := 4, pk_mem_region := Some r\<rparr>" r
      example_thread_env] MemRegion_fields [OF r] by fastforce
qed

text \<open>
  C23. The copy measurement. With the library's \<open>memcpy\<close>, \<open>copy_fragment\<close> ends at the
  first checkpoint that reads the target time; it reports the fragments copied times their
  size, and as many fragments of the destination as were copied, or all that fit, equal the
  source. No copy leaves either region.
\<close>

theorem copy_measurement:
  assumes packet: "pk_mem_region p = Some dst" "pk_src_mem_region p = Some src"
      "pk_kernel_memcpy p = Some glibc_memcpy"
    and big: "0 < unat (pk_fragment_size p)" "unat (pk_fragment_size p) \<le> unat (mr_active_size dst)"
    and size: "mr_active_size dst \<le> mr_size dst" "mr_active_size dst \<le> mr_size src"
    and clock: "target_reached_at (copy_config te p dst src) K"
    and fit: "nth_check 1 (unat (chkpt_calls (pk_ref_one_exec_time_ns p))) K < 2 ^ 64"
      "K * unat (chkpt_calls (pk_ref_one_exec_time_ns p)) < 2 ^ 64"
  shows "\<exists>m. copy_fragment te p = ret (p\<lparr>pk_mem_region := Some (dst\<lparr>mr_bytes := m\<rparr>),
        pk_finished_bytes :=
          of_nat (nth_check 1 (unat (chkpt_calls (pk_ref_one_exec_time_ns p))) K) * pk_fragment_size p,
        pk_exec_time := double (double (of_int (te_clock te K - te_clock te 0)) / 10 ^ 9)\<rparr>) \<and>
      (\<forall>a < unat (pk_fragment_size p) *
          min (nth_check 1 (unat (chkpt_calls (pk_ref_one_exec_time_ns p))) K)
            (unat (mr_active_size dst) div unat (pk_fragment_size p)). m a = mr_bytes src a)"
  by (rule copy_fragment_returns [OF assms])

lemma copy_measurement_witness:
  "\<exists>p' p''. mem_region_alloc_memcpy example_thread_env example_packet = ret p' \<and>
     copy_fragment example_thread_env p' = ret p'' \<and> pk_finished_bytes p'' = 8192"
proof -
  let ?te = example_thread_env
  obtain r where r: "MemRegion small_env 16384 16384 4096 64 NATIVE NONE = Inr r"
    using small_region [of 16384 4096 64] by auto
  note f = MemRegion_fields [OF r]
  define p where "p = example_packet\<lparr>pk_mem_region := Some r, pk_src_mem_region := Some r\<rparr>"
  have alloc: "mem_region_alloc_memcpy ?te example_packet = ret p"
    using r by (simp add: mem_region_alloc_memcpy_def example_thread_env_def example_packet_def
        MemLatBwThreadPacket_def p_def)
  have sel: "pk_mem_region p = Some r" "pk_src_mem_region p = Some r"
    "pk_kernel_memcpy p = Some glibc_memcpy" "pk_fragment_size p = 4096" "pk_ref_one_exec_time_ns p = 0"
    "pk_target_duration p = 1"
    by (simp_all add: p_def example_packet_def MemLatBwThreadPacket_def)
  have clock: "target_reached_at (copy_config ?te p r r) 1"
    by (simp add: target_reached_at_def copy_config_def target_duration_ns_def example_thread_env_def sel)
  have chk: "unat (chkpt_calls 0) = 1" by (simp add: chkpt_calls_def)
  have n: "nth_check 1 1 1 = 2" by (simp add: numeral_eq_Suc [of "num.One"])
  have "\<exists>p''. copy_fragment ?te p = ret p'' \<and> pk_finished_bytes p'' = 8192"
    using copy_measurement [OF sel(1-3) _ _ _ _ clock] f sel chk n by (fastforce simp del: nth_check.simps)
  with alloc show ?thesis by blast
qed

end
