(* ===== verification/Parallel_Props.thy ===== *)
theory Parallel_Props
  imports Measurements
begin

text \<open>
  The properties of the thread manager: where the threads run, how \<open>create\<close> relates to the
  interleaved steps of the pool, and that the pool never gets stuck.
\<close>

section \<open>Binding\<close>

lemma bind_cpu_in: "cpus \<noteq> [] \<Longrightarrow> bind_cpu n cpus i \<in> set cpus"
  by (simp add: bind_cpu_def Let_def)

lemma bind_cpu_nth:
  assumes "unat n \<le> length cpus" and "k < unat n" and "n \<noteq> 1"
  shows "bind_cpu n cpus (of_nat k) = cpus ! k"
  using assms unat_lt_32 [of n] by (simp add: bind_cpu_def)

lemma distinct_bound:
  assumes "unat n \<le> length cpus" and "distinct cpus"
  shows "distinct (map (bind_cpu n cpus) (below n))"
proof (cases "n = 1")
  case True
  then show ?thesis by (simp add: below_def)
next
  case False
  have "map (bind_cpu n cpus) (below n) = take (unat n) cpus"
    using assms(1) False by (intro nth_equalityI) (simp_all add: below_def bind_cpu_nth)
  with assms(2) show ?thesis by simp
qed

lemma manager_wf_new: "manager_wf (snd (snd (WorkerThreadManager hw p0 n cpus b v)))"
  by (simp add: WorkerThreadManager_def manager_wf_def Let_def)

text \<open>
  C21. Where the workers run. A manager built with binding from the CPUs the process may run
  on, of the whole machine or of one NUMA node, pins every thread, to one of those CPUs;
  no two threads share a CPU when there are at most as many threads as CPUs. The lists of
  the manager have one entry for each thread, and packet \<open>i\<close> carries the number \<open>i\<close>.
\<close>

theorem workers_on_allowed_cpus:
  fixes hw n :: u32 and p0 :: "'p base_packet_scheme" and verbose :: bool
  assumes cpus: "cpus = all_allowed_cpus (NumaConfig env) \<or>
      map_at (node_to_allowed_cpus (NumaConfig env)) node = Inr cpus"
    and node: "node < num_numa_nodes (NumaConfig env)" and "cpus \<noteq> []"
  defines "wm \<equiv> snd (snd (WorkerThreadManager hw p0 n cpus True verbose))"
  shows "manager_wf wm \<and> set (wm_bound_cpu wm) \<subseteq> set (all_allowed_cpus (NumaConfig env)) \<and>
    list_all2 (\<lambda>c a. a = Some (cpuset_of c)) (wm_bound_cpu wm) (wm_affinity wm) \<and>
    (length cpus < unat n \<or> distinct (wm_bound_cpu wm)) \<and>
    map (unat \<circ> bp_thread_id) (wm_packets wm) = [0..<unat n]"
proof -
  have allowed: "set cpus \<subseteq> set (all_allowed_cpus (NumaConfig env))" and dist: "distinct cpus"
    using cpus node_at(3) [OF node] allowed_cpus_of_node_allowed [of env node] distinct_allowed [of env]
    by auto
  have bound: "wm_bound_cpu wm = map (bind_cpu n cpus) (below n)"
    using assms(3) by (simp add: wm_def WorkerThreadManager_def Let_def)
  have "set (wm_bound_cpu wm) \<subseteq> set cpus" using bind_cpu_in [OF assms(3)] by (auto simp: bound)
  moreover have "list_all2 (\<lambda>c a. a = Some (cpuset_of c)) (wm_bound_cpu wm) (wm_affinity wm)"
    using assms(3) unfolding bound by (simp add: wm_def WorkerThreadManager_def Let_def list_all2_conv_all_nth)
  moreover have "length cpus < unat n \<or> distinct (wm_bound_cpu wm)"
    using distinct_bound [OF _ dist, of n] unfolding bound by linarith
  moreover have "map (unat \<circ> bp_thread_id) (wm_packets wm) = [0..<unat n]"
    using unat_lt_32 [of n]
    by (intro nth_equalityI) (simp_all add: wm_def WorkerThreadManager_def Let_def setThreadId_def below_def)
  ultimately show ?thesis
    using allowed manager_wf_new unfolding wm_def by (intro conjI) (assumption | blast)+
qed

definition example_workers :: "(unit mem_packet_ext cpu_micro_packet_ext, mem_routine) worker_manager" where
  "example_workers = snd (snd (WorkerThreadManager 4 example_packet 2 [0, 1] True False))"

lemma workers_on_allowed_cpus_witness:
  "wm_bound_cpu example_workers = [0, 1] \<and> set (wm_bound_cpu example_workers) \<subseteq> set (all_allowed_cpus example_machine)"
proof -
  have at: "map_at (node_to_allowed_cpus (NumaConfig example_env)) 0 = Inr [0, 1]"
    and node: "0 < num_numa_nodes (NumaConfig example_env)"
    by (simp_all add: example_machine_def [symmetric] example_machine_eval map_at_def)
  have "wm_bound_cpu example_workers = [0, 1]"
    by (simp add: example_workers_def WorkerThreadManager_def Let_def below_numeral bind_cpu_def)
  moreover have "set (wm_bound_cpu example_workers) \<subseteq> set (all_allowed_cpus example_machine)"
    unfolding example_workers_def example_machine_def
    using workers_on_allowed_cpus [OF disjI2 [OF at] node, of 4 example_packet 2 False] by blast
  ultimately show ?thesis ..
qed

section \<open>Creating the threads, step by step\<close>

definition started :: "('p, 'r, 'l) pool \<Rightarrow> (nat \<Rightarrow> 'r \<Rightarrow> 'l) \<Rightarrow> (nat \<Rightarrow> int) \<Rightarrow> nat \<Rightarrow> ('p, 'r, 'l) pool" where
  "started s start rc k =
     s\<lparr>po_wm := (po_wm s)\<lparr>wm_created := map (starts rc (po_wm s)) [0..<k] @ drop k (wm_created (po_wm s))\<rparr>,
       po_pc := Creating k (length (filter (fails_to_start rc (po_wm s)) [0..<k])),
       po_status := map (\<lambda>i. if starts rc (po_wm s) i
           then Running (start i (the (wm_start_routines (po_wm s) ! i))) else Not_Started) [0..<k] @
         drop k (po_status s)\<rparr>"

lemma upd_next:
  assumes "k < length xs"
  shows "(map f [0..<k] @ drop k xs)[k := f k] = map f [0..<Suc k] @ drop (Suc k) xs"
  using assms by (simp add: list_update_append Cons_nth_drop_Suc [symmetric])

lemma started_step:
  assumes "manager_wf (po_wm s)" and "length (po_status s) = unat (wm_num_threads (po_wm s))"
    and "\<forall>i < length (po_status s). po_status s ! i = Not_Started"
    and k: "k < unat (wm_num_threads (po_wm s))"
  shows "pool_step start next_step rc timed (started s start rc k) (started s start rc (Suc k))"
proof -
  let ?s = "started s start rc k"
  have len: "k < length (wm_created (po_wm s))" "k < length (po_status s)"
    using assms by (simp_all add: manager_wf_def)
  note upd = upd_next [OF len(1), of "starts rc (po_wm s)"] upd_next [OF len(2), of "\<lambda>i. if starts rc (po_wm s) i
      then Running (start i (the (wm_start_routines (po_wm s) ! i))) else Not_Started"]
  have pc: "po_pc ?s = Creating k (length (filter (fails_to_start rc (po_wm s)) [0..<k]))"
    and num: "k < unat (wm_num_threads (po_wm ?s))"
    and rt: "wm_start_routines (po_wm ?s) ! k = wm_start_routines (po_wm s) ! k"
    using k by (simp_all add: started_def)
  have keep: "map f [0..<k] @ drop k (po_status s) = map f [0..<Suc k] @ drop (Suc k) (po_status s)"
    if "f k = Not_Started" for f
    using that len(2) assms(3) by (simp add: Cons_nth_drop_Suc [symmetric])
  show ?thesis
  proof (cases "wm_start_routines (po_wm s) ! k")
    case None
    then have "\<not> starts rc (po_wm s) k" "\<not> fails_to_start rc (po_wm s) k"
      by (simp_all add: starts_def fails_to_start_def)
    then have "started s start rc (Suc k) =
        ?s\<lparr>po_wm := set_created k False (po_wm ?s), po_pc := Creating (Suc k) (length (filter (fails_to_start rc (po_wm s)) [0..<k]))\<rparr>"
      using upd(1) keep by (simp add: started_def)
    then show ?thesis using create_skip [OF pc num] None rt by simp
  next
    case (Some r)
    show ?thesis
    proof (cases "rc k = 0")
      case True
      then have "starts rc (po_wm s) k" "\<not> fails_to_start rc (po_wm s) k"
        using Some by (simp_all add: starts_def fails_to_start_def)
      then have "started s start rc (Suc k) =
          ?s\<lparr>po_wm := set_created k True (po_wm ?s), po_pc := Creating (Suc k) (length (filter (fails_to_start rc (po_wm s)) [0..<k])),
            po_status := (po_status ?s)[k := Running (start k r)]\<rparr>"
        using upd Some by (simp add: started_def)
      then show ?thesis using create_ok [OF pc num] Some rt True by simp
    next
      case False
      then have "\<not> starts rc (po_wm s) k" "fails_to_start rc (po_wm s) k"
        using Some by (simp_all add: starts_def fails_to_start_def)
      then have "started s start rc (Suc k) =
          ?s\<lparr>po_wm := set_created k False (po_wm ?s),
             po_pc := Creating (Suc k) (Suc (length (filter (fails_to_start rc (po_wm s)) [0..<k])))\<rparr>"
        using upd(1) keep by (simp add: started_def)
      then show ?thesis using create_error [OF pc num] Some rt False by simp
    qed
  qed
qed

lemma pool_creates:
  assumes "manager_wf wm" and "k \<le> unat (wm_num_threads wm)"
  shows "pool_reaches start next_step rc timed wm (started (initial_pool wm) start rc k)"
  using assms(2)
proof (induction k)
  case 0
  then show ?case by (simp add: pool_reaches_def started_def initial_pool_def)
next
  case (Suc k)
  have "pool_step start next_step rc timed (started (initial_pool wm) start rc k) (started (initial_pool wm) start rc (Suc k))"
    using Suc.prems assms(1) by (intro started_step) (simp_all add: initial_pool_def)
  with Suc show ?case unfolding pool_reaches_def by (simp add: rtranclp.rtrancl_into_rtrancl)
qed

lemma pool_creates_all:
  assumes "manager_wf wm"
  shows "\<exists>s. pool_reaches start next_step rc timed wm s \<and>
    (case snd (create rc strerror wm) of
       Inl e \<Rightarrow> po_pc s = Exited
     | Inr wm' \<Rightarrow> po_pc s = Joining 0 0 \<and> po_wm s = wm')"
proof -
  let ?n = "unat (wm_num_threads wm)"
  let ?s = "started (initial_pool wm) start rc ?n"
  let ?f = "length (filter (fails_to_start rc wm) [0..<?n])"
  have pc: "po_pc ?s = Creating ?n ?f" "?n = unat (wm_num_threads (po_wm ?s))"
    and created: "po_wm ?s = wm\<lparr>wm_created := map (starts rc wm) [0..<?n]\<rparr>"
    using assms by (simp_all add: started_def initial_pool_def manager_wf_def)
  have "pool_reaches start next_step rc timed wm (?s\<lparr>po_pc := (if ?f > 0 then Exited else Joining 0 0)\<rparr>)"
    using pool_creates [OF assms order_refl, of start next_step rc timed] create_end [OF pc, of start next_step rc timed]
    unfolding pool_reaches_def by (rule rtranclp.rtrancl_into_rtrancl)
  moreover have "case snd (create rc strerror wm) of
      Inl e \<Rightarrow> (if ?f > 0 then Exited else Joining 0 0) = Exited
    | Inr wm' \<Rightarrow> (if ?f > 0 then Exited else Joining 0 0) = Joining 0 0 \<and> po_wm ?s = wm'"
    unfolding create_def Let_def created by (cases "?f > 0") simp_all
  ultimately show ?thesis
    by (intro exI [of _ "?s\<lparr>po_pc := (if ?f > 0 then Exited else Joining 0 0)\<rparr>"]) (cases "snd (create rc strerror wm)"; simp)
qed

text \<open>
  What every schedule has of \<open>create\<close>: the failures it has counted and the flags it has set
  are those of the answers of \<open>pthread_create\<close>, and \<open>join\<close> is reached only without failures.
\<close>

definition created_so_far :: "(nat \<Rightarrow> int) \<Rightarrow> bool \<Rightarrow> ('p, 'r) worker_manager \<Rightarrow> ('p, 'r, 'l) pool \<Rightarrow> bool" where
  "created_so_far rc timed wm s \<longleftrightarrow>
     (let n = unat (wm_num_threads wm); failed = (\<lambda>k. filter (fails_to_start rc wm) [0..<k])
      in wm_num_threads (po_wm s) = wm_num_threads wm \<and>
         wm_start_routines (po_wm s) = wm_start_routines wm \<and> length (wm_created (po_wm s)) = n \<and>
         (case po_pc s of
            Creating k f \<Rightarrow> k \<le> n \<and> f = length (failed k) \<and> (\<forall>i < k. wm_created (po_wm s) ! i = starts rc wm i)
          | Joining i k \<Rightarrow> failed n = [] \<and> wm_created (po_wm s) = map (starts rc wm) [0..<n] \<and> (k > 0 \<longrightarrow> timed)
          | Joined \<Rightarrow> failed n = [] \<and> wm_created (po_wm s) = map (starts rc wm) [0..<n]
          | Exited \<Rightarrow> failed n \<noteq> [] \<or> timed
          | Crashed e \<Rightarrow> True))"

lemma created_so_far_initial: "manager_wf wm \<Longrightarrow> created_so_far rc timed wm (initial_pool wm)"
  by (simp add: created_so_far_def initial_pool_def manager_wf_def)

lemma created_so_far_step:
  assumes "pool_step start next_step rc timed s s'" and "created_so_far rc timed wm s"
  shows "created_so_far rc timed wm s'"
  using assms
proof cases
  case (create_end i f)
  let ?n = "unat (wm_num_threads wm)"
  have "wm_created (po_wm s) = map (starts rc wm) [0..<?n]"
    using assms(2) create_end by (intro nth_equalityI) (simp_all add: created_so_far_def Let_def)
  with assms(2) create_end show ?thesis by (auto simp: created_so_far_def Let_def)
qed (use assms(2) in \<open>auto simp: created_so_far_def Let_def starts_def fails_to_start_def less_Suc_eq nth_list_update
  split: main_pc.splits\<close>)

lemma created_so_far_reaches:
  assumes "manager_wf wm" and "pool_reaches start next_step rc timed wm s"
  shows "created_so_far rc timed wm s"
  using assms(2) unfolding pool_reaches_def
  by (induction rule: rtranclp_induct) (auto intro: created_so_far_initial assms(1) created_so_far_step)

lemma create_in_schedules:
  assumes "created_so_far rc timed wm s"
  shows "case po_pc s of
      Creating k f \<Rightarrow> f = length (filter (\<lambda>i. wm_start_routines wm ! i \<noteq> None \<and> rc i \<noteq> 0) [0..<k])
    | Joining i k \<Rightarrow> \<exists>wm'. snd (create rc strerror wm) = Inr wm' \<and> wm_created (po_wm s) = wm_created wm'
    | Joined \<Rightarrow> \<exists>wm'. snd (create rc strerror wm) = Inr wm' \<and> wm_created (po_wm s) = wm_created wm'
    | Exited \<Rightarrow> timed \<or> (\<exists>e. snd (create rc strerror wm) = Inl e)
    | Crashed e \<Rightarrow> True"
  using assms by (auto simp: created_so_far_def create_def fails_to_start_def [abs_def] Let_def split: main_pc.splits)

text \<open>
  C18. \<open>create\<close> is the main thread's part of the schedule. For every answer of
  \<open>pthread_create\<close> there is an interleaving of the pool with these answers that leaves
  \<open>create\<close> with exactly the manager the function computes, or ends the process exactly when
  it does. And no interleaving does otherwise: on the way the failures counted are those of
  the threads passed; \<open>join\<close> is only ever reached when the function succeeds, with the flags
  \<open>created_\<close> it sets; and without a join timeout the process exits only when the function
  ends it.
\<close>

theorem create_in_pool:
  assumes "manager_wf wm"
  shows "(\<exists>s. pool_reaches worker_start (worker_step te) rc timed wm s \<and>
      (case snd (create rc strerror wm) of
         Inl e \<Rightarrow> po_pc s = Exited
       | Inr wm' \<Rightarrow> po_pc s = Joining 0 0 \<and> po_wm s = wm')) \<and>
    (\<forall>s. pool_reaches worker_start (worker_step te) rc timed wm s \<longrightarrow>
      (case po_pc s of
         Creating k f \<Rightarrow> f = length (filter (\<lambda>i. wm_start_routines wm ! i \<noteq> None \<and> rc i \<noteq> 0) [0..<k])
       | Joining i k \<Rightarrow> \<exists>wm'. snd (create rc strerror wm) = Inr wm' \<and> wm_created (po_wm s) = wm_created wm'
       | Joined \<Rightarrow> \<exists>wm'. snd (create rc strerror wm) = Inr wm' \<and> wm_created (po_wm s) = wm_created wm'
       | Exited \<Rightarrow> timed \<or> (\<exists>e. snd (create rc strerror wm) = Inl e)
       | Crashed e \<Rightarrow> True))"
  by (intro conjI allI impI pool_creates_all [OF assms] create_in_schedules [OF created_so_far_reaches [OF assms]])

lemma create_in_pool_witness:
  "\<exists>s. pool_reaches worker_start (worker_step (\<lambda>_. example_thread_env)) (\<lambda>_. 0) False (setRoutine (Some Alloc_Bw) example_workers) s \<and>
     po_pc s = Joining 0 0 \<and> wm_created (po_wm s) = [True, True] \<and>
     (\<forall>s. pool_reaches worker_start (worker_step (\<lambda>_. example_thread_env)) (\<lambda>i. if i = 1 then 11 else 0) False
        (setRoutine (Some Alloc_Bw) example_workers) s \<longrightarrow> po_pc s \<noteq> Joined)"
proof -
  let ?wm = "setRoutine (Some Alloc_Bw) example_workers"
  have n: "unat (wm_num_threads ?wm) = 2" by (simp add: example_workers_def setRoutine_def WorkerThreadManager_def Let_def)
  have wf: "manager_wf ?wm"
    by (simp add: example_workers_def setRoutine_def WorkerThreadManager_def Let_def manager_wf_def)
  have rt: "wm_start_routines ?wm = [Some Alloc_Bw, Some Alloc_Bw]"
    using n by (simp add: setRoutine_def numeral_2_eq_2)
  have upt2: "[0..<2] = [0, 1 :: nat]" by code_simp
  let ?fail = "\<lambda>i :: nat. if i = 1 then 11 else 0 :: int"
  have "create (\<lambda>_. 0) (\<lambda>_. '''') ?wm = ('''', Inr (?wm\<lparr>wm_created := [True, True]\<rparr>))"
    unfolding create_def n Let_def upt2 by (simp add: starts_def fails_to_start_def rt Let_def)
  moreover have "\<nexists>wm'. snd (create ?fail (\<lambda>_. '''') ?wm) = Inr wm'"
    unfolding create_def n Let_def upt2 by (simp add: fails_to_start_def rt Let_def)
  then have "po_pc s \<noteq> Joined"
    if "pool_reaches worker_start (worker_step (\<lambda>_. example_thread_env)) ?fail False ?wm s" for s
    using create_in_pool [OF wf, of "\<lambda>_. example_thread_env" ?fail False "\<lambda>_. ''''"] that by force
  ultimately show ?thesis
    using create_in_pool [OF wf, of "\<lambda>_. example_thread_env" "\<lambda>_. 0" False "\<lambda>_. ''''"] by auto
qed

section \<open>Progress\<close>

text \<open>A manager with one thread, which allocates its region.\<close>

definition one_worker :: "(unit mem_packet_ext cpu_micro_packet_ext, mem_routine) worker_manager" where
  "one_worker = \<lparr>wm_num_threads = 1, wm_num_cpus = 4, wm_cpu_core_id = [], wm_affinity = [None],
     wm_start_routines = [Some Alloc_Bw], wm_packets = [example_packet], wm_bound_cpu = [kNotBound],
     wm_created = [False]\<rparr>"

lemma one_worker_runs:
  assumes "mem_region_alloc_bw (te 0) example_packet = ret p'"
  shows "\<exists>s. pool_reaches worker_start (worker_step te) (\<lambda>_. 0) False one_worker s \<and> po_pc s = Joined"
proof -
  let ?step = "pool_step worker_start (worker_step te) (\<lambda>_. 0) False"
  define s0 :: "(_, _, worker_locals) pool" where "s0 = initial_pool one_worker"
  define wm where "wm = set_created 0 True one_worker"
  define s1 where "s1 = s0\<lparr>po_wm := wm, po_pc := Creating 1 0, po_status := [Running Begin]\<rparr>"
  define s2 where "s2 = s1\<lparr>po_pc := Joining 0 0\<rparr>"
  define s3 where "s3 = s2\<lparr>po_wm := set_packet 0 p' wm, po_status := [Ended]\<rparr>"
  define s4 where "s4 = s3\<lparr>po_pc := Joining 1 0\<rparr>"
  define s5 where "s5 = s4\<lparr>po_pc := Joined\<rparr>"
  note defs = s0_def s1_def s2_def s3_def s4_def s5_def wm_def initial_pool_def one_worker_def
  have "?step s0 s1" using create_ok [of s0 0 0 Alloc_Bw "\<lambda>_. 0" worker_start "worker_step te" False] by (simp add: defs worker_start_def)
  moreover have "?step s1 s2" using create_end [of s1 1 0] by (simp add: defs)
  moreover have "?step s2 s3"
    using finish [of s2 0 Begin Alloc_Bw "worker_step te" p'] assms by (simp add: defs whole_def)
  moreover have "?step s3 s4" using join_ok [of s3 0 0] by (simp add: defs)
  moreover have "?step s4 s5" using join_end [of s4 1 0] by (simp add: defs)
  ultimately have "?step\<^sup>*\<^sup>* s0 s5" by (meson converse_rtranclp_into_rtranclp rtranclp.rtrancl_refl)
  then show ?thesis unfolding pool_reaches_def by (auto simp: s0_def s5_def)
qed

text \<open>
  C20. The pool does not deadlock: in every reachable state in which the main thread has not
  passed \<open>join\<close> and the process has not ended, some thread can take a step, with or without
  a join timeout.
\<close>

theorem pool_never_stuck:
  assumes "manager_wf wm" and "pool_reaches worker_start (worker_step te) rc timed wm s"
    and "po_pc s \<noteq> Joined" and "po_pc s \<noteq> Exited" and "\<forall>e. po_pc s \<noteq> Crashed e"
  shows "\<exists>s'. pool_step worker_start (worker_step te) rc timed s s'"
  using stepped.pool_progress [OF stepped.pool_inv_reaches [OF assms(1,2)] assms(3,4)] assms(5) by blast

lemma pool_never_stuck_witness:
  "\<exists>s'. pool_step worker_start (worker_step (\<lambda>_. example_thread_env)) (\<lambda>_. 0) True (initial_pool one_worker) s'"
proof -
  have "manager_wf one_worker" by (simp add: one_worker_def manager_wf_def)
  then show ?thesis
    by (rule pool_never_stuck [where timed = True]) (simp_all add: pool_reaches_def, simp_all add: initial_pool_def)
qed

end
