(* ===== verification/Run_Threads.thy ===== *)
theory Run_Threads
  imports Parallel_Props
begin

text \<open>
  \<open>create()\<close> followed by \<open>join()\<close> as one operation on a manager
  (\<open>WorkerThreadManager::run\<close>, and the same two calls in the programs), with what the
  system calls answer as a parameter. Each packet becomes what its routine makes of it; that
  this is what every interleaving gives is the theorem \<open>run_threads_in_pool\<close>.
\<close>

section \<open>Running the threads of a manager\<close>

record join_env =
  je_create :: "nat \<Rightarrow> int"
  je_join :: "nat \<Rightarrow> int"
  je_timeout :: u64
  je_strerror :: "int \<Rightarrow> string"

fun collect :: "'p run list \<Rightarrow> 'p list run" where
  "collect [] = ret []"
| "collect (m # ms) = andthen m (\<lambda>p. andthen (collect ms) (\<lambda>ps. ret (p # ps)))"

definition thread_results ::
    "(nat \<Rightarrow> 'r \<Rightarrow> 'p base_packet_scheme \<Rightarrow> 'p base_packet_scheme run) \<Rightarrow> ('p, 'r) worker_manager \<Rightarrow>
     'p base_packet_scheme run list" where
  "thread_results exec wm =
     map (\<lambda>i. case wm_start_routines wm ! i of
                None \<Rightarrow> ret (wm_packets wm ! i)
              | Some r \<Rightarrow> exec i r (wm_packets wm ! i)) [0..<unat (wm_num_threads wm)]"

definition run_threads ::
    "(nat \<Rightarrow> 'r \<Rightarrow> 'p base_packet_scheme \<Rightarrow> 'p base_packet_scheme run) \<Rightarrow> join_env \<Rightarrow>
     ('p, 'r) worker_manager \<Rightarrow> ('p, 'r) worker_manager run" where
  "run_threads exec env wm =
     andthen (lift_run (snd (create (je_create env) (je_strerror env) wm)))
       (\<lambda>wm1. andthen (snd (join (je_timeout env) (je_join env) (\<lambda>_. True) (je_strerror env) wm1))
         (\<lambda>_. andthen (collect (thread_results exec wm1))
           (\<lambda>ps. ret (wm1\<lparr>wm_packets := ps\<rparr>))))"

definition setRoutineAndRun ::
    "(nat \<Rightarrow> 'r \<Rightarrow> 'p base_packet_scheme \<Rightarrow> 'p base_packet_scheme run) \<Rightarrow> join_env \<Rightarrow> 'r \<Rightarrow>
     ('p, 'r) worker_manager \<Rightarrow> ('p, 'r) worker_manager run" where
  "setRoutineAndRun exec env r wm = run_threads exec env (setRoutine (Some r) wm)"

section \<open>Its laws\<close>

lemma collect_all:
  "(\<And>i. i < length ms \<Longrightarrow> ms ! i = ret (ps ! i)) \<Longrightarrow> length ps = length ms \<Longrightarrow> collect ms = ret ps"
proof (induction ms arbitrary: ps)
  case (Cons m ms)
  then obtain p qs where ps: "ps = p # qs" by (cases ps) auto
  have "m = ret p" using Cons.prems(1) [of 0] ps by simp
  moreover have "collect ms = ret qs"
    using Cons.prems(1) [of "Suc _"] Cons.prems(2) ps by (intro Cons.IH) auto
  ultimately show ?case using ps by simp
qed simp

lemma collect_eq_ret:
  "collect ms = ret ps \<Longrightarrow> length ps = length ms \<and> (\<forall>i < length ms. ms ! i = ret (ps ! i))"
proof (induction ms arbitrary: ps)
  case (Cons m ms)
  from Cons.prems obtain p qs where "m = ret p" "collect ms = ret qs" "ps = p # qs"
    by (auto elim!: andthen_eq_retE)
  with Cons.IH [of qs] show ?case by (auto simp: less_Suc_eq_0_disj)
qed simp

lemma run_threads_eq_ret:
  assumes "\<And>i. i < unat (wm_num_threads wm) \<Longrightarrow> je_create env i = 0"
    and "\<And>i. i < unat (wm_num_threads wm) \<Longrightarrow> je_join env i = 0"
    and "\<And>i. i < unat (wm_num_threads wm) \<Longrightarrow> (case wm_start_routines wm ! i of
        None \<Rightarrow> ps ! i = wm_packets wm ! i
      | Some r \<Rightarrow> exec i r (wm_packets wm ! i) = ret (ps ! i))"
    and "length ps = unat (wm_num_threads wm)"
  shows "run_threads exec env wm =
    ret (wm\<lparr>wm_created := map (\<lambda>i. wm_start_routines wm ! i \<noteq> None) [0..<unat (wm_num_threads wm)], wm_packets := ps\<rparr>)"
proof -
  let ?n = "unat (wm_num_threads wm)"
  have failed: "filter (fails_to_start (je_create env) wm) [0..<?n] = []"
    using assms(1) by (auto simp: filter_empty_conv fails_to_start_def)
  let ?wm = "wm\<lparr>wm_created := map (\<lambda>i. wm_start_routines wm ! i \<noteq> None) [0..<?n]\<rparr>"
  have "map (starts (je_create env) wm) [0..<?n] = map (\<lambda>i. wm_start_routines wm ! i \<noteq> None) [0..<?n]"
    using assms(1) by (simp add: starts_def)
  then have c: "snd (create (je_create env) (je_strerror env) wm) = Inr ?wm"
    using failed by (simp add: create_def Let_def)
  have stuck: "filter (\<lambda>i. je_join env i \<noteq> 0) (filter (\<lambda>i. wm_created ?wm ! i) [0..<?n]) = []"
    using assms(2) by (auto simp: filter_empty_conv)
  have j: "snd (join (je_timeout env) (je_join env) (\<lambda>_. True) (je_strerror env) ?wm) = ret ()"
    using stuck by (simp add: join_def Let_def list_all_iff)
  have "collect (thread_results exec ?wm) = ret ps"
  proof (rule collect_all)
    fix i assume "i < length (thread_results exec ?wm)"
    then have i: "i < ?n" by (simp add: thread_results_def)
    then show "thread_results exec ?wm ! i = ret (ps ! i)"
      using assms(3) [OF i] by (simp add: thread_results_def split: option.splits)
  qed (use assms(4) in \<open>simp add: thread_results_def\<close>)
  with c j show ?thesis by (simp add: run_threads_def)
qed

section \<open>The pool computes it\<close>

text \<open>A step of the pool changes nothing of the manager but packets and created flags.\<close>

lemma pool_step_frame:
  assumes "pool_step start next_step rc timed s s'"
  shows "(po_wm s')\<lparr>wm_created := [], wm_packets := []\<rparr> = (po_wm s)\<lparr>wm_created := [], wm_packets := []\<rparr>"
  using assms by cases simp_all

lemma pool_reaches_frame:
  assumes "pool_reaches start next_step rc timed wm s"
  shows "(po_wm s)\<lparr>wm_created := [], wm_packets := []\<rparr> = wm\<lparr>wm_created := [], wm_packets := []\<rparr>"
  using assms unfolding pool_reaches_def
  by (induction rule: rtranclp_induct) (simp_all add: initial_pool_def pool_step_frame)

lemma manager_eq:
  assumes "wm\<lparr>wm_created := [], wm_packets := []\<rparr> = wm'\<lparr>wm_created := [], wm_packets := []\<rparr>"
  shows "wm = wm'\<lparr>wm_created := wm_created wm, wm_packets := wm_packets wm\<rparr>"
  using assms by (cases wm; cases wm') simp

lemma joined_manager:
  assumes "manager_wf wm" and "pool_reaches start next_step rc timed wm s" and "po_pc s = Joined"
  shows "wm_created (po_wm s) = map (\<lambda>i. wm_start_routines wm ! i \<noteq> None) [0..<unat (wm_num_threads wm)]"
    and "length (wm_packets (po_wm s)) = unat (wm_num_threads wm)"
proof -
  have inv: "stepped.pool_inv start next_step wm s" by (rule stepped.pool_inv_reaches [OF assms(1,2)])
  then have len: "length (wm_created (po_wm s)) = unat (wm_num_threads wm)"
    and "length (wm_packets (po_wm s)) = unat (wm_num_threads wm)"
    by (simp_all add: stepped.pool_inv_def manager_wf_def)
  then show "length (wm_packets (po_wm s)) = unat (wm_num_threads wm)" by blast
  show "wm_created (po_wm s) = map (\<lambda>i. wm_start_routines wm ! i \<noteq> None) [0..<unat (wm_num_threads wm)]"
  proof (rule nth_equalityI)
    fix i assume "i < length (wm_created (po_wm s))"
    then have i: "i < unat (wm_num_threads wm)" using len by simp
    then have "stepped.thread_inv start next_step wm s i" using inv by (simp add: stepped.pool_inv_def)
    then show "wm_created (po_wm s) ! i = map (\<lambda>i. wm_start_routines wm ! i \<noteq> None) [0..<unat (wm_num_threads wm)] ! i"
      using i assms(3) by (simp add: stepped.thread_inv_def stepped.main_ok_def)
  qed (simp add: len)
qed

text \<open>
  C11. Running the threads of a manager. Whatever the interleaving that takes the main thread
  past \<open>join\<close>, the manager it leaves behind is the one that \<open>run_threads\<close> computes from the
  routines one after the other, when no system call fails: the sequential operation the
  programs are built from is implemented by every schedule.
\<close>

theorem run_threads_in_pool:
  assumes "manager_wf wm" and "pool_reaches worker_start (worker_step te) rc timed wm s" and "po_pc s = Joined"
    and "\<forall>i < unat (wm_num_threads wm). je_create env i = 0 \<and> je_join env i = 0"
  shows "run_threads (\<lambda>i r p. routine r (te i) p) env wm = ret (po_wm s)"
proof -
  note j = joined_manager [OF assms(1-3)]
  have "run_threads (\<lambda>i r p. routine r (te i) p) env wm =
    ret (wm\<lparr>wm_created := map (\<lambda>i. wm_start_routines wm ! i \<noteq> None) [0..<unat (wm_num_threads wm)],
      wm_packets := wm_packets (po_wm s)\<rparr>)"
  proof (rule run_threads_eq_ret)
    fix i assume i: "i < unat (wm_num_threads wm)"
    then show "je_create env i = 0" "je_join env i = 0" using assms(4) by simp_all
    show "case wm_start_routines wm ! i of
        None \<Rightarrow> wm_packets (po_wm s) ! i = wm_packets wm ! i
      | Some r \<Rightarrow> routine r (te i) (wm_packets wm ! i) = ret (wm_packets (po_wm s) ! i)"
      using stepped.joined_results [OF assms(1-3) i]
      by (cases "wm_start_routines wm ! i") (simp_all add: worker_run worker_start_def)
  qed (rule j)
  with j(1) manager_eq [OF pool_reaches_frame [OF assms(2)]] show ?thesis by simp
qed

lemma run_threads_in_pool_witness:
  "\<exists>s. pool_reaches worker_start (worker_step (\<lambda>_. example_thread_env)) (\<lambda>_. 0) False one_worker s \<and>
     run_threads (\<lambda>i r p. routine r example_thread_env p)
       \<lparr>je_create = (\<lambda>_. 0), je_join = (\<lambda>_. 0), je_timeout = 300, je_strerror = (\<lambda>_. '''')\<rparr> one_worker =
     ret (po_wm s)"
proof -
  obtain r where r: "MemRegion small_env 16384 16384 4096 64 NATIVE NONE = Inr r"
    using small_region [of 16384 4096 64] by auto
  have "mem_region_alloc_bw example_thread_env example_packet = ret (example_packet\<lparr>pk_mem_region := Some r\<rparr>)"
    using r by (simp add: mem_region_alloc_bw_def example_thread_env_def example_packet_def
        MemLatBwThreadPacket_def mem_type_of_def)
  then obtain s where s: "pool_reaches worker_start (worker_step (\<lambda>_. example_thread_env)) (\<lambda>_. 0) False one_worker s"
      "po_pc s = Joined"
    using one_worker_runs [of "\<lambda>_. example_thread_env"] by blast
  have "manager_wf one_worker" by (simp add: one_worker_def manager_wf_def)
  from run_threads_in_pool [OF this s, of "\<lparr>je_create = (\<lambda>_. 0), je_join = (\<lambda>_. 0), je_timeout = 300,
      je_strerror = (\<lambda>_. '''')\<rparr>"] s(1) show ?thesis by auto
qed

end
