(* ===== verification/Program_Common.thy ===== *)
theory Program_Common
  imports Run_Threads
begin

text \<open>
  What the main programs under \<open>src/cpu_micro\<close> share: their output as a list of events,
  the preparation of the packets, the sums over the packets, and the table of NUMA nodes
  that the latency and the bandwidth program print. Field widths and precisions are not
  modelled: a number is printed as the value it has. A \<open>Warning\<close> goes to the standard error
  stream.
\<close>

section \<open>Output and loops\<close>

datatype event = Text string | Number rat | Warning string

type_synonym mem_manager = "(unit mem_packet_ext cpu_micro_packet_ext, mem_routine) worker_manager"

definition endl :: event where
  "endl = Text newline"

definition node_name :: "u32 \<Rightarrow> event" where
  "node_name i = Text (''Node-'' @ show_nat (unat i))"

text \<open>A \<open>for\<close> loop over a list with a state, whose body may fault.\<close>

fun for_each :: "('a \<Rightarrow> 's \<Rightarrow> 's run) \<Rightarrow> 'a list \<Rightarrow> 's \<Rightarrow> 's run" where
  "for_each f [] s = ret s"
| "for_each f (x # xs) s = andthen (f x s) (for_each f xs)"

section \<open>Packets\<close>

definition map_packets :: "(u32 \<Rightarrow> mem_packet \<Rightarrow> mem_packet) \<Rightarrow> mem_manager \<Rightarrow> mem_manager" where
  "map_packets f wm = wm\<lparr>wm_packets := map2 f (below (wm_num_threads wm)) (wm_packets wm)\<rparr>"

definition prepare_mem_lat_bw_thread_packet :: "mem_manager \<Rightarrow> configuration \<Rightarrow> i32 \<Rightarrow> mem_manager" where
  "prepare_mem_lat_bw_thread_packet wm config node =
     map_packets (\<lambda>_ p. (copy_mem_region_config config p)\<lparr>pk_mem_type := 1 + node\<rparr>) wm"

text \<open>What the threads of one run meet: their environments and the system calls.\<close>

record run_env =
  rn_threads :: "nat \<Rightarrow> thread_env"
  rn_join :: join_env

definition run_workers :: "run_env \<Rightarrow> mem_manager \<Rightarrow> mem_manager run" where
  "run_workers env wm = run_threads (\<lambda>i r p. routine r (rn_threads env i) p) (rn_join env) wm"

definition run_routine :: "run_env \<Rightarrow> mem_routine \<Rightarrow> mem_manager \<Rightarrow> mem_manager run" where
  "run_routine env r wm = run_workers env (setRoutine (Some r) wm)"

text \<open>The sums over the packets: unsigned, and in \<open>double\<close>, in the order of the threads.\<close>

definition total_of :: "(mem_packet \<Rightarrow> u64) \<Rightarrow> mem_packet list \<Rightarrow> u64" where
  "total_of f ps = foldl (\<lambda>t p. t + f p) 0 ps"

definition total_exec_time :: "mem_packet list \<Rightarrow> rat" where
  "total_exec_time ps = foldl (\<lambda>t p. double (t + pk_exec_time p)) 0 ps"

text \<open>
  A \<open>double\<close> division. The quotient by zero is infinite or not a number; every quotient
  here ends up in a conversion to an integer type, which is undefined for such a value.
\<close>

definition fdiv :: "rat \<Rightarrow> rat \<Rightarrow> fault + rat" where
  "fdiv x y =
     (if y = 0 then Inl (Undefined_Behaviour ''floating-point value out of range'')
      else Inr (double (x / y)))"

definition u64_double :: "u64 \<Rightarrow> rat" where
  "u64_double x = double (of_nat (unat x))"

definition to_u32 :: "rat \<Rightarrow> fault + u32" where
  "to_u32 x = map_sum id word_of_int (to_unsigned 32 x)"

section \<open>The table of nodes\<close>

text \<open>
  One line per node that has CPUs the process may use; in a line one cell per node whose
  memory reaches the limit.
\<close>

definition node_row ::
    "int \<Rightarrow> (u32 \<Rightarrow> u32 \<Rightarrow> u32 list \<Rightarrow> event list run) \<Rightarrow> numa_config \<Rightarrow> u32 \<Rightarrow> event list \<Rightarrow> event list run" where
  "node_row limit cell nc i out =
     andthen (lift_run (map_at (node_to_allowed_cpus nc) i))
       (\<lambda>cpus.
          if length cpus = 0 then ret out
          else for_each
            (\<lambda>j out. andthen (lift_run (map_at (node_to_mem nc) j))
               (\<lambda>mem. if mem < limit then ret out
                      else andthen (cell i j cpus) (\<lambda>o'. ret (out @ o'))))
            (below (num_numa_nodes nc)) (out @ [endl, node_name i]))"

definition node_matrix ::
    "string \<Rightarrow> int \<Rightarrow> (u32 \<Rightarrow> u32 \<Rightarrow> u32 list \<Rightarrow> event list run) \<Rightarrow> numa_config \<Rightarrow> event list run" where
  "node_matrix title limit cell nc =
     andthen (for_each (node_row limit cell nc) (below (num_numa_nodes nc))
         (Text title # map node_name (below (num_numa_nodes nc))))
       (\<lambda>out. ret (out @ [endl]))"

end
