(* ===== verification/Latency_Bandwidth_Programs.thy ===== *)
theory Latency_Bandwidth_Programs
  imports Program_Common
begin

text \<open>
  The programs \<open>src/cpu_micro/cpu_idle_latency.cc\<close> and
  \<open>src/cpu_micro/cpu_peak_bandwidth.cc\<close>. An environment gives each run of the threads its
  own answers; \<open>hw\<close> is \<open>std::thread::hardware_concurrency()\<close>. The setup time that the
  bandwidth program prints comes from the named timers and is a parameter text.
\<close>

section \<open>Idle latency\<close>

definition setup_memory_regions_idle_latency :: "run_env \<Rightarrow> mem_manager \<Rightarrow> configuration \<Rightarrow> i32 \<Rightarrow> mem_manager run" where
  "setup_memory_regions_idle_latency env wm config node =
     run_routine env Alloc_Lat (prepare_mem_lat_bw_thread_packet wm config node)"

definition idle_latency_packet :: "configuration \<Rightarrow> u32 \<Rightarrow> mem_packet \<Rightarrow> mem_packet" where
  "idle_latency_packet config last_measured_lat_ps p =
     p\<lparr>pk_kernel_lat := Some kernel_lat, pk_ref_latency_ps := last_measured_lat_ps,
       pk_target_duration := (if last_measured_lat_ps > 0 then cf_target_duration_s config else 1)\<rparr>"

text \<open>The average latency in nanoseconds, over all threads.\<close>

definition average_latency :: "mem_packet list \<Rightarrow> fault + rat" where
  "average_latency ps =
     fdiv (double (total_exec_time ps * 10 ^ 9)) (u64_double (total_of pk_finished_chases ps))"

definition measure_idle_latency ::
    "run_env \<Rightarrow> mem_manager \<Rightarrow> configuration \<Rightarrow> u32 \<Rightarrow> (event list \<times> mem_manager \<times> u32) run" where
  "measure_idle_latency env wm config last_measured_lat_ps =
     andthen (run_routine env Lat_Ptr
         (map_packets (\<lambda>_. idle_latency_packet config last_measured_lat_ps) wm))
       (\<lambda>wm'. andthen (lift_run (average_latency (wm_packets wm')))
         (\<lambda>latency. andthen (lift_run (to_u32 (double (latency * 1000))))
           (\<lambda>ps. ret (if last_measured_lat_ps > 0 then [Number latency] else [], wm', ps))))"

definition run_idle_latency :: "(nat \<Rightarrow> run_env) \<Rightarrow> mem_manager \<Rightarrow> configuration \<Rightarrow> event list run" where
  "run_idle_latency envs wm config =
     andthen (measure_idle_latency (envs 1) wm config 0)
       (\<lambda>(o1, wm1, last_lat_ps). andthen (measure_idle_latency (envs 2) wm1 config last_lat_ps)
         (\<lambda>(o2, wm2, _). ret (o1 @ o2)))"

text \<open>One cell of the matrix: a manager of its own, always bound to the CPUs of the node.\<close>

definition idle_latency_cell ::
    "(nat \<Rightarrow> run_env) \<Rightarrow> u32 \<Rightarrow> configuration \<Rightarrow> u32 \<Rightarrow> u32 list \<Rightarrow> event list run" where
  "idle_latency_cell envs hw config j node_cpus =
     (case WorkerThreadManager hw MemLatBwThreadPacket
         (min (cf_num_threads config) (of_nat (length node_cpus))) node_cpus True (cf_verbose config) of
        (text, _, wm) \<Rightarrow>
          andthen (setup_memory_regions_idle_latency (envs 0) wm config j)
            (\<lambda>wm1. andthen (run_idle_latency envs wm1 config) (\<lambda>o1. ret (Text text # o1))))"

definition setup_and_run_idle_latency ::
    "(u32 \<Rightarrow> u32 \<Rightarrow> nat \<Rightarrow> run_env) \<Rightarrow> u32 \<Rightarrow> configuration \<Rightarrow> event list run" where
  "setup_and_run_idle_latency envs hw config =
     andthen
       (if cf_latency_matrix config
        then node_matrix
          (''Idle Latency (ns) - '' @ get_str_access_pattern_short (cf_access_pattern config))
          (push_bit 30 1) (\<lambda>i j. idle_latency_cell (envs i j) hw config j) (cf_numa_config config)
        else (case WorkerThreadManager hw MemLatBwThreadPacket (cf_num_threads config)
                (all_allowed_cpus (cf_numa_config config)) (\<not> cf_no_binding config) (cf_verbose config) of
             (text, _, wm) \<Rightarrow>
               andthen (setup_memory_regions_idle_latency (envs 0 0 0) wm config (- 1))
                 (\<lambda>wm1. andthen (run_idle_latency (envs 0 0) wm1 config)
                   (\<lambda>o1. ret ([Text text, Text (''Idle Latency - '' @
                       get_str_access_pattern_short (cf_access_pattern config) @ '' : '')] @ o1 @
                     [Text '' ns'', endl])))))
       (\<lambda>out. ret (out @ [endl]))"

text \<open>A main program: the exit status and the output, or the text it prints on an error.\<close>

definition main_idle_latency ::
    "(u32 \<Rightarrow> u32 \<Rightarrow> nat \<Rightarrow> run_env) \<Rightarrow> u32 \<Rightarrow> numa_config \<Rightarrow> string list \<Rightarrow> (int \<times> event list) run" where
  "main_idle_latency envs hw nc args =
     (case parse_options (Configuration nc LATENCY) args of
        Inl err \<Rightarrow> ret (1, [])
      | Inr config \<Rightarrow> andthen (setup_and_run_idle_latency envs hw config)
          (\<lambda>out. ret (0, Text (cf_dump config) # out)))"

section \<open>Peak bandwidth\<close>

definition setup_memory_regions_peak_bandwidth :: "run_env \<Rightarrow> mem_manager \<Rightarrow> configuration \<Rightarrow> i32 \<Rightarrow> mem_manager run" where
  "setup_memory_regions_peak_bandwidth env wm config node =
     run_routine env Alloc_Bw (prepare_mem_lat_bw_thread_packet wm config node)"

definition peak_bandwidth_packet :: "kernel \<Rightarrow> configuration \<Rightarrow> u32 \<Rightarrow> u32 \<Rightarrow> mem_packet \<Rightarrow> mem_packet" where
  "peak_bandwidth_packet kernel_bw config read_write_mix last_measured_bw_gbps p =
     p\<lparr>pk_kernel_bw := Some kernel_bw, pk_read_write_mix := read_write_mix,
       pk_ref_total_bw_gbps := last_measured_bw_gbps,
       pk_num_total_threads := num_cpus (cf_numa_config config),
       pk_target_duration := (if last_measured_bw_gbps > 0 then cf_target_duration_s config else 1)\<rparr>"

text \<open>The bandwidth in bytes per second: the bytes per second of a thread, times the threads.\<close>

definition average_bandwidth :: "u32 \<Rightarrow> u64 \<Rightarrow> rat \<Rightarrow> fault + rat" where
  "average_bandwidth num_threads total_bytes total_time =
     map_sum id (\<lambda>x. double (x * of_nat (unat num_threads))) (fdiv (u64_double total_bytes) total_time)"

definition measure_peak_bandwidth ::
    "run_env \<Rightarrow> mem_manager \<Rightarrow> kernel \<Rightarrow> configuration \<Rightarrow> u32 \<Rightarrow> u32 \<Rightarrow> (event list \<times> mem_manager \<times> u32) run" where
  "measure_peak_bandwidth env wm kernel_bw config read_write_mix last_measured_bw_gbps =
     andthen (run_routine env Bw_Sequential
         (map_packets (\<lambda>_. peak_bandwidth_packet kernel_bw config read_write_mix last_measured_bw_gbps) wm))
       (\<lambda>wm'. andthen (lift_run (average_bandwidth (wm_num_threads wm')
             (total_of pk_finished_bytes (wm_packets wm')) (total_exec_time (wm_packets wm'))))
         (\<lambda>mem_bw.
            let mem_bw_mbps = double (double (mem_bw / 1024) / 1024);
                mem_bw_gbps = double (mem_bw_mbps / 1024);
                out = (if last_measured_bw_gbps > 0
                       then if cf_bandwidth_matrix config then [Number mem_bw_gbps]
                            else [Text (get_str_rw_mix read_write_mix), Text '' :'', Number mem_bw_mbps,
                                  Text '' MB/s | '', Number mem_bw_gbps, Text '' GB/s'', endl]
                       else [])
            in andthen (lift_run (to_u32 mem_bw_gbps)) (\<lambda>gbps. ret (out, wm', gbps))))"

fun bandwidth_sweep ::
    "(nat \<Rightarrow> run_env) \<Rightarrow> nat \<Rightarrow> configuration \<Rightarrow> (u32 \<times> kernel) list \<Rightarrow> mem_manager \<Rightarrow> u32 \<Rightarrow> event list run" where
  "bandwidth_sweep envs k config [] wm last_bw_gbps = ret []"
| "bandwidth_sweep envs k config ((read_write_mix, kernel_bw) # items) wm last_bw_gbps =
     andthen (measure_peak_bandwidth (envs k) wm kernel_bw config read_write_mix last_bw_gbps)
       (\<lambda>(o1, wm', bw). andthen (bandwidth_sweep envs (Suc k) config items wm' bw) (\<lambda>o2. ret (o1 @ o2)))"

text \<open>\<open>push_front(front())\<close> repeats the first kernel: its first run only calibrates.\<close>

definition run_peak_bandwidth :: "(nat \<Rightarrow> run_env) \<Rightarrow> mem_manager \<Rightarrow> configuration \<Rightarrow> event list run" where
  "run_peak_bandwidth envs wm config =
     (let rwmix_and_kernels = get_kernels_with_wrmix (cf_read_write_mix config)
      in bandwidth_sweep envs 1 config (hd rwmix_and_kernels # rwmix_and_kernels) wm 0)"

definition peak_bandwidth_cell ::
    "(nat \<Rightarrow> run_env) \<Rightarrow> u32 \<Rightarrow> configuration \<Rightarrow> u32 \<Rightarrow> u32 list \<Rightarrow> event list run" where
  "peak_bandwidth_cell envs hw config j node_cpus =
     (case WorkerThreadManager hw MemLatBwThreadPacket
         (min (cf_num_threads config) (of_nat (length node_cpus))) node_cpus True (cf_verbose config) of
        (text, _, wm) \<Rightarrow>
          andthen (setup_memory_regions_peak_bandwidth (envs 0) wm config j)
            (\<lambda>wm1. andthen (run_peak_bandwidth envs wm1 config) (\<lambda>o1. ret (Text text # o1))))"

definition setup_and_run_peak_bandwidth ::
    "(u32 \<Rightarrow> u32 \<Rightarrow> nat \<Rightarrow> run_env) \<Rightarrow> string \<Rightarrow> u32 \<Rightarrow> configuration \<Rightarrow> event list run" where
  "setup_and_run_peak_bandwidth envs setup_time hw config =
     andthen
       (if cf_bandwidth_matrix config
        then node_matrix ''Peak Bandwidth (GB/s)'' (push_bit 30 2)
          (\<lambda>i j. peak_bandwidth_cell (envs i j) hw config j) (cf_numa_config config)
        else (case WorkerThreadManager hw MemLatBwThreadPacket (cf_num_threads config)
                (all_allowed_cpus (cf_numa_config config)) (\<not> cf_no_binding config) (cf_verbose config) of
             (text, _, wm) \<Rightarrow>
               andthen (setup_memory_regions_peak_bandwidth (envs 0 0 0) wm config (- 1))
                 (\<lambda>wm1. andthen (run_peak_bandwidth (envs 0 0) wm1 config)
                   (\<lambda>o1. ret ([Text text, Text setup_time] @ o1)))))
       (\<lambda>out. ret (out @ [endl]))"

definition main_peak_bandwidth ::
    "(u32 \<Rightarrow> u32 \<Rightarrow> nat \<Rightarrow> run_env) \<Rightarrow> string \<Rightarrow> u32 \<Rightarrow> numa_config \<Rightarrow> string list \<Rightarrow> (int \<times> event list) run" where
  "main_peak_bandwidth envs setup_time hw nc args =
     (case parse_options (Configuration nc BANDWIDTH) args of
        Inl err \<Rightarrow> ret (1, [])
      | Inr config0 \<Rightarrow>
          let config = (if cf_bandwidth_matrix config0 \<and> cf_read_write_mix config0 = read_write_mix_sweep
                        then config0\<lparr>cf_read_write_mix := 0\<rparr> else config0)
          in andthen (setup_and_run_peak_bandwidth envs setup_time hw config)
            (\<lambda>out. ret (0, Text (cf_dump config) # out)))"

end
