(* ===== verification/Loaded_Memcpy_Programs.thy ===== *)
theory Loaded_Memcpy_Programs
  imports Latency_Bandwidth_Programs
begin

text \<open>
  The programs \<open>src/cpu_micro/cpu_loaded_latency.cc\<close> and \<open>src/cpu_micro/cpu_memcpy.cc\<close>.
\<close>

section \<open>Loaded latency\<close>

definition setup_memory_regions_loaded_latency :: "run_env \<Rightarrow> mem_manager \<Rightarrow> configuration \<Rightarrow> mem_manager run" where
  "setup_memory_regions_loaded_latency env wm config =
     run_workers env
       (setRoutine_if (Some Alloc_Bw) (\<lambda>idx. idx > 0)
         (setRoutine_if (Some Alloc_Lat) (\<lambda>idx. idx = 0)
           (prepare_mem_lat_bw_thread_packet wm config (- 1))))"

definition loaded_latency_packet :: "kernel \<Rightarrow> configuration \<Rightarrow> u32 \<Rightarrow> u32 \<Rightarrow> u32 \<Rightarrow> mem_packet \<Rightarrow> mem_packet" where
  "loaded_latency_packet kernel_bw config last_measured_lat_ps last_measured_bw_gbps i p =
     p\<lparr>pk_kernel_lat := Some kernel_lat, pk_ref_latency_ps := last_measured_lat_ps,
       pk_kernel_bw := Some kernel_bw, pk_read_write_mix := cf_read_write_mix config,
       pk_ref_total_bw_gbps := last_measured_bw_gbps,
       pk_num_total_threads := num_cpus (cf_numa_config config),
       pk_target_duration :=
         (if i = 0 then if last_measured_lat_ps > 0 then cf_target_duration_s config else 1
          else if last_measured_bw_gbps > 0 then cf_target_duration_s config else 1)\<rparr>"

definition measure_loaded_latency ::
    "run_env \<Rightarrow> mem_manager \<Rightarrow> kernel \<Rightarrow> configuration \<Rightarrow> u32 \<Rightarrow> u32 \<Rightarrow> u32 \<Rightarrow>
     (event list \<times> mem_manager \<times> u32 \<times> u32) run" where
  "measure_loaded_latency env wm kernel_bw config last_measured_lat_ps last_measured_bw_gbps delay =
     andthen (run_workers env
         (setRoutine_if (Some Bw_Sequential) (\<lambda>idx. idx > 0)
           (setRoutine_if (Some Lat_Ptr) (\<lambda>idx. idx = 0)
             (map_packets (loaded_latency_packet kernel_bw config last_measured_lat_ps last_measured_bw_gbps) wm))))
       (\<lambda>wm'. case wm_packets wm' of
           [] \<Rightarrow> fail (Undefined_Behaviour ''packet 0 of an empty vector'')
         | p0 # ps \<Rightarrow>
             let latency_chases = pk_finished_chases p0;
                 latency_exec_time = pk_exec_time p0;
                 total_bytes = foldl (\<lambda>t p. t + pk_finished_bytes p)
                   (latency_chases * ucast (cf_stride_size_b config)) ps;
                 total_time = foldl (\<lambda>t p. double (t + pk_exec_time p)) latency_exec_time ps
             in andthen (lift_run (fdiv (double (latency_exec_time * 10 ^ 9)) (u64_double latency_chases)))
               (\<lambda>latency. andthen (lift_run (average_bandwidth (cf_num_threads config) total_bytes total_time))
                 (\<lambda>mem_bw.
                    let mem_bw_gbps = double (double (double (mem_bw / 1024) / 1024) / 1024);
                        out = (if last_measured_lat_ps > 0 \<or> last_measured_bw_gbps > 0
                               then [Number (of_nat (unat delay)), Number mem_bw_gbps, Number latency, endl]
                               else [])
                    in andthen (lift_run (to_u32 (double (latency * 1000))))
                      (\<lambda>lat_ps. andthen (lift_run (to_u32 mem_bw_gbps))
                        (\<lambda>bw_gbps. ret (out, wm', lat_ps, bw_gbps))))))"

text \<open>
  The delays to sweep: with a requested delay, the entries that came closer than every entry
  before them and than the request itself is to 0, of which the last remains.
\<close>

fun nearest_delay :: "int \<Rightarrow> (i32 \<times> kernel) list \<Rightarrow> int \<Rightarrow> (i32 \<times> kernel) list \<Rightarrow> (i32 \<times> kernel) list" where
  "nearest_delay requested [] gap found = found"
| "nearest_delay requested (item # items) gap found =
     (let curr_gap = \<bar>sint (fst item) - requested\<bar>
      in if curr_gap < gap then nearest_delay requested items curr_gap [item]
         else nearest_delay requested items gap found)"

definition build_delays_and_kernels :: "configuration \<Rightarrow> fault + (i32 \<times> kernel) list" where
  "build_delays_and_kernels config =
     (let raw = get_kernels_with_delays (cf_read_write_mix config);
          requested = sint (cf_load_gen_delay config);
          found = (if requested > 0 then nearest_delay requested raw requested [] else raw)
      in case found of
           [] \<Rightarrow> Inl (Undefined_Behaviour ''front of an empty list'')
         | item # _ \<Rightarrow> Inr (item # found))"

fun delay_sweep ::
    "(nat \<Rightarrow> run_env) \<Rightarrow> nat \<Rightarrow> configuration \<Rightarrow> (i32 \<times> kernel) list \<Rightarrow> mem_manager \<Rightarrow> u32 \<Rightarrow> u32 \<Rightarrow> event list run" where
  "delay_sweep envs k config [] wm last_lat_ps last_bw_gbps = ret []"
| "delay_sweep envs k config ((delay, kernel_bw) # items) wm last_lat_ps last_bw_gbps =
     andthen (measure_loaded_latency (envs k) wm kernel_bw config last_lat_ps last_bw_gbps delay)
       (\<lambda>(o1, wm', lat, bw). andthen (delay_sweep envs (Suc k) config items wm' lat bw)
         (\<lambda>o2. ret (o1 @ o2)))"

definition main_loaded_latency ::
    "(nat \<Rightarrow> run_env) \<Rightarrow> string \<Rightarrow> u32 \<Rightarrow> numa_config \<Rightarrow> string list \<Rightarrow> (int \<times> event list) run" where
  "main_loaded_latency envs setup_time hw nc args =
     (case parse_options (Configuration nc LATENCY_BANDWIDTH) args of
        Inl err \<Rightarrow> ret (1, [])
      | Inr config \<Rightarrow>
          (case WorkerThreadManager hw MemLatBwThreadPacket (cf_num_threads config)
              (all_allowed_cpus (cf_numa_config config)) (\<not> cf_no_binding config) (cf_verbose config) of
             (text, _, wm) \<Rightarrow>
               andthen (lift_run (build_delays_and_kernels config))
                 (\<lambda>items. andthen (setup_memory_regions_loaded_latency (envs 0) wm config)
                   (\<lambda>wm1. andthen (delay_sweep envs 1 config items wm1 0 0)
                     (\<lambda>o1. ret (0, [Text (cf_dump config), Text text, Text setup_time, Text ''delay'',
                         Text ''bandwidth'', Text ''latency'', Text '' - '',
                         Text (get_str_access_pattern_short (cf_access_pattern config)), endl] @ o1 @ [endl]))))))"

section \<open>Memcpy\<close>

definition setup_memory_regions_memcpy :: "run_env \<Rightarrow> mem_manager \<Rightarrow> configuration \<Rightarrow> mem_manager run" where
  "setup_memory_regions_memcpy env wm config =
     run_routine env Alloc_Memcpy (prepare_mem_lat_bw_thread_packet wm config (- 1))"

definition memcpy_packet :: "memcpy_fun \<Rightarrow> configuration \<Rightarrow> u64 \<Rightarrow> mem_packet \<Rightarrow> mem_packet" where
  "memcpy_packet kernel_memcpy config last_measured_exec_time_ns p =
     p\<lparr>pk_kernel_memcpy := Some kernel_memcpy, pk_fragment_size := cf_fragment_size_b config,
       pk_ref_one_exec_time_ns := last_measured_exec_time_ns,
       pk_target_duration := (if last_measured_exec_time_ns > 0 then cf_target_duration_s config else 1)\<rparr>"

definition measure_memcpy_bandwidth ::
    "run_env \<Rightarrow> mem_manager \<Rightarrow> memcpy_fun \<Rightarrow> configuration \<Rightarrow> u64 \<Rightarrow> (event list \<times> mem_manager \<times> u64) run" where
  "measure_memcpy_bandwidth env wm kernel_memcpy config last_measured_exec_time_ns =
     andthen (run_routine env Copy_Fragment
         (map_packets (\<lambda>_. memcpy_packet kernel_memcpy config last_measured_exec_time_ns) wm))
       (\<lambda>wm'. andthen (lift_run (average_bandwidth (cf_num_threads config)
             (total_of pk_finished_bytes (wm_packets wm')) (total_exec_time (wm_packets wm'))))
         (\<lambda>copy_bw.
            let copy_bw_mbps = double (double (copy_bw / 1024) / 1024);
                copy_bw_gbps = double (copy_bw_mbps / 1024);
                out = (if last_measured_exec_time_ns > 0
                       then [Text ''Memcpy Bandwidth: '', Number copy_bw_mbps, Text '' MB/s | '',
                             Number copy_bw_gbps, Text '' GB/s'', endl]
                       else [])
            in andthen (lift_run (fdiv
                  (u64_double (cf_fragment_size_b config * ucast (cf_num_threads config))) copy_bw_gbps))
              (\<lambda>ns. andthen (lift_run (map_sum id word_of_int (to_unsigned 64 ns)))
                (\<lambda>ns'. ret (out, wm', ns')))))"

text \<open>The fragment size 0 means the whole region; the size must be positive and fit.\<close>

definition memcpy_config :: "configuration \<Rightarrow> string + configuration" where
  "memcpy_config config =
     (let config' = (if cf_fragment_size_b config = 0
                     then config\<lparr>cf_fragment_size_b := cf_region_size_kb config * 1024\<rparr> else config)
      in if cf_fragment_size_b config' = 0 \<or> cf_fragment_size_b config' > cf_region_size_kb config' * 1024
         then Inl (''Error: memcpy fragment size must be positive and fit within the region'' @ newline)
         else Inr config')"

definition main_memcpy ::
    "(nat \<Rightarrow> run_env) \<Rightarrow> string \<Rightarrow> u32 \<Rightarrow> numa_config \<Rightarrow> string list \<Rightarrow> (int \<times> event list) run" where
  "main_memcpy envs setup_time hw nc args =
     (case parse_options (Configuration nc MEMCPY) args of
        Inl err \<Rightarrow> ret (1, [])
      | Inr config0 \<Rightarrow>
          (case memcpy_config config0 of
             Inl err \<Rightarrow> ret (1, [])
           | Inr config \<Rightarrow>
               (case WorkerThreadManager hw MemLatBwThreadPacket (cf_num_threads config)
                   (all_allowed_cpus (cf_numa_config config)) (\<not> cf_no_binding config) (cf_verbose config) of
                  (text, _, wm) \<Rightarrow>
                    andthen (setup_memory_regions_memcpy (envs 0) wm config)
                      (\<lambda>wm1. andthen (measure_memcpy_bandwidth (envs 1) wm1 glibc_memcpy config 0)
                        (\<lambda>(o1, wm2, ns). andthen (measure_memcpy_bandwidth (envs 2) wm2 glibc_memcpy config ns)
                          (\<lambda>(o2, wm3, _). ret (0, [Text (cf_dump config), Text text, Text setup_time] @
                             o1 @ o2 @ [endl])))))))"

end
