(* ===== verification/Branch_Kernels.thy ===== *)
theory Branch_Kernels
  imports Prelude
begin

text \<open>
  The branch kernels, \<open>src/cpu_micro/kernels_branch.h\<close>: the assembly of
  \<open>branch_chain\<close> as a list of instructions for either processor, run by a small machine
  that counts the branches it takes and the padding it executes, and the table of cases.
\<close>

section \<open>The machine\<close>

text \<open>
  The forward branches go to the label right after the padding that follows them, the
  backward ones to the first instruction. \<open>Pad\<close> stands for what \<open>.p2align\<close> emits.
\<close>

datatype instr = Test | Jnz_Fwd | Jmp_Fwd | Cbnz_Fwd | Pad | Sub1 | Sub1_No_Flags | Jnz_Back | Cbnz_Back

record branch_machine =
  bm_pc :: nat
  bm_rounds :: u64
  bm_zf :: bool
  bm_taken :: nat
  bm_not_taken :: nat
  bm_pads :: nat

definition branch_to :: "bool \<Rightarrow> nat \<Rightarrow> branch_machine \<Rightarrow> branch_machine" where
  "branch_to c target m =
     (if c then m\<lparr>bm_pc := target, bm_taken := Suc (bm_taken m)\<rparr>
      else m\<lparr>bm_pc := Suc (bm_pc m), bm_not_taken := Suc (bm_not_taken m)\<rparr>)"

abbreviation advance :: "branch_machine \<Rightarrow> branch_machine" where
  "advance m \<equiv> m\<lparr>bm_pc := Suc (bm_pc m)\<rparr>"

fun exec_instr :: "instr \<Rightarrow> branch_machine \<Rightarrow> branch_machine" where
  "exec_instr Test m = advance (m\<lparr>bm_zf := (bm_rounds m = 0)\<rparr>)"
| "exec_instr Jnz_Fwd m = branch_to (\<not> bm_zf m) (bm_pc m + 2) m"
| "exec_instr Jmp_Fwd m = branch_to True (bm_pc m + 2) m"
| "exec_instr Cbnz_Fwd m = branch_to (bm_rounds m \<noteq> 0) (bm_pc m + 2) m"
| "exec_instr Pad m = advance (m\<lparr>bm_pads := Suc (bm_pads m)\<rparr>)"
| "exec_instr Sub1 m = advance (m\<lparr>bm_rounds := bm_rounds m - 1, bm_zf := (bm_rounds m = 1)\<rparr>)"
| "exec_instr Sub1_No_Flags m = advance (m\<lparr>bm_rounds := bm_rounds m - 1\<rparr>)"
| "exec_instr Jnz_Back m = branch_to (\<not> bm_zf m) 0 m"
| "exec_instr Cbnz_Back m = branch_to (bm_rounds m \<noteq> 0) 0 m"

partial_function (option) exec_branches :: "instr list \<Rightarrow> branch_machine \<Rightarrow> branch_machine option" where
  "exec_branches prog m =
     (if bm_pc m < length prog then exec_branches prog (exec_instr (prog ! bm_pc m) m) else Some m)"

section \<open>The chain\<close>

datatype arch = X86_64 | AArch64

fun forward_branch :: "arch \<Rightarrow> bool \<Rightarrow> instr" where
  "forward_branch _ False = Jmp_Fwd"
| "forward_branch X86_64 True = Jnz_Fwd"
| "forward_branch AArch64 True = Cbnz_Fwd"

definition chain_code :: "arch \<Rightarrow> nat \<Rightarrow> bool \<Rightarrow> instr list" where
  "chain_code a branches conditional =
     (if a = X86_64 \<and> conditional then [Test] else []) @
     concat (replicate branches [forward_branch a conditional, Pad]) @
     (case a of X86_64 \<Rightarrow> [Sub1, Jnz_Back] | AArch64 \<Rightarrow> [Sub1_No_Flags, Cbnz_Back])"

definition branch_chain :: "arch \<Rightarrow> nat \<Rightarrow> bool \<Rightarrow> u64 \<Rightarrow> branch_machine \<Rightarrow> branch_machine option" where
  "branch_chain a branches conditional rounds m =
     (if rounds = 0 then Some m
      else exec_branches (chain_code a branches conditional) (m\<lparr>bm_pc := 0, bm_rounds := rounds\<rparr>))"

text \<open>The alignment only shapes the padding: a case keeps it as its spacing.\<close>

record branch_case =
  bc_conditional :: bool
  bc_branches :: u32
  bc_spacing :: u32

definition branch_case_of :: "u32 \<Rightarrow> nat \<Rightarrow> bool \<Rightarrow> branch_case" where
  "branch_case_of n a c = \<lparr>bc_conditional = c, bc_branches = n, bc_spacing = push_bit a 1\<rparr>"

definition branch_cases :: "branch_case list" where
  "branch_cases =
     [branch_case_of 8 4 False, branch_case_of 32 4 False, branch_case_of 128 4 False,
      branch_case_of 8 6 False, branch_case_of 32 6 False, branch_case_of 128 6 False,
      branch_case_of 8 4 True, branch_case_of 32 4 True, branch_case_of 128 4 True,
      branch_case_of 8 6 True, branch_case_of 32 6 True, branch_case_of 128 6 True]"

definition branch_case_count :: u32 where
  "branch_case_count = 12"

definition taken_branches :: "u32 \<Rightarrow> u64 \<Rightarrow> u64" where
  "taken_branches branches rounds = (if rounds \<noteq> 0 then rounds * ucast (branches + 1) - 1 else 0)"

definition run_case :: "arch \<Rightarrow> branch_case \<Rightarrow> u64 \<Rightarrow> branch_machine \<Rightarrow> branch_machine option" where
  "run_case a c = branch_chain a (unat (bc_branches c)) (bc_conditional c)"

section \<open>Counting the branches\<close>

lemma exec_branches_step:
  "bm_pc m < length prog \<Longrightarrow> exec_branches prog m = exec_branches prog (exec_instr (prog ! bm_pc m) m)"
  by (simp add: exec_branches.simps)

lemma exec_branches_done: "\<not> bm_pc m < length prog \<Longrightarrow> exec_branches prog m = Some m"
  by (simp add: exec_branches.simps)

text \<open>A forward branch that is taken, wherever the code stands in the program.\<close>

definition goes_forward :: "instr \<Rightarrow> branch_machine \<Rightarrow> bool" where
  "goes_forward i m \<longleftrightarrow>
     (i = Jmp_Fwd \<or> (i = Jnz_Fwd \<and> \<not> bm_zf m) \<or> (i = Cbnz_Fwd \<and> bm_rounds m \<noteq> 0))"

lemma exec_forward:
  "goes_forward i m \<Longrightarrow> exec_instr i m = m\<lparr>bm_pc := bm_pc m + 2, bm_taken := Suc (bm_taken m)\<rparr>"
  by (auto simp: goes_forward_def branch_to_def)

lemma exec_chain:
  assumes "prog = pre @ concat (replicate n [i, Pad]) @ post" and "bm_pc m = length pre" and "goes_forward i m"
  shows "exec_branches prog m = exec_branches prog
    (m\<lparr>bm_pc := length pre + 2 * n, bm_taken := bm_taken m + n\<rparr>)"
  using assms
proof (induction n arbitrary: pre m)
  case 0
  then have "m\<lparr>bm_pc := length pre\<rparr> = m" by (cases m) simp
  then show ?case by simp
next
  case (Suc n)
  let ?m = "m\<lparr>bm_pc := length (pre @ [i, Pad]), bm_taken := Suc (bm_taken m)\<rparr>"
  have "exec_branches prog m = exec_branches prog ?m"
    using Suc.prems exec_forward [of i m] by (simp add: exec_branches_step nth_append)
  also have "\<dots> = exec_branches prog (?m\<lparr>bm_pc := length (pre @ [i, Pad]) + 2 * n, bm_taken := bm_taken ?m + n\<rparr>)"
    by (rule Suc.IH) (use Suc.prems in \<open>auto simp: goes_forward_def\<close>)
  finally show ?case by simp
qed

text \<open>One trip round the chain.\<close>

definition after_trip :: "arch \<Rightarrow> nat \<Rightarrow> bool \<Rightarrow> branch_machine \<Rightarrow> branch_machine" where
  "after_trip a n c m =
     (let more = (bm_rounds m \<noteq> 1)
      in m\<lparr>bm_pc := (if more then 0 else length (chain_code a n c)), bm_rounds := bm_rounds m - 1,
           bm_zf := (case a of X86_64 \<Rightarrow> \<not> more | AArch64 \<Rightarrow> bm_zf m), bm_taken := bm_taken m + n + (if more then 1 else 0),
           bm_not_taken := bm_not_taken m + (if more then 0 else 1)\<rparr>)"

lemma exec_trip:
  assumes "bm_pc m = 0" and "bm_rounds m \<noteq> 0"
  shows "exec_branches (chain_code a n c) m = exec_branches (chain_code a n c) (after_trip a n c m)"
proof -
  define pre where "pre = (if a = X86_64 \<and> c then [Test] else [])"
  define dec where "dec = (case a of X86_64 \<Rightarrow> Sub1 | AArch64 \<Rightarrow> Sub1_No_Flags)"
  define bk where "bk = (case a of X86_64 \<Rightarrow> Jnz_Back | AArch64 \<Rightarrow> Cbnz_Back)"
  let ?i = "forward_branch a c" and ?prog = "chain_code a n c"
  have prog: "?prog = pre @ concat (replicate n [?i, Pad]) @ [dec, bk]"
    by (cases a) (simp_all add: chain_code_def pre_def dec_def bk_def)
  have len: "length ?prog = length pre + 2 * n + 2" by (simp add: prog length_concat sum_list_replicate)
  have dec_pc: "bm_pc (exec_instr dec x) = Suc (bm_pc x)" for x by (cases a) (simp_all add: dec_def)
  define m1 where "m1 = (if pre = [] then m else m\<lparr>bm_zf := False, bm_pc := Suc 0\<rparr>)"
  have "exec_branches ?prog m = exec_branches ?prog m1"
  proof (cases "pre = []")
    case False
    then have "?prog ! 0 = Test" unfolding prog by (auto simp: pre_def split: if_splits)
    then show ?thesis using assms False len exec_branches_step [of m ?prog] by (simp add: m1_def)
  qed (simp add: m1_def)
  also have "\<dots> = exec_branches ?prog (m1\<lparr>bm_pc := length pre + 2 * n, bm_taken := bm_taken m1 + n\<rparr>)"
    using assms by (intro exec_chain [OF prog]) (cases a; cases c; simp add: m1_def pre_def goes_forward_def)+
  also have "\<dots> = exec_branches ?prog (exec_instr dec (m1\<lparr>bm_pc := length pre + 2 * n, bm_taken := bm_taken m1 + n\<rparr>))"
    using len by (subst exec_branches_step) (simp_all add: prog nth_append length_concat sum_list_replicate)
  also have "\<dots> = exec_branches ?prog (exec_instr bk
      (exec_instr dec (m1\<lparr>bm_pc := length pre + 2 * n, bm_taken := bm_taken m1 + n\<rparr>)))"
    using len by (subst exec_branches_step) (simp_all add: dec_pc prog nth_append length_concat sum_list_replicate)
  also have "exec_instr bk (exec_instr dec (m1\<lparr>bm_pc := length pre + 2 * n, bm_taken := bm_taken m1 + n\<rparr>)) =
      after_trip a n c m"
    using assms len by (cases a; cases c) (simp_all add: dec_def bk_def branch_to_def after_trip_def m1_def pre_def Let_def)
  finally show ?thesis .
qed

lemma exec_trips:
  assumes "bm_pc m = 0" and "bm_rounds m \<noteq> 0"
  shows "\<exists>z. exec_branches (chain_code a n c) m =
    Some (m\<lparr>bm_pc := length (chain_code a n c), bm_rounds := 0, bm_zf := z,
      bm_taken := bm_taken m + unat (bm_rounds m) * (n + 1) - 1, bm_not_taken := Suc (bm_not_taken m)\<rparr>)"
  using assms
proof (induction "unat (bm_rounds m)" arbitrary: m rule: less_induct)
  case less
  note trip = exec_trip [OF less.prems, of a n c]
  show ?case
  proof (cases "bm_rounds m = 1")
    case True
    then have "exec_branches (chain_code a n c) m = Some (after_trip a n c m)"
      using trip by (simp add: exec_branches_done after_trip_def)
    with True show ?thesis by (auto simp: after_trip_def)
  next
    case False
    let ?m = "after_trip a n c m"
    have r: "bm_rounds ?m = bm_rounds m - 1" "bm_pc ?m = 0" "bm_taken ?m = bm_taken m + n + 1"
      using False by (simp_all add: after_trip_def)
    have u: "unat (bm_rounds m - 1) = unat (bm_rounds m) - 1" "0 < unat (bm_rounds m)"
      using less.prems(2) by (simp_all add: unat_minus_one unat_gt_0)
    have nz: "bm_rounds m - 1 \<noteq> 0" using False by simp
    from less.hyps [of ?m] r u nz obtain z where z: "exec_branches (chain_code a n c) ?m =
      Some (?m\<lparr>bm_pc := length (chain_code a n c), bm_rounds := 0, bm_zf := z,
        bm_taken := bm_taken ?m + unat (bm_rounds ?m) * (n + 1) - 1, bm_not_taken := Suc (bm_not_taken ?m)\<rparr>)"
      by auto
    obtain k where k: "unat (bm_rounds m) = Suc k" using u(2) by (cases "unat (bm_rounds m)") auto
    have "0 < k" using nz u k by (metis diff_Suc_1 unat_eq_zero neq0_conv)
    have "bm_taken ?m + unat (bm_rounds ?m) * (n + 1) - 1 = bm_taken m + unat (bm_rounds m) * (n + 1) - 1"
      using r u k by simp
    with z trip False show ?thesis by (auto simp: after_trip_def)
  qed
qed

end
