(* ===== verification/Cycle_Counter.thy ===== *)
theory Cycle_Counter
  imports Floating
begin

text \<open>
  The hardware cycle counter, \<open>src/common/cycle_counter.h\<close>, under Linux. The answers of
  the system calls are the record \<open>perf_env\<close>: the descriptor \<open>perf_event_open\<close> returns,
  the results of the three \<open>ioctl\<close>s and of \<open>read\<close> with the fields it fills in, and what
  \<open>strerror(errno)\<close> says after a failure.
\<close>

record perf_env =
  pe_fd :: int
  pe_open_error :: string
  pe_reset :: int
  pe_enable :: int
  pe_ioctl_error :: string
  pe_disable :: int
  pe_read :: int
  pe_cycles :: u64
  pe_enabled :: u64
  pe_running :: u64

record cycle_counter =
  cc_fd :: int
  cc_error :: string

definition CycleCounter :: "perf_env \<Rightarrow> cycle_counter" where
  "CycleCounter env =
     \<lparr>cc_fd = pe_fd env, cc_error = (if pe_fd env < 0 then pe_open_error env else '''')\<rparr>"

definition cc_start :: "perf_env \<Rightarrow> cycle_counter \<Rightarrow> bool \<times> cycle_counter" where
  "cc_start env c =
     (if cc_fd c \<ge> 0
      then if pe_reset env = 0 \<and> pe_enable env = 0 then (True, c)
           else (False, c\<lparr>cc_error := pe_ioctl_error env\<rparr>)
      else (False, c))"

definition cc_stop :: "perf_env \<Rightarrow> cycle_counter \<Rightarrow> rat \<times> cycle_counter" where
  "cc_stop env c =
     (if cc_fd c \<ge> 0
      then if pe_disable env \<noteq> 0 \<or> pe_read env \<noteq> 24
           then (0, c\<lparr>cc_error := ''could not read hardware cycles''\<rparr>)
           else if pe_cycles env = 0 \<or> pe_running env = 0
           then (0, c\<lparr>cc_error := ''hardware cycle counter did not run''\<rparr>)
           else if pe_running env \<noteq> pe_enabled env
           then (0, c\<lparr>cc_error := ''hardware cycle counter was multiplexed''\<rparr>)
           else (double (of_nat (unat (pe_cycles env))), c)
      else (0, c))"

text \<open>The descriptors the destructor closes.\<close>

definition CycleCounter_destroy :: "cycle_counter \<Rightarrow> int list" where
  "CycleCounter_destroy c = (if cc_fd c \<ge> 0 then [cc_fd c] else [])"

text \<open>Whatever was called in between, the descriptor that was opened is the one closed.\<close>

lemma descriptor_closed:
  "CycleCounter_destroy (CycleCounter env) = (if pe_fd env \<ge> 0 then [pe_fd env] else [])"
  "CycleCounter_destroy (snd (cc_start env c)) = CycleCounter_destroy c"
  "CycleCounter_destroy (snd (cc_stop env c)) = CycleCounter_destroy c"
  by (simp_all add: CycleCounter_destroy_def CycleCounter_def cc_start_def cc_stop_def)

text \<open>When the counter has counted every cycle between start and stop.\<close>

definition counted :: "perf_env \<Rightarrow> bool" where
  "counted env \<longleftrightarrow>
     pe_fd env \<ge> 0 \<and> pe_reset env = 0 \<and> pe_enable env = 0 \<and> pe_disable env = 0 \<and> pe_read env = 24 \<and>
     pe_cycles env \<noteq> 0 \<and> pe_running env \<noteq> 0 \<and> pe_running env = pe_enabled env"

text \<open>A whole use of the counter: the cycles, 0 when starting failed, and the error.\<close>

definition use_counter :: "perf_env \<Rightarrow> rat \<times> string" where
  "use_counter env =
     (let (counting, c) = cc_start env (CycleCounter env);
          (cycles, c') = (if counting then cc_stop env c else (0, c))
      in (cycles, cc_error c'))"

text \<open>
  C27. The cycle count is never an estimate. A positive number of cycles is reported exactly
  when the counter was opened, started, stopped and read, ran, and was not multiplexed; it
  is then the count read, in double precision, with no error text. In every other case 0 is
  reported, with the system's or the counter's own text for the failure.
\<close>

theorem cycle_count_trustworthy:
  "if counted env
   then use_counter env = (double (of_nat (unat (pe_cycles env))), '''') \<and> 0 < fst (use_counter env)
   else fst (use_counter env) = 0 \<and>
     snd (use_counter env) \<in> {pe_open_error env, pe_ioctl_error env, ''could not read hardware cycles'',
       ''hardware cycle counter did not run'', ''hardware cycle counter was multiplexed''}"
proof (cases "counted env")
  case True
  then have "0 < unat (pe_cycles env)" by (simp add: counted_def unat_gt_0)
  then have "0 < double (of_nat (unat (pe_cycles env)))" by (rule rnd_pos [OF of_nat_0_less_iff [THEN iffD2]]) simp
  with True show ?thesis
    by (simp add: counted_def use_counter_def CycleCounter_def cc_start_def cc_stop_def)
next
  case False
  then show ?thesis
    by (auto simp: counted_def use_counter_def CycleCounter_def cc_start_def cc_stop_def split: if_splits)
qed

end
