(* ===== verification/Branch_Worker.thy ===== *)
theory Branch_Worker
  imports Branch_Kernels Cycle_Counter Checkpoint_Loop Workers
begin

text \<open>
  The branch worker, \<open>src/cpu_micro/worker_branch_throughput.h\<close>. It returns the packet and,
  as a witness of what the processor did, the branch machine after the last kernel call.
\<close>

section \<open>The worker\<close>

record br_packet = cpu_micro_packet +
  br_case_index :: u32
  br_sample_duration :: rat
  br_finished_branches :: u64
  br_cycles :: rat
  br_counter_error :: string

definition BrPredThreadPacket :: br_packet where
  "BrPredThreadPacket =
     \<lparr>bp_num_threads = 0, bp_thread_id = 0, pk_target_duration = 0, pk_exec_time = 0,
      br_case_index = 0, br_sample_duration = 0, br_finished_branches = 0, br_cycles = 0,
      br_counter_error = ''''\<rparr>"

record br_env =
  be_arch :: arch
  be_clock :: "nat \<Rightarrow> int"
  be_perf :: perf_env

definition batch_rounds :: u64 where
  "batch_rounds = 65536"

record br_state =
  bs_machine :: branch_machine
  bs_finished :: u64
  bs_timer :: timer
  bs_reads :: nat

text \<open>One turn of the \<open>do\<close> loop: whether it ends there, and its variables.\<close>

definition br_step :: "br_env \<Rightarrow> branch_case \<Rightarrow> rat \<Rightarrow> br_state \<Rightarrow> (bool \<times> br_state) option" where
  "br_step env c duration s =
     (case run_case (be_arch env) c batch_rounds (bs_machine s) of
        None \<Rightarrow> None
      | Some m \<Rightarrow>
          let t = endTimer (be_clock env (bs_reads s)) (bs_timer s);
              s' = \<lparr>bs_machine = m,
                    bs_finished = bs_finished s + taken_branches (bc_branches c) batch_rounds,
                    bs_timer = t, bs_reads = Suc (bs_reads s)\<rparr>
          in if getElapsedTime t \<ge> duration then Some (True, s')
             else Some (False, s'\<lparr>bs_timer := resumeTimer t\<rparr>))"

partial_function (option) br_loop :: "br_env \<Rightarrow> branch_case \<Rightarrow> rat \<Rightarrow> br_state \<Rightarrow> br_state option" where
  "br_loop env c duration s =
     Option.bind (br_step env c duration s)
       (\<lambda>(ended, s'). if ended then Some s' else br_loop env c duration s')"

definition branch_tp :: "br_env \<Rightarrow> branch_machine \<Rightarrow> br_packet \<Rightarrow> (branch_machine \<times> br_packet) run" where
  "branch_tp env m p =
     (if unat (br_case_index p) \<ge> length branch_cases
      then fail (Undefined_Behaviour ''branch case out of range'')
      else let c = branch_cases ! unat (br_case_index p) in
        Option.bind (run_case (be_arch env) c batch_rounds m)
          (\<lambda>m'. let (counting, cc) = cc_start (be_perf env) (CycleCounter (be_perf env))
                in Option.bind (br_loop env c (br_sample_duration p)
                      \<lparr>bs_machine = m', bs_finished = 0,
                       bs_timer = startTimer (be_clock env 0) Timer, bs_reads = 1\<rparr>)
                  (\<lambda>s. let (cycles, cc') = (if counting then cc_stop (be_perf env) cc else (0, cc))
                       in ret (bs_machine s,
                            p\<lparr>br_finished_branches := bs_finished s,
                              pk_exec_time := getElapsedTime (bs_timer s),
                              br_cycles := cycles, br_counter_error := cc_error cc'\<rparr>))))"

section \<open>What it counts\<close>

text \<open>A machine with only its counts, which is all a kernel call uses of it.\<close>

definition counts :: "branch_machine \<Rightarrow> nat \<times> nat \<times> nat" where
  "counts m = (bm_taken m, bm_not_taken m, bm_pads m)"

lemma branch_chain_counts_lemma:
  assumes "rounds \<noteq> 0"
  shows "\<exists>m'. branch_chain a n c rounds m = Some m' \<and>
    counts m' = (bm_taken m + (unat rounds * (n + 1) - 1), Suc (bm_not_taken m), bm_pads m)"
proof -
  let ?m = "m\<lparr>bm_pc := 0, bm_rounds := rounds\<rparr>"
  obtain z where z: "exec_branches (chain_code a n c) ?m =
    Some (?m\<lparr>bm_pc := length (chain_code a n c), bm_rounds := 0, bm_zf := z,
      bm_taken := bm_taken ?m + unat (bm_rounds ?m) * (n + 1) - 1, bm_not_taken := Suc (bm_not_taken ?m)\<rparr>)"
    using exec_trips [of ?m a n c] assms by auto
  have "0 < unat rounds" using assms by (simp add: unat_gt_0)
  then have pos: "1 \<le> unat rounds * (n + 1)" by simp
  have "bm_taken m + unat rounds * (n + 1) - 1 = bm_taken m + (unat rounds * (n + 1) - 1)"
    using pos by linarith
  then show ?thesis using z assms by (simp add: branch_chain_def counts_def del: mult_Suc_right)
qed

text \<open>The formula for the branches of a call, when it does not wrap.\<close>

lemma unat_taken_branches:
  assumes "rounds \<noteq> 0" and "unat rounds * (unat b + 1) \<le> 2 ^ 64" and "unat b + 1 < 2 ^ 32"
  shows "unat (taken_branches b rounds) = unat rounds * (unat b + 1) - 1"
proof -
  have r: "0 < unat rounds" using assms(1) by (simp add: unat_gt_0)
  have b1: "unat (b + 1) = unat b + 1" using assms(3) by (simp add: unat_word_ariths)
  have b64: "(ucast (b + 1) :: u64) = of_nat (unat b + 1)" by (simp only: b1 [symmetric] of_nat_unat)
  have "taken_branches b rounds = of_nat (unat rounds * (unat b + 1)) - 1"
    using assms(1) b64 by (simp add: taken_branches_def algebra_simps)
  also have "\<dots> = of_nat (unat rounds * (unat b + 1) - 1)" using r by (simp add: of_nat_diff)
  finally show ?thesis
    using assms(2) r unat_of_nat_64 [of "unat rounds * (unat b + 1) - 1"] by simp
qed

section \<open>The loop\<close>

text \<open>The sample duration is reached first at the \<open>K\<close>-th reading after the start.\<close>

definition elapsed_secs :: "int \<Rightarrow> rat" where
  "elapsed_secs ns = double (double (of_int ns) / of_nat (10 ^ 9))"

definition sample_reached_at :: "(nat \<Rightarrow> int) \<Rightarrow> rat \<Rightarrow> nat \<Rightarrow> bool" where
  "sample_reached_at clock d K \<longleftrightarrow>
     1 \<le> K \<and> d \<le> elapsed_secs (clock K - clock 0) \<and>
     (\<forall>k. 1 \<le> k \<longrightarrow> k < K \<longrightarrow> elapsed_secs (clock k - clock 0) < d)"

text \<open>After \<open>k\<close> turns, \<open>t0\<close> branches having been taken before the first.\<close>

definition br_inv :: "br_env \<Rightarrow> branch_case \<Rightarrow> nat \<times> nat \<times> nat \<Rightarrow> nat \<Rightarrow> br_state \<Rightarrow> bool" where
  "br_inv env c m0 k s \<longleftrightarrow>
     counts (bs_machine s) = (fst m0 + k * (65536 * (unat (bc_branches c) + 1) - 1), fst (snd m0) + k, snd (snd m0)) \<and>
     bs_finished s = of_nat k * taken_branches (bc_branches c) batch_rounds \<and>
     bs_reads s = Suc k \<and> elapsed_time_ns (bs_timer s) = be_clock env k - be_clock env 0"

lemma br_step_correct:
  assumes inv: "br_inv env c m0 k s" and tb: "time_point_begin (bs_timer s) = be_clock env k"
  shows "\<exists>s'. br_step env c d s = Some (d \<le> elapsed_secs (be_clock env (Suc k) - be_clock env 0), s') \<and>
    br_inv env c m0 (Suc k) s' \<and>
    (elapsed_secs (be_clock env (Suc k) - be_clock env 0) < d \<longrightarrow>
      time_point_begin (bs_timer s') = be_clock env (Suc k))"
proof -
  let ?b = "unat (bc_branches c)"
  have cm: "bm_taken (bs_machine s) = fst m0 + k * (65536 * (?b + 1) - 1)"
    "bm_not_taken (bs_machine s) = fst (snd m0) + k" "bm_pads (bs_machine s) = snd (snd m0)"
    using inv by (simp_all add: br_inv_def counts_def)
  have nz: "batch_rounds \<noteq> 0" and ub: "unat batch_rounds = 65536" by (simp_all add: batch_rounds_def)
  obtain m where m: "run_case (be_arch env) c batch_rounds (bs_machine s) = Some m"
    and cnt: "counts m = (bm_taken (bs_machine s) + (unat batch_rounds * (?b + 1) - 1),
      Suc (bm_not_taken (bs_machine s)), bm_pads (bs_machine s))"
    using branch_chain_counts_lemma [OF nz] unfolding run_case_def by blast
  define t where "t = endTimer (be_clock env (Suc k)) (bs_timer s)"
  have t: "elapsed_time_ns t = be_clock env (Suc k) - be_clock env 0" "time_point_end t = be_clock env (Suc k)"
    using inv tb by (simp_all add: t_def endTimer_def br_inv_def Let_def)
  have "getElapsedTime t = elapsed_secs (be_clock env (Suc k) - be_clock env 0)"
    by (simp add: getElapsedTime_def elapsed_in_def elapsed_secs_def t)
  moreover have "counts m = (fst m0 + Suc k * (65536 * (?b + 1) - 1), fst (snd m0) + Suc k, snd (snd m0))"
    unfolding cnt cm ub by (simp add: add.assoc)
  moreover have "bs_reads s = Suc k" "bs_finished s + taken_branches (bc_branches c) batch_rounds =
      of_nat (Suc k) * taken_branches (bc_branches c) batch_rounds"
    using inv by (simp_all add: br_inv_def distrib_right)
  ultimately show ?thesis
    using m t by (simp add: br_step_def Let_def t_def [symmetric] br_inv_def resumeTimer_def del: mult_Suc of_nat_Suc)
qed

lemma br_loop_correct:
  assumes "sample_reached_at (be_clock env) d K" and "k < K" and "br_inv env c m0 k s"
    and "time_point_begin (bs_timer s) = be_clock env k"
  shows "\<exists>s'. br_loop env c d s = Some s' \<and> br_inv env c m0 K s'"
  using assms(2-)
proof (induction "K - k" arbitrary: k s)
  case (Suc j)
  obtain s' where s': "br_step env c d s = Some (d \<le> elapsed_secs (be_clock env (Suc k) - be_clock env 0), s')"
    "br_inv env c m0 (Suc k) s'"
    "elapsed_secs (be_clock env (Suc k) - be_clock env 0) < d \<longrightarrow> time_point_begin (bs_timer s') = be_clock env (Suc k)"
    using br_step_correct [OF Suc.prems(2,3)] by blast
  show ?case
  proof (cases "Suc k = K")
    case True
    then show ?thesis
      using s' assms(1) by (auto simp: br_loop.simps [of env c d s] sample_reached_at_def)
  next
    case False
    then have lt: "elapsed_secs (be_clock env (Suc k) - be_clock env 0) < d" "Suc k < K"
      using assms(1) Suc.prems(1) by (auto simp: sample_reached_at_def)
    then have "\<exists>s''. br_loop env c d s' = Some s'' \<and> br_inv env c m0 K s''"
      using Suc.hyps s' by (intro Suc.hyps(1) [of "Suc k"]) simp_all
    then show ?thesis using s'(1) lt(1) by (simp add: br_loop.simps [of env c d s])
  qed
qed simp

section \<open>The properties\<close>

text \<open>
  C26. A call of a branch kernel takes exactly the branches it is said to take. On either
  processor, for conditional and unconditional chains, the call returns, the number of
  branches taken is \<open>taken_branches\<close> of the chain and the rounds, and the padding between
  the branches is never executed.
\<close>

theorem branch_chain_takes:
  assumes "unat rounds * (unat n + 1) \<le> 2 ^ 64" and "unat n + 1 < 2 ^ 32"
  shows "\<exists>m'. branch_chain a (unat n) c rounds m = Some m' \<and>
    bm_taken m' = bm_taken m + unat (taken_branches n rounds) \<and> bm_pads m' = bm_pads m"
proof (cases "rounds = 0")
  case True
  then show ?thesis by (simp add: branch_chain_def taken_branches_def)
next
  case False
  from branch_chain_counts_lemma [OF False, of a "unat n" c m] unat_taken_branches [OF False assms]
  show ?thesis by (auto simp: counts_def)
qed

lemma branch_chain_takes_witness:
  "\<exists>m'. branch_chain X86_64 (unat (8 :: u32)) True 65536 \<lparr>bm_pc = 0, bm_rounds = 0, bm_zf = True,
     bm_taken = 0, bm_not_taken = 0, bm_pads = 0\<rparr> = Some m' \<and> bm_taken m' = 589823 \<and> bm_pads m' = 0"
proof -
  have t: "unat (taken_branches 8 65536) = 589823" by (simp add: taken_branches_def)
  show ?thesis
    using branch_chain_takes [of 65536 8 X86_64 True "\<lparr>bm_pc = 0, bm_rounds = 0, bm_zf = True,
     bm_taken = 0, bm_not_taken = 0, bm_pads = 0\<rparr>"] unfolding t by simp
qed

lemma case_branches:
  assumes "i < length branch_cases"
  shows "unat (bc_branches (branch_cases ! i)) \<in> {8, 32, 128}"
proof -
  have "\<forall>c \<in> set branch_cases. unat (bc_branches c) \<in> {8, 32, 128}"
    by (simp add: branch_cases_def branch_case_of_def)
  with assms show ?thesis by simp
qed

lemma branch_tp_returns:
  assumes index: "unat (br_case_index p) < length branch_cases"
    and clock: "sample_reached_at (be_clock env) (br_sample_duration p) K"
  defines "c \<equiv> branch_cases ! unat (br_case_index p)"
  shows "\<exists>m'. branch_tp env m p = ret (m',
      p\<lparr>br_finished_branches := of_nat K * taken_branches (bc_branches c) batch_rounds,
        pk_exec_time := elapsed_secs (be_clock env K - be_clock env 0),
        br_cycles := fst (use_counter (be_perf env)),
        br_counter_error := snd (use_counter (be_perf env))\<rparr>) \<and>
    bm_taken m' = bm_taken m + Suc K * unat (taken_branches (bc_branches c) batch_rounds) \<and>
    bm_pads m' = bm_pads m"
proof -
  let ?b = "unat (bc_branches c)"
  have nz: "batch_rounds \<noteq> 0" and ub: "unat batch_rounds = 65536" by (simp_all add: batch_rounds_def)
  have b: "?b \<in> {8, 32, 128}" unfolding c_def by (rule case_branches [OF index])
  have taken: "unat (taken_branches (bc_branches c) batch_rounds) = 65536 * (?b + 1) - 1"
    using unat_taken_branches [OF nz, of "bc_branches c"] b by (auto simp: ub)
  obtain w where w: "run_case (be_arch env) c batch_rounds m = Some w"
    and wc: "counts w = (bm_taken m + (65536 * (?b + 1) - 1), Suc (bm_not_taken m), bm_pads m)"
    using branch_chain_counts_lemma [OF nz, of _ ?b "bc_conditional c" m] unfolding run_case_def ub by blast
  let ?s = "\<lparr>bs_machine = w, bs_finished = 0, bs_timer = startTimer (be_clock env 0) Timer, bs_reads = 1\<rparr>"
  have inv: "br_inv env c (counts w) 0 ?s"
    by (simp add: br_inv_def startTimer_def Timer_def)
  have "0 < K" using clock by (simp add: sample_reached_at_def)
  then obtain s where s: "br_loop env c (br_sample_duration p) ?s = Some s" "br_inv env c (counts w) K s"
    using br_loop_correct [OF clock _ inv] by (auto simp: startTimer_def)
  have "bm_taken (bs_machine s) = bm_taken m + Suc K * unat (taken_branches (bc_branches c) batch_rounds)"
    "bm_pads (bs_machine s) = bm_pads m"
    using s(2) unfolding taken br_inv_def wc by (simp_all add: counts_def)
  moreover have "bs_finished s = of_nat K * taken_branches (bc_branches c) batch_rounds"
    "getElapsedTime (bs_timer s) = elapsed_secs (be_clock env K - be_clock env 0)"
    using s(2) by (simp_all add: br_inv_def getElapsedTime_def elapsed_in_def elapsed_secs_def)
  ultimately show ?thesis
    using w s(1) index
    by (auto simp: branch_tp_def Let_def c_def [symmetric] use_counter_def split: prod.splits)
qed

text \<open>
  C17. The branch measurement. For each of the twelve cases \<open>branch_tp\<close> returns at the first
  reading of the clock that reaches the sample duration; it reports the branches of the
  calls since the timer was started, which are exactly those the processor has taken since
  the warm-up call, the time they took, and what the cycle counter says.
\<close>

theorem branch_measurement:
  assumes index: "unat (br_case_index p) < length branch_cases"
    and clock: "sample_reached_at (be_clock env) (br_sample_duration p) K"
  defines "c \<equiv> branch_cases ! unat (br_case_index p)"
  shows "\<exists>m'. branch_tp env m p = ret (m',
      p\<lparr>br_finished_branches := of_nat K * taken_branches (bc_branches c) batch_rounds,
        pk_exec_time := elapsed_secs (be_clock env K - be_clock env 0),
        br_cycles := fst (use_counter (be_perf env)),
        br_counter_error := snd (use_counter (be_perf env))\<rparr>) \<and>
    bm_taken m' = bm_taken m + Suc K * unat (taken_branches (bc_branches c) batch_rounds) \<and>
    bm_pads m' = bm_pads m"
  unfolding c_def by (rule branch_tp_returns [OF index clock])

definition example_br_env :: br_env where
  "example_br_env = \<lparr>be_arch = AArch64, be_clock = (\<lambda>k. int k * 1000000000),
     be_perf = \<lparr>pe_fd = - 1, pe_open_error = ''denied'', pe_reset = 0, pe_enable = 0,
       pe_ioctl_error = '''', pe_disable = 0, pe_read = 0, pe_cycles = 0, pe_enabled = 0, pe_running = 0\<rparr>\<rparr>"

lemma example_samples:
  "sample_reached_at (be_clock example_br_env) 1 1"
  "taken_branches 8 batch_rounds = 589823" "bc_branches (branch_cases ! 0) = 8"
proof -
  have "double 1000000000 = 1000000000" "double 1 = 1"
    using rnd_exact [of 1000000000 53] rnd_exact [of 1 53] by simp_all
  then have "elapsed_secs 1000000000 = 1" by (simp add: elapsed_secs_def)
  then show "sample_reached_at (be_clock example_br_env) 1 1"
    by (simp add: sample_reached_at_def example_br_env_def)
qed (simp_all add: taken_branches_def batch_rounds_def branch_cases_def branch_case_of_def)

lemma branch_measurement_witness:
  "\<exists>m' p'. branch_tp example_br_env
      \<lparr>bm_pc = 0, bm_rounds = 0, bm_zf = True, bm_taken = 0, bm_not_taken = 0, bm_pads = 0\<rparr>
      (BrPredThreadPacket\<lparr>br_sample_duration := 1\<rparr>) = ret (m', p') \<and>
    br_finished_branches p' = 589823 \<and> br_counter_error p' = ''denied'' \<and> bm_taken m' = 2 * 589823"
proof -
  let ?p = "BrPredThreadPacket\<lparr>br_sample_duration := 1\<rparr>"
  have i: "br_case_index ?p = 0" "br_sample_duration ?p = 1" by (simp_all add: BrPredThreadPacket_def)
  have idx: "unat (br_case_index ?p) < length branch_cases" by (simp add: i branch_cases_def)
  have t: "unat (taken_branches 8 batch_rounds) = 589823" by (simp add: example_samples)
  have u: "snd (use_counter (be_perf example_br_env)) = ''denied''"
    by (simp add: example_br_env_def use_counter_def CycleCounter_def cc_start_def)
  have "sample_reached_at (be_clock example_br_env) (br_sample_duration ?p) 1" unfolding i by (rule example_samples)
  from branch_measurement [OF idx this, of "\<lparr>bm_pc = 0, bm_rounds = 0, bm_zf = True, bm_taken = 0,
      bm_not_taken = 0, bm_pads = 0\<rparr>"] show ?thesis
    by (auto simp: i t u example_samples)
qed

end
