(* ===== verification/Branch_Program.thy ===== *)
theory Branch_Program
  imports Branch_Worker Program_Common
begin

text \<open>
  The program \<open>src/cpu_micro/cpu_branch_throughput.cc\<close>. The rates are quotients by the
  measured time and cycles, both positive when they are computed: the time has reached a
  positive sample duration, and the cycles are tested.
\<close>

type_synonym branch_manager = "(unit br_packet_ext cpu_micro_packet_ext, unit) worker_manager"

record branch_run_env =
  bn_threads :: "nat \<Rightarrow> br_env"
  bn_join :: join_env

text \<open>Each thread counts from zero on its own processor.\<close>

definition idle_machine :: branch_machine where
  "idle_machine = \<lparr>bm_pc = 0, bm_rounds = 0, bm_zf = True, bm_taken = 0, bm_not_taken = 0, bm_pads = 0\<rparr>"

definition run_branch_workers :: "branch_run_env \<Rightarrow> branch_manager \<Rightarrow> branch_manager run" where
  "run_branch_workers env wm =
     run_threads (\<lambda>i r p. andthen (branch_tp (bn_threads env i) idle_machine p) (\<lambda>(m, p'). ret p'))
       (bn_join env) wm"

text \<open>The checks after parsing, the cases to run, and the time for each.\<close>

definition branch_arguments_ok :: "configuration \<Rightarrow> bool" where
  "branch_arguments_ok config \<longleftrightarrow>
     cf_num_threads config \<noteq> 0 \<and> cf_target_duration_s config \<noteq> 0 \<and>
     cf_branch_case config \<le> branch_case_count"

definition branch_case_range :: "configuration \<Rightarrow> u32 list" where
  "branch_case_range config =
     (let first = (if cf_branch_case config \<noteq> 0 then cf_branch_case config - 1 else 0);
          end = (if cf_branch_case config \<noteq> 0 then cf_branch_case config else branch_case_count)
      in map of_nat [unat first..<unat end])"

definition branch_duration :: "configuration \<Rightarrow> rat" where
  "branch_duration config =
     double (of_nat (unat (cf_target_duration_s config)) / of_nat (length (branch_case_range config)))"

text \<open>The maxima so far for each thread, and whether the counter's failure has been reported.\<close>

record branch_peaks =
  peak_rate :: "rat list"
  peak_per_cycle :: "rat list"
  counter_warning :: bool

definition branch_row ::
    "u32 \<Rightarrow> branch_case \<Rightarrow> nat \<Rightarrow> br_packet \<Rightarrow> event list \<times> branch_peaks \<Rightarrow> event list \<times> branch_peaks" where
  "branch_row index c tid p state =
     (case state of (out, pk) \<Rightarrow>
        let rate = double (double (u64_double (br_finished_branches p) / pk_exec_time p) / 10 ^ 9);
            pk1 = pk\<lparr>peak_rate := (peak_rate pk)[tid := max (peak_rate pk ! tid) rate]\<rparr>;
            row = [Number (of_nat (unat index) + 1), Number (of_nat tid),
                   Text (if bc_conditional c then ''conditional'' else ''unconditional''),
                   Number (of_nat (unat (bc_branches c))), Number (of_nat (unat (bc_spacing c))), Number rate]
        in if br_cycles p > 0
           then let per_cycle = double (u64_double (br_finished_branches p) / br_cycles p)
                in (out @ row @ [Number per_cycle, Number (double (1 / per_cycle)), endl],
                    pk1\<lparr>peak_per_cycle := (peak_per_cycle pk1)[tid := max (peak_per_cycle pk1 ! tid) per_cycle]\<rparr>)
           else (out @ row @ [Text ''n/a'', Text ''n/a''] @
                   (if counter_warning pk1 then []
                    else [Warning (''Cycles unavailable: '' @ br_counter_error p @ ''.'' @ newline)]) @ [endl],
                 pk1\<lparr>counter_warning := True\<rparr>))"

definition branch_case_run ::
    "(u32 \<Rightarrow> branch_run_env) \<Rightarrow> rat \<Rightarrow> u32 \<Rightarrow> branch_manager \<times> event list \<times> branch_peaks \<Rightarrow>
     (branch_manager \<times> event list \<times> branch_peaks) run" where
  "branch_case_run envs duration index state =
     (case state of (wm, out, pk) \<Rightarrow>
        andthen (run_branch_workers (envs index)
            (wm\<lparr>wm_packets := map (\<lambda>p. p\<lparr>br_case_index := index, br_sample_duration := duration\<rparr>)
                (wm_packets wm)\<rparr>))
          (\<lambda>wm'. ret (wm', fold (\<lambda>(tid, p). branch_row index (branch_cases ! unat index) tid p)
              (enumerate 0 (wm_packets wm')) (out, pk))))"

definition best_row :: "branch_peaks \<Rightarrow> nat \<Rightarrow> event list" where
  "best_row pk tid =
     [Text ''Best observed thread '', Number (of_nat tid), Text '': '', Number (peak_rate pk ! tid),
      Text '' GBr/s''] @
     (if peak_per_cycle pk ! tid > 0
      then [Text ''; '', Number (peak_per_cycle pk ! tid), Text '' Br/cycle''] else []) @
     [Text ('' (independent maxima across tested cases)'' @ newline)]"

definition main_branch_throughput ::
    "(u32 \<Rightarrow> branch_run_env) \<Rightarrow> u32 \<Rightarrow> numa_config \<Rightarrow> string list \<Rightarrow> (int \<times> event list) run" where
  "main_branch_throughput envs hw nc args =
     (case parse_options (Configuration nc BRANCH_THROUGHPUT) args of
        Inl err \<Rightarrow> ret (1, [])
      | Inr config \<Rightarrow>
          if \<not> branch_arguments_ok config
          then ret (1, [Warning (''Threads and duration must be positive; branch_case must be 0-12.'' @ newline)])
          else (case WorkerThreadManager hw BrPredThreadPacket (cf_num_threads config)
              (all_allowed_cpus (cf_numa_config config)) (\<not> cf_no_binding config) (cf_verbose config) of
            (text, _, wm0) \<Rightarrow>
              let n = unat (cf_num_threads config);
                  pk = \<lparr>peak_rate = replicate n 0, peak_per_cycle = replicate n 0, counter_warning = False\<rparr>;
                  head = [Text (cf_dump config), Text text,
                    Text (''Predictable taken branches; duration split across cases; rates per worker.'' @ newline @
                      ''case thread type          chain spacing   GBr/s   Br/cycle cycles/Br'' @ newline)]
              in andthen (for_each (branch_case_run envs (branch_duration config)) (branch_case_range config)
                    (setRoutine (Some ()) wm0, head, pk))
                  (\<lambda>(wm, out, pk'). ret (0, out @ concat (map (best_row pk') [0..<n])))))"

end
