(* ===== verification/Program_Props.thy ===== *)
theory Program_Props
  imports Loaded_Memcpy_Programs Branch_Program Relative_Error
begin

text \<open>
  The properties of the main programs: what they print, how precise it is, what they choose
  to measure, and that the checks on their arguments are enough for the workers.
\<close>

section \<open>The latency the programs print\<close>

text \<open>A thread whose latency measurement returns at the \<open>K\<close>-th reading.\<close>

definition lat_thread_ok :: "thread_env \<Rightarrow> mem_packet \<Rightarrow> mem_region \<Rightarrow> nat list \<Rightarrow> nat \<Rightarrow> bool" where
  "lat_thread_ok te p r os K \<longleftrightarrow>
     pk_mem_region p = Some r \<and> pk_kernel_lat p = Some kernel_lat \<and> chase_ready r os \<and>
     0 < unat (mr_line_size r) \<and> 256 * unat (mr_line_size r) \<le> unat (mr_active_size r) \<and>
     target_reached_at (lat_config te p r) K \<and>
     256 * nth_check 256 (unat (chkpt_chases (pk_ref_latency_ps p) (mr_active_size r))) K < 2 ^ 64 \<and>
     K * unat (chkpt_chases (pk_ref_latency_ps p) (mr_active_size r)) < 2 ^ 64"

definition lat_hops :: "mem_packet \<Rightarrow> mem_region \<Rightarrow> nat \<Rightarrow> nat" where
  "lat_hops p r K = 256 * nth_check 256 (unat (chkpt_chases (pk_ref_latency_ps p) (mr_active_size r))) K"

definition lat_time :: "thread_env \<Rightarrow> nat \<Rightarrow> int" where
  "lat_time te K = te_clock te K - te_clock te 0"

lemma lat_ptr_thread:
  assumes "lat_thread_ok te p r os K"
  shows "lat_ptr te p = ret (p\<lparr>pk_finished_chases := of_nat (lat_hops p r K),
    pk_exec_time := double (double (of_int (lat_time te K)) / of_nat (10 ^ 9))\<rparr>)"
  using lat_ptr_returns [of r os p te K] assms by (simp add: lat_thread_ok_def lat_hops_def lat_time_def)

lemma total_of_list:
  assumes "(\<Sum>i < n. g i) < 2 ^ 64" and "\<And>i. i < n \<Longrightarrow> f (ps i) = of_nat (g i)"
  shows "unat (total_of f (map ps [0..<n])) = (\<Sum>i < n. g i)"
proof -
  have "total_of f (map ps [0..<n]) = of_nat (\<Sum>i < n. g i)"
    using assms(2) by (induction n) (simp_all add: total_of_def)
  then show ?thesis using unat_of_nat_64 [of "\<Sum>i < n. g i"] assms(1) by (simp only:) simp
qed

lemma total_exec_near:
  assumes "\<And>i. i < n \<Longrightarrow> 0 \<le> d i \<and> d i < 2 ^ 53"
    and "\<And>i. i < n \<Longrightarrow> pk_exec_time (ps i) = double (double (of_int (d i)) / of_nat (10 ^ 9))"
  shows "near (Suc n) (of_int (\<Sum>i < n. d i) / 10 ^ 9) (total_exec_time (map ps [0..<n]))"
proof -
  have "near (1 + n) (0 + (\<Sum>i < n. of_int (d i) / of_nat (10 ^ 9)))
      (foldl (\<lambda>t i. double (t + pk_exec_time (ps i))) 0 [0..<n])"
  proof (rule near_sum)
    fix i assume "i < n"
    then show "near 1 (of_int (d i) / of_nat (10 ^ 9)) (pk_exec_time (ps i))"
      unfolding assms(2) [OF \<open>i < n\<close>] using assms(1) by (intro near_elapsed) simp_all
  qed (simp add: near_def)
  moreover have "0 + (\<Sum>i < n. of_int (d i) / of_nat (10 ^ 9)) = (of_int (\<Sum>i < n. d i) / 10 ^ 9 :: rat)"
    by (simp only: sum_divide_distrib of_int_sum) simp
  moreover have "total_exec_time (map ps [0..<n]) = foldl (\<lambda>t i. double (t + pk_exec_time (ps i))) 0 [0..<n]"
    by (simp add: total_exec_time_def foldl_map)
  ultimately show ?thesis by (simp only: plus_1_eq_Suc)
qed

lemma average_latency_near:
  assumes d: "\<And>i. i < n \<Longrightarrow> 0 \<le> d i \<and> d i < 2 ^ 53"
    and e: "\<And>i. i < n \<Longrightarrow> pk_exec_time (ps i) = double (double (of_int (d i)) / of_nat (10 ^ 9))"
    and h: "\<And>i. i < n \<Longrightarrow> pk_finished_chases (ps i) = of_nat (g i)"
    and H: "0 < (\<Sum>i < n. g i)" "(\<Sum>i < n. g i) < 2 ^ 53"
  shows "\<exists>L. average_latency (map ps [0..<n]) = Inr L \<and>
    near (n + 3) (of_int (\<Sum>i < n. d i) / of_nat (\<Sum>i < n. g i)) L"
proof -
  let ?D = "of_int (\<Sum>i < n. d i) :: rat" and ?H = "(\<Sum>i < n. g i)"
  let ?t = "total_exec_time (map ps [0..<n])"
  have "near (Suc n) (10 ^ 9 * (?D / 10 ^ 9)) (10 ^ 9 * ?t)"
    by (rule near_scale [OF total_exec_near [OF d e]]) simp_all
  then have 1: "near (Suc (Suc n)) ?D (double (?t * 10 ^ 9))"
    by (intro near_double) (simp add: mult.commute)
  have "unat (total_of pk_finished_chases (map ps [0..<n])) = ?H"
    by (rule total_of_list) (use H(2) h in simp_all)
  then have H': "u64_double (total_of pk_finished_chases (map ps [0..<n])) = of_nat ?H"
    using rnd_exact [OF H(2)] unfolding u64_double_def by simp
  have "near (Suc (Suc n)) (1 / of_nat ?H * ?D) (1 / of_nat ?H * double (?t * 10 ^ 9))"
    by (rule near_scale [OF 1]) (simp only: zero_le_divide_1_iff of_nat_0_le_iff)
  then have "near (Suc (Suc (Suc n))) (?D / of_nat ?H) (double (double (?t * 10 ^ 9) / of_nat ?H))"
    by (intro near_double) simp
  moreover have "(of_nat ?H :: rat) \<noteq> 0" using H(1) unfolding of_nat_eq_0_iff by (simp only: neq0_conv)
  ultimately show ?thesis
    unfolding average_latency_def H' fdiv_def by (simp add: numeral_3_eq_3)
qed

lemma to_u32_ok:
  assumes "0 \<le> x" and "x < 2 ^ 32"
  shows "\<exists>y. to_u32 x = Inr y \<and> int (unat y) = \<lfloor>x\<rfloor>"
proof -
  have "0 \<le> \<lfloor>x\<rfloor>" "\<lfloor>x\<rfloor> < 2 ^ 32" using assms by (simp_all add: floor_less_iff)
  then show ?thesis
    using assms(1) by (simp add: to_u32_def to_unsigned_def unsigned_of_int take_bit_int_eq_self)
qed

text \<open>
  When every thread's measurement returns, after \<open>hops i\<close> hops in \<open>time i\<close> nanoseconds,
  \<open>measure_idle_latency\<close> returns and prints, unless it is the calibrating run, the time of
  all threads divided by the hops of all threads, to within one rounding per thread and
  three more; the regions are left as they were.
\<close>

lemma measure_idle_latency_threads:
  assumes wf: "manager_wf wm"
    and calls: "\<forall>i < unat (wm_num_threads wm). je_create (rn_join env) i = 0 \<and> je_join (rn_join env) i = 0"
    and threads: "\<forall>i < unat (wm_num_threads wm). lat_thread_ok (rn_threads env i)
        (idle_latency_packet config last_ps (wm_packets wm ! i)) (rs i) (os i) (K i)"
  defines "n \<equiv> unat (wm_num_threads wm)"
    and "time \<equiv> \<lambda>i. lat_time (rn_threads env i) (K i)"
    and "hops \<equiv> \<lambda>i. lat_hops (idle_latency_packet config last_ps (wm_packets wm ! i)) (rs i) (K i)"
  assumes times: "\<forall>i < n. 0 \<le> time i \<and> time i < 2 ^ 53"
    and total: "0 < (\<Sum>i < n. hops i)" "(\<Sum>i < n. hops i) < 2 ^ 53"
    and range: "1000 * (of_int (\<Sum>i < n. time i) / of_nat (\<Sum>i < n. hops i)) * (1 + eps) ^ (n + 4) < 2 ^ 32"
  shows "\<exists>L wm' ps. measure_idle_latency env wm config last_ps =
      ret (if last_ps > 0 then [Number L] else [], wm', ps) \<and>
    near (n + 3) (of_int (\<Sum>i < n. time i) / of_nat (\<Sum>i < n. hops i)) L \<and>
    (\<exists>x. near (n + 4) (1000 * (of_int (\<Sum>i < n. time i) / of_nat (\<Sum>i < n. hops i))) x \<and>
      int (unat ps) = \<lfloor>x\<rfloor>) \<and>
    manager_wf wm' \<and> wm_num_threads wm' = wm_num_threads wm \<and>
    map pk_mem_region (wm_packets wm') = map pk_mem_region (wm_packets wm)"
proof -
  let ?p = "\<lambda>i. idle_latency_packet config last_ps (wm_packets wm ! i)"
  let ?q = "\<lambda>i. (?p i)\<lparr>pk_finished_chases := of_nat (hops i),
    pk_exec_time := double (double (of_int (time i)) / of_nat (10 ^ 9))\<rparr>"
  define wm0 where "wm0 = setRoutine (Some Lat_Ptr) (map_packets (\<lambda>_. idle_latency_packet config last_ps) wm)"
  have len: "length (wm_packets wm) = n" using wf by (simp add: manager_wf_def n_def)
  have n0: "unat (wm_num_threads wm0) = n" by (simp add: wm0_def setRoutine_def map_packets_def n_def)
  have at: "wm_packets wm0 ! i = ?p i" "wm_start_routines wm0 ! i = Some Lat_Ptr" if "i < n" for i
    using that len by (simp_all add: wm0_def setRoutine_def map_packets_def n_def)
  have lat: "lat_ptr (rn_threads env i) (?p i) = ret (?q i)" if "i < n" for i
    unfolding time_def hops_def by (rule lat_ptr_thread [where os = "os i"]) (use threads that in \<open>simp add: n_def\<close>)
  have run: "run_routine env Lat_Ptr (map_packets (\<lambda>_. idle_latency_packet config last_ps) wm) =
    ret (wm0\<lparr>wm_created := map (\<lambda>i. wm_start_routines wm0 ! i \<noteq> None) [0..<n], wm_packets := map ?q [0..<n]\<rparr>)"
    unfolding run_routine_def run_workers_def wm0_def [symmetric] n0 [symmetric]
    by (rule run_threads_eq_ret) (use calls at lat n0 in \<open>simp_all add: n_def\<close>)
  obtain L where L: "average_latency (map ?q [0..<n]) = Inr L"
    and near: "near (n + 3) (of_int (\<Sum>i < n. time i) / of_nat (\<Sum>i < n. hops i)) L"
    using average_latency_near [of n time ?q hops] times total by auto
  have four: "n + 4 = Suc (n + 3)" by simp
  have near4: "near (n + 4) (1000 * (of_int (\<Sum>i < n. time i) / of_nat (\<Sum>i < n. hops i))) (double (L * 1000))"
    unfolding four mult.commute [of L 1000] by (rule near_double [OF near_scale [OF near]]) simp
  have "0 \<le> double (L * 1000)" "double (L * 1000) < 2 ^ 32"
    using near_nonneg [OF near4] order_le_less_trans [OF near_upper [OF near4] range] by blast+
  then obtain ps where ps: "to_u32 (double (L * 1000)) = Inr ps" "int (unat ps) = \<lfloor>double (L * 1000)\<rfloor>"
    using to_u32_ok by blast
  from ps(1) run L have "measure_idle_latency env wm config last_ps = ret (if last_ps > 0 then [Number L] else [],
      wm0\<lparr>wm_created := map (\<lambda>i. wm_start_routines wm0 ! i \<noteq> None) [0..<n], wm_packets := map ?q [0..<n]\<rparr>, ps)"
    by (simp add: measure_idle_latency_def)
  moreover have "map pk_mem_region (map ?q [0..<n]) = map pk_mem_region (wm_packets wm)"
    using len by (intro nth_equalityI) (simp_all add: idle_latency_packet_def)
  moreover have "manager_wf (wm0\<lparr>wm_created := map (\<lambda>i. wm_start_routines wm0 ! i \<noteq> None) [0..<n], wm_packets := map ?q [0..<n]\<rparr>)"
    "wm_num_threads wm0 = wm_num_threads wm"
    using wf n0 by (simp_all add: manager_wf_def wm0_def setRoutine_def map_packets_def)
  ultimately show ?thesis using near near4 ps(2) by auto
qed

definition example_run_env :: run_env where
  "example_run_env = \<lparr>rn_threads = (\<lambda>_. example_thread_env),
     rn_join = \<lparr>je_create = (\<lambda>_. 0), je_join = (\<lambda>_. 0), je_timeout = 300, je_strerror = (\<lambda>_. '''')\<rparr>\<rparr>"

section \<open>The table of nodes\<close>

lemma for_each_append:
  assumes "\<And>x s. x \<in> set xs \<Longrightarrow> f x s = ret (s @ g x)"
  shows "for_each f xs s = ret (s @ concat (map g xs))"
  using assms by (induction xs arbitrary: s) simp_all

definition matrix_row :: "numa_env \<Rightarrow> int \<Rightarrow> (u32 \<Rightarrow> u32 \<Rightarrow> event list) \<Rightarrow> u32 \<Rightarrow> event list" where
  "matrix_row env limit f i =
     (if allowed_cpus_of_node env (num_cpus_possible (NumaConfig env)) i = [] then []
      else endl # node_name i # concat (map (f i)
        (filter (\<lambda>j. limit \<le> ne_node_size64 env j) (below (num_numa_nodes (NumaConfig env))))))"

text \<open>
  What the matrix of nodes shows. When every measurement it makes returns, the table
  has a heading for each node, and a line for each node with CPUs the process may use; the
  line consists of the cells of the nodes with enough memory, one after the other. A node
  with too little memory leaves no cell, so the values that follow stand under the headings
  of the nodes before theirs.
\<close>

lemma node_matrix_returns:
  assumes "\<forall>i j cpus. i < num_numa_nodes (NumaConfig env) \<longrightarrow> j < num_numa_nodes (NumaConfig env) \<longrightarrow>
      limit \<le> ne_node_size64 env j \<longrightarrow> cpus \<noteq> [] \<longrightarrow>
      cpus = allowed_cpus_of_node env (num_cpus_possible (NumaConfig env)) i \<longrightarrow> cell i j cpus = ret (f i j)"
  defines "nodes \<equiv> below (num_numa_nodes (NumaConfig env))"
  shows "node_matrix title limit cell (NumaConfig env) =
    ret (Text title # map node_name nodes @ concat (map (matrix_row env limit f) nodes) @ [endl])"
proof -
  let ?N = "num_numa_nodes (NumaConfig env)" and ?P = "num_cpus_possible (NumaConfig env)"
  have "node_row limit cell (NumaConfig env) i out = ret (out @ matrix_row env limit f i)"
    if "i \<in> set nodes" for i out
  proof (cases "allowed_cpus_of_node env ?P i = []")
    case True
    then show ?thesis
      using that node_at(3) [of i env] by (simp add: node_row_def matrix_row_def nodes_def set_below)
  next
    case False
    let ?g = "\<lambda>j. if limit \<le> ne_node_size64 env j then f i j else []"
    have i: "i < ?N" using that by (simp add: nodes_def set_below)
    have "for_each (\<lambda>j out. andthen (lift_run (map_at (node_to_mem (NumaConfig env)) j))
        (\<lambda>mem. if mem < limit then ret out
          else andthen (cell i j (allowed_cpus_of_node env ?P i)) (\<lambda>o'. ret (out @ o')))) (below ?N) s =
      ret (s @ concat (map ?g (below ?N)))" for s
    proof (rule for_each_append)
      fix j s assume "j \<in> set (below ?N)"
      then have j: "j < ?N" by (simp add: set_below)
      show "andthen (lift_run (map_at (node_to_mem (NumaConfig env)) j))
          (\<lambda>mem. if mem < limit then ret s
            else andthen (cell i j (allowed_cpus_of_node env ?P i)) (\<lambda>o'. ret (s @ o'))) = ret (s @ ?g j)"
        using assms(1) i j False by (simp add: node_at(1) [OF j])
    qed
    moreover have "concat (map ?g xs) = concat (map (f i) (filter (\<lambda>j. limit \<le> ne_node_size64 env j) xs))" for xs
      by (induction xs) simp_all
    ultimately show ?thesis
      using False by (simp add: node_row_def matrix_row_def node_at(3) [OF i])
  qed
  then have "for_each (node_row limit cell (NumaConfig env)) nodes s =
      ret (s @ concat (map (matrix_row env limit f) nodes))" for s
    by (rule for_each_append)
  then show ?thesis by (simp add: node_matrix_def nodes_def)
qed

definition memoryless_env :: numa_env where
  "memoryless_env = example_env\<lparr>ne_node_size64 := (\<lambda>i. if i = 0 then 0 else 8589934592)\<rparr>"

section \<open>The delay nearest to the request\<close>

lemma nearest_delay_spec:
  "(nearest_delay req items gap found = found \<and> (\<forall>x \<in> set items. gap \<le> \<bar>sint (fst x) - req\<bar>)) \<or>
   (\<exists>item \<in> set items. nearest_delay req items gap found = [item] \<and> \<bar>sint (fst item) - req\<bar> < gap \<and>
      (\<forall>x \<in> set items. \<bar>sint (fst item) - req\<bar> \<le> \<bar>sint (fst x) - req\<bar>))"
proof (induction req items gap found rule: nearest_delay.induct)
  case (2 req item items gap found)
  show ?case
  proof (cases "\<bar>sint (fst item) - req\<bar> < gap")
    case True
    then show ?thesis using 2(1) [OF refl True] by (fastforce simp: Let_def)
  next
    case False
    then show ?thesis using 2(2) [OF refl False] by (fastforce simp: Let_def)
  qed
qed simp

lemma delay_table_has_1:
  assumes "m < 4"
  shows "\<exists>k. (1, k) \<in> set (get_kernels_with_delays m)"
  using mix_less_4 [OF assms] by (auto simp: get_kernels_with_delays_def)

text \<open>
  C32. The delay the loaded-latency program measures at. Without a requested delay it sweeps
  the whole table, its first entry once more to calibrate. With one, and a mix from 0 to 3,
  it runs the one entry of the table nearest to the request, twice; with any other mix the
  list of kernels is empty and taking its front is undefined.
\<close>

theorem build_delays_nearest:
  defines "table \<equiv> \<lambda>c. get_kernels_with_delays (cf_read_write_mix c)"
  shows "if sint (cf_load_gen_delay config) \<le> 0
    then build_delays_and_kernels config = Inr (hd (table config) # table config)
    else if cf_read_write_mix config < 4
    then \<exists>item. build_delays_and_kernels config = Inr [item, item] \<and> item \<in> set (table config) \<and>
      list_all (\<lambda>x. \<bar>sint (fst item) - sint (cf_load_gen_delay config)\<bar>
          \<le> \<bar>sint (fst x) - sint (cf_load_gen_delay config)\<bar>) (table config)
    else build_delays_and_kernels config = Inl (Undefined_Behaviour ''front of an empty list'')"
proof -
  let ?req = "sint (cf_load_gen_delay config)" and ?t = "get_kernels_with_delays (cf_read_write_mix config)"
  note spec = nearest_delay_spec [of ?req ?t ?req "[]"]
  have ne: "?t \<noteq> []" by (simp add: get_kernels_with_delays_def)
  consider "?req \<le> 0" | "0 < ?req" "cf_read_write_mix config < 4" | "0 < ?req" "\<not> cf_read_write_mix config < 4"
    by linarith
  then show ?thesis
  proof cases
    case 1
    then show ?thesis using ne by (cases ?t) (simp_all add: build_delays_and_kernels_def table_def)
  next
    case 2
    obtain k where "(1, k) \<in> set ?t" using delay_table_has_1 [OF 2(2)] ..
    moreover have "\<bar>sint (1 :: i32) - ?req\<bar> < ?req" using 2(1) by simp
    ultimately obtain item where "item \<in> set ?t" "nearest_delay ?req ?t ?req [] = [item]"
      "\<forall>x \<in> set ?t. \<bar>sint (fst item) - ?req\<bar> \<le> \<bar>sint (fst x) - ?req\<bar>"
      using spec by force
    with 2 show ?thesis by (auto simp: build_delays_and_kernels_def table_def list_all_iff Let_def)
  next
    case 3
    then have "map fst ?t = [0]" by (auto simp: get_kernels_with_delays_def)
    then have "nearest_delay ?req ?t ?req [] = []" using 3(1) by (cases ?t) auto
    with 3 show ?thesis by (simp add: build_delays_and_kernels_def table_def)
  qed
qed

section \<open>The checks on the arguments\<close>

text \<open>
  The memcpy program cannot hang. When it accepts its fragment size, and its threads'
  regions could be allocated, then a copy measurement returns as soon as the clock reaches
  the target: a fragment is never empty and at least one fits into the region.
\<close>

theorem memcpy_arguments_suffice:
  assumes accepted: "memcpy_config config0 = Inr config"
    and alloc: "mem_region_alloc_memcpy te (copy_mem_region_config config p) = ret q"
    and clock: "target_reached_at (copy_config te (memcpy_packet glibc_memcpy config last_ns q)
      (the (pk_mem_region q)) (the (pk_src_mem_region q))) K"
    and fit: "nth_check 1 (unat (chkpt_calls last_ns)) K < 2 ^ 64" "K * unat (chkpt_calls last_ns) < 2 ^ 64"
  shows "\<exists>q'. copy_fragment te (memcpy_packet glibc_memcpy config last_ns q) = ret q' \<and>
    pk_finished_bytes q' = of_nat (nth_check 1 (unat (chkpt_calls last_ns)) K) * cf_fragment_size_b config"
proof -
  let ?sz = "cf_region_size_kb config * 1024" and ?p = "memcpy_packet glibc_memcpy config last_ns q"
  obtain r where r: "MemRegion (te_alloc te) ?sz ?sz 4096 64 NATIVE NONE = Inr r"
    and q: "pk_mem_region q = Some r" "pk_src_mem_region q = Some r"
    using alloc unfolding mem_region_alloc_memcpy_def Let_def
    by (cases "MemRegion (te_alloc te) ?sz ?sz 4096 64 NATIVE NONE") (auto simp: copy_mem_region_config_def)
  note f = MemRegion_fields [OF r]
  have frag: "0 < cf_fragment_size_b config" "cf_fragment_size_b config \<le> ?sz"
    using accepted by (auto simp: memcpy_config_def Let_def word_greater_zero_iff split: if_splits)
  have p: "pk_mem_region ?p = Some r" "pk_src_mem_region ?p = Some r" "pk_kernel_memcpy ?p = Some glibc_memcpy"
    "pk_fragment_size ?p = cf_fragment_size_b config" "pk_ref_one_exec_time_ns ?p = last_ns"
    using q by (simp_all add: memcpy_packet_def)
  have clock': "target_reached_at (copy_config te ?p r r) K" using clock q by simp
  have "\<exists>m. copy_fragment te ?p = ret (?p\<lparr>pk_mem_region := Some (r\<lparr>mr_bytes := m\<rparr>),
        pk_finished_bytes := of_nat (nth_check 1 (unat (chkpt_calls (pk_ref_one_exec_time_ns ?p))) K) * pk_fragment_size ?p,
        pk_exec_time := double (double (of_int (te_clock te K - te_clock te 0)) / 10 ^ 9)\<rparr>) \<and>
      (\<forall>a < unat (pk_fragment_size ?p) * min (nth_check 1 (unat (chkpt_calls (pk_ref_one_exec_time_ns ?p))) K)
            (unat (mr_active_size r) div unat (pk_fragment_size ?p)). m a = mr_bytes r a)"
    by (rule copy_fragment_returns [OF p(1-3) _ _ _ _ clock'])
       (use frag f p fit in \<open>simp_all add: word_less_nat_alt word_le_nat_alt\<close>)
  then show ?thesis using p by auto
qed

lemma memcpy_arguments_suffice_witness:
  "\<exists>config q q'. memcpy_config ((initial_configuration example_machine MEMCPY)\<lparr>cf_region_size_kb := 16,
        cf_fragment_size_b := 0, cf_target_duration_s := 1\<rparr>) = Inr config \<and>
     mem_region_alloc_memcpy example_thread_env (copy_mem_region_config config example_packet) = ret q \<and>
     copy_fragment example_thread_env (memcpy_packet glibc_memcpy config 0 q) = ret q' \<and>
     pk_finished_bytes q' = 32768"
proof -
  let ?te = example_thread_env
  define config where "config = (initial_configuration example_machine MEMCPY)\<lparr>cf_region_size_kb := 16,
        cf_fragment_size_b := 16384, cf_target_duration_s := 1\<rparr>"
  have acc: "memcpy_config ((initial_configuration example_machine MEMCPY)\<lparr>cf_region_size_kb := 16,
        cf_fragment_size_b := 0, cf_target_duration_s := 1\<rparr>) = Inr config"
    by (simp add: memcpy_config_def config_def initial_configuration_def)
  have cf: "cf_region_size_kb config = 16" "cf_fragment_size_b config = 16384" by (simp_all add: config_def)
  obtain r where r: "MemRegion small_env 16384 16384 4096 64 NATIVE NONE = Inr r"
    using small_region [of 16384 4096 64] by auto
  define q where "q = (copy_mem_region_config config example_packet)\<lparr>pk_mem_region := Some r, pk_src_mem_region := Some r\<rparr>"
  have alloc: "mem_region_alloc_memcpy ?te (copy_mem_region_config config example_packet) = ret q"
    using r by (simp add: mem_region_alloc_memcpy_def example_thread_env_def q_def copy_mem_region_config_def cf)
  have clock: "target_reached_at (copy_config ?te (memcpy_packet glibc_memcpy config 0 q)
      (the (pk_mem_region q)) (the (pk_src_mem_region q))) 1"
    by (simp add: target_reached_at_def copy_config_def target_duration_ns_def example_thread_env_def memcpy_packet_def)
  have chk: "unat (chkpt_calls 0) = 1" by (simp add: chkpt_calls_def)
  have n: "nth_check 1 1 1 = 2" by (simp add: numeral_eq_Suc [of "num.One"])
  from memcpy_arguments_suffice [OF acc alloc clock] acc alloc chk n cf show ?thesis
    by (fastforce simp del: nth_check.simps)
qed

text \<open>A thread of the branch program whose sample ends at the \<open>K\<close>-th reading.\<close>

definition branches_of :: "u32 \<Rightarrow> nat \<Rightarrow> u64" where
  "branches_of index K = of_nat K * taken_branches (bc_branches (branch_cases ! unat index)) batch_rounds"

lemma branch_range_valid:
  assumes "branch_arguments_ok config"
  shows "\<forall>index \<in> set (branch_case_range config). unat index < length branch_cases"
    and "branch_case_range config \<noteq> []"
proof -
  have c: "unat (cf_branch_case config) \<le> 12"
    using assms by (simp add: branch_arguments_ok_def branch_case_count_def word_le_nat_alt)
  have l: "length branch_cases = 12" by (simp add: branch_cases_def)
  have "unat (cf_branch_case config - 1) = unat (cf_branch_case config) - 1" "0 < unat (cf_branch_case config)"
    if "cf_branch_case config \<noteq> 0"
    using that by (simp_all add: unat_minus_one unat_gt_0)
  with c show "\<forall>index \<in> set (branch_case_range config). unat index < length branch_cases"
      "branch_case_range config \<noteq> []"
    by (auto simp: branch_case_range_def Let_def l branch_case_count_def)
qed

end
