(* ===== verification/Clocked_Runs.thy ===== *)
theory Clocked_Runs
  imports Program_Props
begin

text \<open>
  What the programs rely on of the machine, in the terms of the machine: the clock of every
  thread reaches the target duration, after not too many and not too distant readings. From
  it follow the bounds under which the workers' counters do not wrap and the conversions of
  their sums are defined.
\<close>

section \<open>The clock of a thread\<close>

text \<open>The target of \<open>secs\<close> seconds is first reached at the \<open>K\<close>-th reading after the start.\<close>

definition clock_reaches :: "thread_env \<Rightarrow> u32 \<Rightarrow> nat \<Rightarrow> bool" where
  "clock_reaches te secs K \<longleftrightarrow>
     1 \<le> K \<and> uint secs * 1000000000 \<le> te_clock te K - te_clock te 0 \<and>
     (\<forall>k. 1 \<le> k \<longrightarrow> k < K \<longrightarrow> te_clock te k - te_clock te 0 < uint secs * 1000000000)"

lemma clock_reaches_lat: "target_reached_at (lat_config te p r) K \<longleftrightarrow> clock_reaches te (pk_target_duration p) K"
  and clock_reaches_bw: "target_reached_at (bw_config te p mbps r) K \<longleftrightarrow> clock_reaches te (pk_target_duration p) K"
  and clock_reaches_copy: "target_reached_at (copy_config te p dst src) K \<longleftrightarrow> clock_reaches te (pk_target_duration p) K"
  by (simp_all add: target_reached_at_def clock_reaches_def lat_config_def bw_config_def copy_config_def
      target_duration_ns_def)

text \<open>The time of a measurement, and that its readings are at most about a second apart.\<close>

definition steady_clock :: "thread_env \<Rightarrow> u32 \<Rightarrow> nat \<Rightarrow> bool" where
  "steady_clock te secs K \<longleftrightarrow> clock_reaches te secs K \<and> lat_time te K \<le> int K * 2 ^ 30"

lemma steady_clock_bounds:
  assumes "steady_clock te secs K"
  shows "clock_reaches te secs K" and "1 \<le> K" and "0 \<le> lat_time te K"
    and "uint secs * 1000000000 \<le> lat_time te K" and "lat_time te K \<le> int K * 2 ^ 30"
proof -
  show *: "clock_reaches te secs K" "1 \<le> K" "uint secs * 1000000000 \<le> lat_time te K" "lat_time te K \<le> int K * 2 ^ 30"
    using assms by (simp_all add: steady_clock_def clock_reaches_def lat_time_def)
  show "0 \<le> lat_time te K" using *(3) uint_ge_0 [of secs] by linarith
qed

section \<open>How much work the checkpoints take\<close>

lemma nth_check_upper:
  assumes "0 < u"
  shows "u * nth_check u chk K \<le> K * chk + K * u"
proof (cases K)
  case (Suc k)
  have "u * (Suc k * chk div u) \<le> Suc k * chk" by simp
  then have "u * (Suc k * chk div u + 1) \<le> Suc k * chk + Suc k * u"
    unfolding distrib_left mult_1_right by (rule add_mono) simp
  moreover have "u * Suc k \<le> Suc k * chk + Suc k * u" by simp
  ultimately have "u * max (Suc k) (Suc k * chk div u + 1) \<le> Suc k * chk + Suc k * u"
    by (simp only: max_def split: if_split) blast
  then show ?thesis by (simp only: Suc nth_check.simps)
qed simp

definition hops_made :: "u32 \<Rightarrow> u64 \<Rightarrow> nat \<Rightarrow> nat" where
  "hops_made ref_ps sz K = 256 * nth_check 256 (unat (chkpt_chases ref_ps sz)) K"

lemma chkpt_chases_bound: "unat (chkpt_chases ref_ps sz) \<le> 4194304000"
proof -
  have "unat (push_bit 20 4 div ucast ref_ps * 1000 :: u64) \<le> 4194304000"
  proof -
    let ?q = "push_bit 20 4 div ucast ref_ps :: u64"
    have "unat ?q \<le> unat (push_bit 20 4 :: u64)" unfolding unat_div by (rule div_le_dividend)
    then have q: "unat ?q \<le> 4194304" by (simp add: push_bit_eq_mult)
    then have "unat (?q * 1000) = unat ?q * 1000" by (subst unat_mult_64) simp_all
    with q show ?thesis by simp
  qed
  then show ?thesis by (simp add: chkpt_chases_def push_bit_eq_mult)
qed

lemma hops_made_bounds:
  shows "256 * K \<le> hops_made ref_ps sz K" and "hops_made ref_ps sz K \<le> K * 4194304256"
    and "K * unat (chkpt_chases ref_ps sz) \<le> K * 4194304000"
proof -
  show "256 * K \<le> hops_made ref_ps sz K" unfolding hops_made_def by (intro mult_le_mono2 nth_check_ge)
  show *: "K * unat (chkpt_chases ref_ps sz) \<le> K * 4194304000" by (intro mult_le_mono2 chkpt_chases_bound)
  have "hops_made ref_ps sz K \<le> K * unat (chkpt_chases ref_ps sz) + K * 256"
    unfolding hops_made_def by (rule nth_check_upper) simp
  with * show "hops_made ref_ps sz K \<le> K * 4194304256" by linarith
qed

section \<open>Many roundings\<close>

lemma power_one_plus:
  fixes e :: rat
  assumes "0 \<le> e" and "of_nat m * e \<le> 1 / 2"
  shows "(1 + e) ^ m \<le> 1 + 2 * of_nat m * e"
  using assms(2)
proof (induction m)
  case (Suc m)
  then have "of_nat m * e + e \<le> 1 / 2" by (simp add: distrib_right)
  with assms(1) have me: "of_nat m * e \<le> 1 / 2" by linarith
  then have "of_nat m * e * e \<le> 1 / 2 * e" using assms(1) by (rule mult_right_mono)
  moreover have "(1 + e) ^ Suc m \<le> (1 + e) * (1 + 2 * of_nat m * e)"
    using Suc.IH [OF me] assms(1) by (simp add: mult_left_mono)
  ultimately show ?case using assms(1) by (simp add: algebra_simps)
qed simp

lemma roundings_small:
  assumes "m \<le> 2 ^ 34"
  shows "(1 + eps) ^ m \<le> 1 + 1 / 2 ^ 18" and "1 - 1 / 2 ^ 19 \<le> (1 - eps) ^ m"
proof -
  have "of_nat m \<le> (2 ^ 34 :: rat)" using assms by (metis of_nat_le_iff of_nat_numeral of_nat_power)
  then have m: "of_nat m * eps \<le> 1 / 2 ^ 19"
    using mult_right_mono [of "of_nat m" "2 ^ 34" eps] eps_bounds(1) by (simp add: eps_def)
  have "(1 + eps) ^ m \<le> 1 + 2 * of_nat m * eps"
    using m eps_bounds by (intro power_one_plus) simp_all
  with m show "(1 + eps) ^ m \<le> 1 + 1 / 2 ^ 18" by (simp add: mult.assoc)
  have "1 - of_nat k * eps \<le> (1 - eps) ^ k" for k
  proof (induction k)
    case (Suc k)
    have "(1 - of_nat k * eps) * (1 - eps) \<le> (1 - eps) ^ k * (1 - eps)"
      using Suc eps_bounds by (intro mult_right_mono) simp_all
    moreover have "0 \<le> of_nat k * eps * eps" using eps_bounds by simp
    ultimately show ?case by (simp add: algebra_simps)
  qed simp
  from order_trans [OF diff_left_mono [OF m] this] show "1 - 1 / 2 ^ 19 \<le> (1 - eps) ^ m" .
qed

text \<open>A value computed with up to \<open>2 ^ 34\<close> roundings.\<close>

lemma near_close:
  assumes "near m x y" and "m \<le> 2 ^ 34"
  shows "x * (1 - 1 / 2 ^ 19) \<le> y" and "y \<le> x * (1 + 1 / 2 ^ 18)"
proof -
  have x: "0 \<le> x" "x * (1 - eps) ^ m \<le> y" "y \<le> x * (1 + eps) ^ m" using assms(1) by (simp_all add: near_def)
  note b = mult_left_mono [OF roundings_small(1) [OF assms(2)] x(1)] mult_left_mono [OF roundings_small(2) [OF assms(2)] x(1)]
  show "x * (1 - 1 / 2 ^ 19) \<le> y" by (rule order_trans [OF b(2) x(2)])
  show "y \<le> x * (1 + 1 / 2 ^ 18)" by (rule order_trans [OF x(3) b(1)])
qed

section \<open>Running every thread\<close>

text \<open>No call to create or join a thread fails.\<close>

definition run_succeeds :: "run_env \<Rightarrow> nat \<Rightarrow> bool" where
  "run_succeeds env n \<longleftrightarrow> (\<forall>i < n. je_create (rn_join env) i = 0 \<and> je_join (rn_join env) i = 0)"

lemma run_workers_returns:
  assumes wf: "manager_wf wm" and n: "n = unat (wm_num_threads wm)" and calls: "run_succeeds env n"
    and threads: "\<And>i. i < n \<Longrightarrow> \<exists>r q. wm_start_routines wm ! i = Some r \<and>
      routine r (rn_threads env i) (wm_packets wm ! i) = ret q \<and> P i q"
  shows "\<exists>wm'. run_workers env wm = ret wm' \<and> manager_wf wm' \<and> wm_num_threads wm' = wm_num_threads wm \<and>
    (\<forall>i < n. P i (wm_packets wm' ! i))"
proof -
  obtain r q where rq: "\<And>i. i < n \<Longrightarrow> wm_start_routines wm ! i = Some (r i) \<and>
      routine (r i) (rn_threads env i) (wm_packets wm ! i) = ret (q i) \<and> P i (q i)"
    using threads by metis
  let ?wm' = "wm\<lparr>wm_created := map (\<lambda>i. wm_start_routines wm ! i \<noteq> None) [0..<unat (wm_num_threads wm)],
    wm_packets := map q [0..<n]\<rparr>"
  have "run_workers env wm = ret ?wm'"
    unfolding run_workers_def
    by (rule run_threads_eq_ret) (use calls rq n in \<open>simp_all add: run_succeeds_def\<close>)
  moreover have "manager_wf ?wm'" using wf n by (simp add: manager_wf_def)
  ultimately show ?thesis using rq by auto
qed

lemma setRoutine_wf:
  assumes "manager_wf wm"
  shows "manager_wf (setRoutine r wm)" and "wm_num_threads (setRoutine r wm) = wm_num_threads wm"
    and "wm_packets (setRoutine r wm) = wm_packets wm"
    and "i < unat (wm_num_threads wm) \<Longrightarrow> wm_start_routines (setRoutine r wm) ! i = r"
  using assms by (simp_all add: manager_wf_def setRoutine_def)

lemma map_packets_wf:
  assumes "manager_wf wm"
  shows "manager_wf (map_packets f wm)" and "wm_num_threads (map_packets f wm) = wm_num_threads wm"
    and "i < unat (wm_num_threads wm) \<Longrightarrow> wm_packets (map_packets f wm) ! i = f (of_nat i) (wm_packets wm ! i)"
  using assms by (simp_all add: manager_wf_def map_packets_def below_def)

lemma run_routine_returns:
  assumes wf: "manager_wf wm" and n: "n = unat (wm_num_threads wm)" and calls: "run_succeeds env n"
    and threads: "\<And>i. i < n \<Longrightarrow> \<exists>q. routine r (rn_threads env i) (wm_packets wm ! i) = ret q \<and> P i q"
  shows "\<exists>wm'. run_routine env r wm = ret wm' \<and> manager_wf wm' \<and> wm_num_threads wm' = wm_num_threads wm \<and>
    (\<forall>i < n. P i (wm_packets wm' ! i))"
proof -
  note s = setRoutine_wf [OF wf, where r = "Some r"]
  have "\<exists>r' q. wm_start_routines (setRoutine (Some r) wm) ! i = Some r' \<and>
      routine r' (rn_threads env i) (wm_packets (setRoutine (Some r) wm) ! i) = ret q \<and> P i q" if "i < n" for i
    using threads [OF that] s(4) [of i] that by (simp add: s(3) n)
  from run_workers_returns [where P = P, OF s(1) n [folded s(2)] calls this]
  show ?thesis by (simp add: run_routine_def s(2))
qed

end
