(* ===== verification/Configuration_Props.thy ===== *)
theory Configuration_Props
  imports Configuration Option_Grammar
begin

text \<open>
  The properties of the configuration: which options each kind of test offers, the
  defaults, what a successful parse leaves unchanged, and the round trip between a
  configuration and the command line that describes it.
\<close>

section \<open>Evaluating the option tables\<close>

lemmas configuration_eval = Configuration_def add_generic_options_def add_branch_options_def
  add_latency_options_def add_bandwidth_options_def add_memcpy_options_def set_group_def
  cl_set_group_def CommandLine_def cl_value_def cl_flag_def cl_add_def find_char_def Let_def
  initial_configuration_def

lemma it_cast_uint32 [simp]: "it_cast uint32_type (uint (x :: u32)) = uint x"
  using uint_bounded [of x] by (simp add: it_cast_def uint32_type_def)

lemma it_cast_uint64 [simp]: "it_cast uint64_type (uint (x :: u64)) = uint x"
  using uint_bounded [of x] by (simp add: it_cast_def uint64_type_def)

lemma it_cast_int32 [simp]: "it_cast int32_type (sint (x :: i32)) = sint x"
  using sint_range_size [of x] by (simp add: it_cast_def int32_type_def word_size mod_pos_pos_trivial)

lemma it_cast_small [simp]:
  "it_cast uint32_type 0 = 0" "it_cast uint64_type 0 = 0" "it_cast int32_type 0 = 0"
  "it_cast uint32_type 1 = 1" "it_cast uint32_type 10 = 10" "it_cast uint32_type 128 = 128"
  by (simp_all add: it_cast_def uint32_type_def uint64_type_def int32_type_def)

text \<open>The assignments the options carry.\<close>

definition set_u32 :: "((u32 \<Rightarrow> u32) \<Rightarrow> configuration \<Rightarrow> configuration) \<Rightarrow> string \<Rightarrow> configuration \<Rightarrow> string + configuration" where
  "set_u32 upd = (\<lambda>text cf. map_sum id (\<lambda>v. upd (\<lambda>_. word_of_int v) cf) (value_assign uint32_type text))"

definition set_u64 :: "((u64 \<Rightarrow> u64) \<Rightarrow> configuration \<Rightarrow> configuration) \<Rightarrow> string \<Rightarrow> configuration \<Rightarrow> string + configuration" where
  "set_u64 upd = (\<lambda>text cf. map_sum id (\<lambda>v. upd (\<lambda>_. word_of_int v) cf) (value_assign uint64_type text))"

definition set_i32 :: "((i32 \<Rightarrow> i32) \<Rightarrow> configuration \<Rightarrow> configuration) \<Rightarrow> string \<Rightarrow> configuration \<Rightarrow> string + configuration" where
  "set_i32 upd = (\<lambda>text cf. map_sum id (\<lambda>v. upd (\<lambda>_. word_of_int v) cf) (value_assign int32_type text))"

definition set_flag :: "((bool \<Rightarrow> bool) \<Rightarrow> configuration \<Rightarrow> configuration) \<Rightarrow> string \<Rightarrow> configuration \<Rightarrow> string + configuration" where
  "set_flag upd = (\<lambda>text cf. Inr (upd (\<lambda>_. True) cf))"

lemmas set_defs = set_u32_def set_u64_def set_i32_def set_flag_def

lemma set_updates:
  "set_u32 upd v cf = Inr cf' \<Longrightarrow> \<exists>w. cf' = upd (\<lambda>_. w) cf"
  "set_u64 upd64 v cf = Inr cf' \<Longrightarrow> \<exists>w. cf' = upd64 (\<lambda>_. w) cf"
  "set_i32 upd32 v cf = Inr cf' \<Longrightarrow> \<exists>w. cf' = upd32 (\<lambda>_. w) cf"
  "set_flag updf v cf = Inr cf' \<Longrightarrow> cf' = updf (\<lambda>_. True) cf"
  unfolding set_defs by (auto simp: map_sum_def split: sum.splits)

definition assign_table :: "testing_type \<Rightarrow> (string \<Rightarrow> configuration \<Rightarrow> string + configuration) list" where
  "assign_table t =
     [set_flag cf_help_update, set_u32 cf_target_duration_s_update, set_u32 cf_num_threads_update] @
     (if t = BRANCH_THROUGHPUT then [] else [set_u64 cf_region_size_kb_update]) @
     [set_flag cf_no_binding_update, set_flag cf_verbose_update] @
     (if t = BRANCH_THROUGHPUT then [set_u32 cf_branch_case_update] else []) @
     (if t = LATENCY \<or> t = LATENCY_BANDWIDTH
      then [set_u32 cf_access_pattern_update, set_u32 cf_chunk_size_kb_update,
            set_u32 cf_stride_size_b_update, set_u32 cf_use_hugepage_update] else []) @
     (if t = LATENCY then [set_flag cf_latency_matrix_update] else []) @
     (if t = BANDWIDTH \<or> t = LATENCY_BANDWIDTH then [set_u32 cf_read_write_mix_update] else []) @
     (if t = LATENCY_BANDWIDTH then [set_i32 cf_load_gen_delay_update] else []) @
     (if t = BANDWIDTH then [set_flag cf_bandwidth_matrix_update] else []) @
     (if t = MEMCPY then [set_u64 cf_fragment_size_b_update, set_flag cf_memcpy_matrix_update] else [])"

lemma assign_table_eq:
  "map opt_assign (cl_options (fst (Configuration nc t))) = assign_table t"
  by (cases t) (simp_all add: configuration_eval assign_table_def set_defs)

text \<open>The options of a kind of test: name, alias and whether it is a flag.\<close>

definition option_table :: "testing_type \<Rightarrow> (string \<times> string \<times> bool) list" where
  "option_table t =
     [(''help'', ''h'', True), (''target_duration'', ''t'', False), (''num_threads'', ''n'', False)] @
     (if t = BRANCH_THROUGHPUT then [] else [(''region_size'', ''b'', False)]) @
     [(''no_binding'', '''', True), (''verbose'', ''v'', True)] @
     (if t = BRANCH_THROUGHPUT then [(''branch_case'', '''', False)] else []) @
     (if t = LATENCY \<or> t = LATENCY_BANDWIDTH
      then [(''access_pattern'', ''p'', False), (''chunk_size'', ''c'', False),
            (''stride_size'', ''s'', False), (''use_hugepage'', ''H'', False)] else []) @
     (if t = LATENCY then [(''latency_matrix'', '''', True)] else []) @
     (if t = BANDWIDTH \<or> t = LATENCY_BANDWIDTH then [(''read_write_mix'', ''m'', False)] else []) @
     (if t = LATENCY_BANDWIDTH then [(''load_gen_delay'', ''d'', False)] else []) @
     (if t = BANDWIDTH then [(''bandwidth_matrix'', '''', True)] else []) @
     (if t = MEMCPY then [(''fragment_size'', ''f'', False), (''memcpy_matrix'', '''', True)] else [])"

lemma option_table_eq:
  "map (\<lambda>opt. (opt_name opt, opt_alias opt, opt_is_flag opt)) (cl_options (fst (Configuration nc t))) = option_table t"
  by (cases t) (simp_all add: configuration_eval option_table_def)

lemma option_table_distinct:
  "distinct (map fst (option_table t))"
  "distinct (filter (\<lambda>a. a \<noteq> '''') (map (fst \<circ> snd) (option_table t)))"
  "list_all (\<lambda>(n, a, f). n \<noteq> '''' \<and> CHR ''='' \<notin> set n \<and> length a \<le> 1) (option_table t)"
  by (cases t; simp add: option_table_def)+

section \<open>Defaults\<close>

definition default_configuration :: "numa_config \<Rightarrow> testing_type \<Rightarrow> configuration" where
  "default_configuration nc t =
     \<lparr>cf_numa_config = nc, cf_branch_case = 0,
      cf_num_threads = (if t \<in> {LATENCY, BRANCH_THROUGHPUT} then 1
                        else of_nat (length (all_allowed_cpus nc))),
      cf_region_size_kb = (if t = LATENCY then 512 * 1024 else 128 * 1024),
      cf_no_binding = False, cf_verbose = False, cf_access_pattern = 1,
      cf_chunk_size_kb = (if t = LATENCY_BANDWIDTH then 64 else 128),
      cf_stride_size_b = (if t \<in> {LATENCY, LATENCY_BANDWIDTH} then 128 else 64),
      cf_fragment_size_b = (if t = MEMCPY then 0 else 4096), cf_use_hugepage = 0,
      cf_read_write_mix = (if t = BANDWIDTH then 100 else if t = LATENCY_BANDWIDTH then 2 else 0),
      cf_load_gen_delay = 0, cf_target_duration_s = 10, cf_latency_matrix = False,
      cf_bandwidth_matrix = False, cf_memcpy_matrix = False, cf_testing_type = t,
      cf_help = False\<rparr>"

lemma configuration_default: "snd (Configuration nc t) = default_configuration nc t"
  by (cases t) (simp_all add: configuration_eval default_configuration_def read_write_mix_sweep_def)


section \<open>Rendering a configuration as a command line\<close>

lemma value_assign_u32 [simp]: "value_assign uint32_type (show_u32 x) = Inr (uint x)"
proof -
  have "show_u32 x = show_int (uint x)" by (simp add: show_u32_def show_int_def)
  then show ?thesis
    using value_assign_show_int [of uint32_type "uint x"] uint_bounded [of x]
    by (simp add: uint32_type_def it_min_def it_max_def)
qed

lemma value_assign_u64 [simp]: "value_assign uint64_type (show_u64 x) = Inr (uint x)"
proof -
  have "show_u64 x = show_int (uint x)" by (simp add: show_u64_def show_int_def)
  then show ?thesis
    using value_assign_show_int [of uint64_type "uint x"] uint_bounded [of x]
    by (simp add: uint64_type_def it_min_def it_max_def)
qed

lemma value_assign_i32 [simp]: "value_assign int32_type (show_int (sint (x :: i32))) = Inr (sint x)"
  using value_assign_show_int [of int32_type "sint x"] sint_range_size [of x]
  by (simp add: int32_type_def it_min_def it_max_def word_size)

definition config_args :: "configuration \<Rightarrow> string list" where
  "config_args cf =
     (let t = cf_testing_type cf; flag = (\<lambda>b name. if b then [name] else []) in
      [''--target_duration='' @ show_u32 (cf_target_duration_s cf),
       ''--num_threads='' @ show_u32 (cf_num_threads cf)] @
      (if t = BRANCH_THROUGHPUT
       then [''--branch_case='' @ show_u32 (cf_branch_case cf)]
       else [''--region_size='' @ show_u64 (cf_region_size_kb cf)]) @
      (if t = LATENCY \<or> t = LATENCY_BANDWIDTH
       then [''--access_pattern='' @ show_u32 (cf_access_pattern cf),
             ''--chunk_size='' @ show_u32 (cf_chunk_size_kb cf),
             ''--stride_size='' @ show_u32 (cf_stride_size_b cf),
             ''--use_hugepage='' @ show_u32 (cf_use_hugepage cf)] else []) @
      (if t = BANDWIDTH \<or> t = LATENCY_BANDWIDTH
       then [''--read_write_mix='' @ show_u32 (cf_read_write_mix cf)] else []) @
      (if t = LATENCY_BANDWIDTH
       then [''--load_gen_delay='' @ show_int (sint (cf_load_gen_delay cf))] else []) @
      (if t = MEMCPY then [''--fragment_size='' @ show_u64 (cf_fragment_size_b cf)] else []) @
      flag (cf_no_binding cf) ''--no_binding'' @ flag (cf_verbose cf) ''--verbose'' @
      flag (cf_latency_matrix cf) ''--latency_matrix'' @
      flag (cf_bandwidth_matrix cf) ''--bandwidth_matrix'' @
      flag (cf_memcpy_matrix cf) ''--memcpy_matrix'')"

text \<open>
  The variables a kind of test offers no option for keep the value of the constructor.
\<close>

definition config_frame :: "numa_config \<Rightarrow> testing_type \<Rightarrow> configuration \<Rightarrow> bool" where
  "config_frame nc t cf =
     (cf_numa_config cf = nc \<and> cf_testing_type cf = t \<and>
      (if t = BRANCH_THROUGHPUT then cf_region_size_kb cf = 128 * 1024
       else cf_branch_case cf = 0) \<and>
      (if t = LATENCY \<or> t = LATENCY_BANDWIDTH then True
       else cf_access_pattern cf = 1 \<and> cf_chunk_size_kb cf = 128 \<and>
            cf_stride_size_b cf = 64 \<and> cf_use_hugepage cf = 0) \<and>
      (if t = LATENCY then True else \<not> cf_latency_matrix cf) \<and>
      (if t = BANDWIDTH \<or> t = LATENCY_BANDWIDTH then True else cf_read_write_mix cf = 0) \<and>
      (if t = LATENCY_BANDWIDTH then True else cf_load_gen_delay cf = 0) \<and>
      (if t = BANDWIDTH then True else \<not> cf_bandwidth_matrix cf) \<and>
      (if t = MEMCPY then True else cf_fragment_size_b cf = 4096 \<and> \<not> cf_memcpy_matrix cf))"

lemma config_frame_default: "config_frame nc t (default_configuration nc t)"
  by (cases t) (simp_all add: config_frame_def default_configuration_def)

lemma config_frame_assign:
  assumes "opt \<in> set (cl_options (fst (Configuration nc t)))" and "config_frame nc t cf"
    and "opt_assign opt v cf = Inr cf'"
  shows "config_frame nc t cf'"
proof -
  have a: "opt_assign opt \<in> set (assign_table t)"
    using assms(1) unfolding assign_table_eq [of nc t, symmetric] by simp
  show ?thesis
    using a assms(2,3)
    by (cases t) (auto simp: assign_table_def config_frame_def dest!: set_updates)
qed

lemma config_frame_correct: "config_frame nc t cf \<Longrightarrow> config_frame nc t (auto_correct cf)"
  by (cases t) (auto simp: config_frame_def auto_correct_def default_configuration_def)

lemma parse_options_frame:
  assumes "parse_options (Configuration nc t) args = Inr cf"
  shows "config_frame nc t cf"
proof -
  obtain cf0 where cf0: "cl_parse (fst (Configuration nc t)) args (snd (Configuration nc t)) = Inr cf0"
    "cf = auto_correct cf0"
    using assms by (auto simp: parse_options_def split: sum.splits if_splits)
  have "config_frame nc t cf0"
    by (rule cl_parse_preserves [where P = "config_frame nc t", OF cf0(1) _ config_frame_assign])
       (simp_all add: configuration_default config_frame_default)
  then show ?thesis using config_frame_correct cf0(2) by simp
qed

text \<open>The same command line as indices into the option table with their texts.\<close>

definition config_texts :: "configuration \<Rightarrow> (nat \<times> string) list" where
  "config_texts cf =
     (let t = cf_testing_type cf; flag = (\<lambda>b i. if b then [(i, '''')] else []);
          n = (if t = BRANCH_THROUGHPUT then 3 else 4) in
      [(1, show_u32 (cf_target_duration_s cf)), (2, show_u32 (cf_num_threads cf))] @
      (if t = BRANCH_THROUGHPUT then [(5, show_u32 (cf_branch_case cf))]
       else [(3, show_u64 (cf_region_size_kb cf))]) @
      (if t = LATENCY \<or> t = LATENCY_BANDWIDTH
       then [(6, show_u32 (cf_access_pattern cf)), (7, show_u32 (cf_chunk_size_kb cf)),
             (8, show_u32 (cf_stride_size_b cf)), (9, show_u32 (cf_use_hugepage cf))] else []) @
      (if t = BANDWIDTH then [(6, show_u32 (cf_read_write_mix cf))] else []) @
      (if t = LATENCY_BANDWIDTH
       then [(10, show_u32 (cf_read_write_mix cf)), (11, show_int (sint (cf_load_gen_delay cf)))]
       else []) @
      (if t = MEMCPY then [(6, show_u64 (cf_fragment_size_b cf))] else []) @
      flag (cf_no_binding cf) n @ flag (cf_verbose cf) (n + 1) @
      flag (cf_latency_matrix cf) 10 @ flag (cf_bandwidth_matrix cf) 7 @
      flag (cf_memcpy_matrix cf) 7)"

definition config_opts :: "numa_config \<Rightarrow> testing_type \<Rightarrow> configuration cl_option list" where
  "config_opts nc t = cl_options (fst (Configuration nc t))"

lemma length_options: "length (config_opts nc t) = length (option_table t)" "length (config_opts nc t) = length (assign_table t)"
  unfolding config_opts_def using option_table_eq [of nc t] assign_table_eq [of nc t] by (metis length_map)+

lemma nth_options:
  assumes "i < length (option_table t)"
  shows "opt_name (config_opts nc t ! i) = fst (option_table t ! i)"
    and "opt_is_flag (config_opts nc t ! i) = snd (snd (option_table t ! i))"
    and "opt_assign (config_opts nc t ! i) = assign_table t ! i"
  using assms length_options unfolding option_table_eq [of nc t, symmetric] assign_table_eq [of nc t, symmetric]
  by (simp_all add: config_opts_def)

lemma options_distinct: "distinct (map opt_name (config_opts nc t))"
  using option_table_distinct(1) [of t] unfolding option_table_eq [of nc t, symmetric]
  by (simp add: config_opts_def comp_def)

lemma options_named: "opt \<in> set (config_opts nc t) \<Longrightarrow> opt_name opt \<noteq> [] \<and> CHR ''='' \<notin> set (opt_name opt)"
  using option_table_distinct(3) [of t] unfolding option_table_eq [of nc t, symmetric]
  by (auto simp: config_opts_def list_all_iff)

lemma config_texts_in_table:
  assumes "config_frame nc t cf"
  shows "list_all (\<lambda>(i, v). i < length (option_table t) \<and>
      (snd (snd (option_table t ! i)) \<longrightarrow> v = '''')) (config_texts cf)"
    and "distinct (map fst (config_texts cf))"
  using assms by (cases t; simp add: config_frame_def config_texts_def option_table_def)+

lemma config_args_spell:
  assumes "config_frame nc t cf"
  shows "config_args cf = map (spell (config_opts nc t)) (config_texts cf)"
  using assms nth_options
  by (cases t) (simp_all add: config_frame_def config_texts_def config_args_def option_table_def spell_def)

lemma config_texts_assign:
  assumes "config_frame nc t cf" and "\<not> cf_help cf"
  shows "assign_all (config_opts nc t) (config_texts cf) (default_configuration nc t) = Inr cf"
  using assms nth_options
  by (cases t) (cases cf; simp add: config_frame_def config_texts_def option_table_def assign_table_def
      set_defs default_configuration_def)+

lemma config_args_parse:
  assumes "config_frame nc t cf" and "\<not> cf_help cf"
  shows "cl_parse (fst (Configuration nc t)) (config_args cf) (snd (Configuration nc t)) = Inr cf"
proof -
  have "lexes (config_opts nc t) (config_args cf) (config_texts cf)"
    unfolding config_args_spell [OF assms(1)]
    using config_texts_in_table(1) [OF assms(1)] length_options(1) nth_options(2)
    by (intro lexes_spell options_distinct options_named) (auto simp: list_all_iff)
  then show ?thesis
    using config_texts_in_table(2) [OF assms(1)] config_texts_assign [OF assms]
    unfolding cl_parse_assigns config_opts_def configuration_default by blast
qed

section \<open>The properties\<close>

text \<open>
  The constructor gives every kind of test exactly its table of options, whose names
  and one-letter aliases are pairwise distinct and free of \<open>=\<close> (so that every option can be
  reached), and sets the variables to their defaults.
\<close>

theorem configuration_options:
  "map (\<lambda>opt. (opt_name opt, opt_alias opt, opt_is_flag opt)) (cl_options (fst (Configuration nc t)))
      = option_table t \<and>
   distinct (map fst (option_table t)) \<and>
   distinct (filter (\<lambda>a. a \<noteq> '''') (map (fst \<circ> snd) (option_table t))) \<and>
   list_all (\<lambda>(n, a, f). n \<noteq> '''' \<and> CHR ''='' \<notin> set n \<and> length a \<le> 1) (option_table t) \<and>
   snd (Configuration nc t) = default_configuration nc t"
  by (intro conjI option_table_eq option_table_distinct configuration_default)

text \<open>
  C25. A successful parse leaves every variable for which the kind of test has no option at
  the constructor's value, whatever the arguments; and with a huge page requested the chunk
  covers the region, as far as 32 bits can hold its size in KB.
\<close>

theorem parse_options_keeps:
  assumes "parse_options (Configuration nc t) args = Inr cf"
  shows "config_frame nc t cf \<and> \<not> cf_help cf \<and>
    (cf_use_hugepage cf > 0 \<longrightarrow> cf_chunk_size_kb cf = ucast (cf_region_size_kb cf))"
  using parse_options_frame [OF assms] assms
  by (auto simp: parse_options_def auto_correct_def split: sum.splits if_splits)

lemma parse_options_keeps_witness:
  "parse_options (Configuration example_machine MEMCPY) [] = Inr (default_configuration example_machine MEMCPY) \<and>
   config_frame example_machine MEMCPY (default_configuration example_machine MEMCPY)"
proof -
  have p: "parse_options (Configuration example_machine MEMCPY) [] = Inr (default_configuration example_machine MEMCPY)"
    by (simp add: parse_options_def cl_parse_def configuration_default default_configuration_def auto_correct_def)
  from p parse_options_keeps [OF p] show ?thesis by blast
qed

text \<open>
  C15. Round trip: any configuration whose remaining variables have their fixed values is
  what parsing the command line that spells it gives, after the correction of the chunk
  size for huge pages.
\<close>

theorem configuration_roundtrip:
  assumes "config_frame nc t cf" and "\<not> cf_help cf"
  shows "parse_options (Configuration nc t) (config_args cf) = Inr (auto_correct cf)"
  using config_args_parse [OF assms] assms(2) by (simp add: parse_options_def)

lemma configuration_roundtrip_witness:
  "parse_options (Configuration example_machine LATENCY)
     (config_args ((default_configuration example_machine LATENCY)\<lparr>cf_use_hugepage := 1, cf_verbose := True\<rparr>)) =
   Inr ((default_configuration example_machine LATENCY)\<lparr>cf_use_hugepage := 1, cf_verbose := True,
          cf_chunk_size_kb := 524288\<rparr>)"
  by (subst configuration_roundtrip)
     (simp_all add: config_frame_def default_configuration_def auto_correct_def)

end
