(* ===== verification/Idle_Latency_Run.thy ===== *)
theory Idle_Latency_Run
  imports Clocked_Runs Configuration_Props
begin

text \<open>
  The idle-latency program from its arguments to its output: the regions are allocated and
  initialised by the threads, a calibrating run fixes the checkpoints, and the second run
  gives the latency that is printed.
\<close>

section \<open>One measurement\<close>

text \<open>Every packet has a region of \<open>sz\<close> bytes with a ring for the latency kernel.\<close>

definition region_ready :: "u64 \<Rightarrow> mem_region option \<Rightarrow> bool" where
  "region_ready sz reg \<longleftrightarrow>
     (\<exists>r os. reg = Some r \<and> chase_ready r os \<and> mr_active_size r = sz \<and>
       0 < unat (mr_line_size r) \<and> 256 * unat (mr_line_size r) \<le> unat sz)"

definition regions_ready :: "u64 \<Rightarrow> mem_manager \<Rightarrow> bool" where
  "regions_ready sz wm \<longleftrightarrow> list_all (region_ready sz) (map pk_mem_region (wm_packets wm))"

definition mean_latency :: "run_env \<Rightarrow> nat \<Rightarrow> (nat \<Rightarrow> nat) \<Rightarrow> u32 \<Rightarrow> u64 \<Rightarrow> rat" where
  "mean_latency env n K ref_ps sz =
     of_int (\<Sum>i < n. lat_time (rn_threads env i) (K i)) / of_nat (\<Sum>i < n. hops_made ref_ps sz (K i))"

text \<open>The clocks of the threads reach the target of \<open>secs\<close> seconds.\<close>

definition clocks_steady :: "run_env \<Rightarrow> nat \<Rightarrow> u32 \<Rightarrow> (nat \<Rightarrow> nat) \<Rightarrow> bool" where
  "clocks_steady env n secs K \<longleftrightarrow>
     (\<forall>i < n. steady_clock (rn_threads env i) secs (K i)) \<and> (\<Sum>i < n. K i) \<le> 2 ^ 20"

lemma clocks_steady_sums:
  assumes "clocks_steady env n secs K"
  defines "time \<equiv> \<lambda>i. lat_time (rn_threads env i) (K i)"
  shows "i < n \<Longrightarrow> K i \<le> 2 ^ 20" and "i < n \<Longrightarrow> 0 \<le> time i \<and> time i < 2 ^ 53"
    and "0 \<le> (\<Sum>i < n. time i)" and "(\<Sum>i < n. time i) \<le> int (\<Sum>i < n. K i) * 2 ^ 30"
    and "n \<le> (\<Sum>i < n. K i)" and "int n * (uint secs * 1000000000) \<le> (\<Sum>i < n. time i)"
proof -
  have st: "steady_clock (rn_threads env i) secs (K i)" if "i < n" for i
    using assms(1) that by (simp add: clocks_steady_def)
  note b = steady_clock_bounds [OF st]
  have sum: "(\<Sum>i < n. K i) \<le> 2 ^ 20" using assms(1) by (simp add: clocks_steady_def)
  show K: "K i \<le> 2 ^ 20" if "i < n" for i
    using that member_le_sum [of i "{..<n}" K] sum by simp
  show "0 \<le> time i \<and> time i < 2 ^ 53" if "i < n" for i
    using K [OF that] b(3,5) [OF that] by (simp add: time_def)
  show "0 \<le> (\<Sum>i < n. time i)" using b(3) by (intro sum_nonneg) (simp add: time_def)
  have "(\<Sum>i < n. time i) \<le> (\<Sum>i < n. int (K i) * 2 ^ 30)" using b(5) by (intro sum_mono) (simp add: time_def)
  then show "(\<Sum>i < n. time i) \<le> int (\<Sum>i < n. K i) * 2 ^ 30" by (simp add: sum_distrib_right)
  have "(\<Sum>i < n. 1) \<le> (\<Sum>i < n. K i)" using b(2) by (intro sum_mono) simp
  then show "n \<le> (\<Sum>i < n. K i)" by simp
  have "(\<Sum>i < n. uint secs * 1000000000) \<le> (\<Sum>i < n. time i)" using b(4) by (intro sum_mono) (simp add: time_def)
  then show "int n * (uint secs * 1000000000) \<le> (\<Sum>i < n. time i)" by simp
qed

lemma mean_latency_range:
  assumes "clocks_steady env n secs K" and "0 < n"
  shows "0 < (\<Sum>i < n. hops_made ref_ps sz (K i))" and "(\<Sum>i < n. hops_made ref_ps sz (K i)) < 2 ^ 53"
    and "mean_latency env n K ref_ps sz \<le> 2 ^ 22"
proof -
  let ?H = "\<Sum>i < n. hops_made ref_ps sz (K i)" and ?K = "\<Sum>i < n. K i"
    and ?T = "\<Sum>i < n. lat_time (rn_threads env i) (K i)"
  have sum: "?K \<le> 2 ^ 20" using assms(1) by (simp add: clocks_steady_def)
  have "(\<Sum>i < n. 256 * K i) \<le> ?H" by (intro sum_mono hops_made_bounds(1))
  then have low: "256 * ?K \<le> ?H" by (simp only: sum_distrib_left)
  then show pos: "0 < ?H" using clocks_steady_sums(5) [OF assms(1)] assms(2) by linarith
  have "?H \<le> (\<Sum>i < n. K i * 4194304256)" by (intro sum_mono hops_made_bounds(2))
  then have "?H \<le> ?K * 4194304256" by (simp only: sum_distrib_right)
  with sum show "?H < 2 ^ 53" by simp
  have "256 * int ?K \<le> int ?H" using low by linarith
  then have "?T \<le> int ?H * 2 ^ 22" using clocks_steady_sums(4) [OF assms(1)] by (simp del: of_nat_sum)
  then have "(of_int ?T :: rat) \<le> of_int (int ?H * 2 ^ 22)" by (simp only: of_int_le_iff)
  then have "of_int ?T \<le> (of_nat ?H :: rat) * 2 ^ 22" by (simp only: of_int_mult of_int_of_nat_eq of_int_power of_int_numeral)
  moreover have "0 < (of_nat ?H :: rat)" using pos by (simp only: of_nat_0_less_iff)
  ultimately show "mean_latency env n K ref_ps sz \<le> 2 ^ 22"
    unfolding mean_latency_def by (simp only: pos_divide_le_eq mult.commute)
qed

lemma measure_idle_latency_returns:
  assumes wf: "manager_wf wm" and n: "n = unat (wm_num_threads wm)" "0 < n"
    and calls: "run_succeeds env n" and regions: "regions_ready sz wm"
    and clocks: "clocks_steady env n (if last_ps > 0 then cf_target_duration_s config else 1) K"
  shows "\<exists>L wm' ps x. measure_idle_latency env wm config last_ps =
      ret (if last_ps > 0 then [Number L] else [], wm', ps) \<and>
    near (n + 3) (mean_latency env n K last_ps sz) L \<and>
    near (n + 4) (1000 * mean_latency env n K last_ps sz) x \<and> int (unat ps) = \<lfloor>x\<rfloor> \<and>
    manager_wf wm' \<and> wm_num_threads wm' = wm_num_threads wm \<and> regions_ready sz wm'"
proof -
  let ?p = "\<lambda>i. idle_latency_packet config last_ps (wm_packets wm ! i)"
  have len: "length (wm_packets wm) = n" using wf n(1) by (simp add: manager_wf_def)
  then have "\<forall>i. \<exists>r os. i < n \<longrightarrow> pk_mem_region (wm_packets wm ! i) = Some r \<and> chase_ready r os \<and>
      mr_active_size r = sz \<and> 0 < unat (mr_line_size r) \<and> 256 * unat (mr_line_size r) \<le> unat sz"
    using regions by (auto simp: regions_ready_def region_ready_def list_all_length)
  then obtain rs os where rs: "\<And>i. i < n \<Longrightarrow> pk_mem_region (wm_packets wm ! i) = Some (rs i) \<and>
      chase_ready (rs i) (os i) \<and> mr_active_size (rs i) = sz \<and> 0 < unat (mr_line_size (rs i)) \<and>
      256 * unat (mr_line_size (rs i)) \<le> unat sz"
    by metis
  have st: "clock_reaches (rn_threads env i) (if last_ps > 0 then cf_target_duration_s config else 1) (K i)" if "i < n" for i
    using clocks that by (simp add: clocks_steady_def steady_clock_def)
  note sums = clocks_steady_sums [OF clocks] and range = mean_latency_range [OF clocks n(2), of last_ps sz]
  have hops: "lat_hops (?p i) (rs i) (K i) = hops_made last_ps sz (K i)" if "i < n" for i
    using rs [OF that] by (simp add: lat_hops_def hops_made_def idle_latency_packet_def)
  have ok: "lat_thread_ok (rn_threads env i) (?p i) (rs i) (os i) (K i)" if i: "i < n" for i
  proof -
    have c: "K i * 4194304256 < 2 ^ 64" "K i * 4194304000 < 2 ^ 64" using sums(1) [OF i] by simp_all
    note b = order_le_less_trans [OF hops_made_bounds(2) c(1), of last_ps sz]
      order_le_less_trans [OF hops_made_bounds(3) c(2), of last_ps sz]
    show ?thesis
      using rs [OF i] st [OF i] b
      by (simp add: lat_thread_ok_def clock_reaches_lat hops_made_def) (simp add: idle_latency_packet_def)
  qed
  have hsum: "(\<Sum>i < n. lat_hops (?p i) (rs i) (K i)) = (\<Sum>i < n. hops_made last_ps sz (K i))"
    using hops by (intro sum.cong) simp_all
  have mean: "of_int (\<Sum>i < n. lat_time (rn_threads env i) (K i)) / of_nat (\<Sum>i < n. lat_hops (?p i) (rs i) (K i)) =
      mean_latency env n K last_ps sz"
    unfolding hsum mean_latency_def ..
  have m0: "0 \<le> mean_latency env n K last_ps sz"
    unfolding mean_latency_def using sums(3) by (intro divide_nonneg_nonneg) (simp_all only: of_int_0_le_iff of_nat_0_le_iff)
  have "n + 4 \<le> 2 ^ 34" using unat_lt_32 [of "wm_num_threads wm"] n(1) by simp
  from mult_left_mono [OF roundings_small(1) [OF this], of "1000 * mean_latency env n K last_ps sz"] m0 range(3)
  have "1000 * mean_latency env n K last_ps sz * (1 + eps) ^ (n + 4) < 2 ^ 32" by simp
  then have small: "1000 * (of_int (\<Sum>i < n. lat_time (rn_threads env i) (K i)) /
      of_nat (\<Sum>i < n. lat_hops (?p i) (rs i) (K i))) * (1 + eps) ^ (n + 4) < 2 ^ 32"
    unfolding mean .
  have "\<exists>L wm' ps. measure_idle_latency env wm config last_ps =
      ret (if last_ps > 0 then [Number L] else [], wm', ps) \<and>
    near (n + 3) (mean_latency env n K last_ps sz) L \<and>
    (\<exists>x. near (n + 4) (1000 * mean_latency env n K last_ps sz) x \<and> int (unat ps) = \<lfloor>x\<rfloor>) \<and>
    manager_wf wm' \<and> wm_num_threads wm' = wm_num_threads wm \<and>
    map pk_mem_region (wm_packets wm') = map pk_mem_region (wm_packets wm)"
    using calls ok sums(2) range(1,2) small
    unfolding mean [symmetric] hsum [symmetric]
    unfolding n(1) run_succeeds_def
    by (intro measure_idle_latency_threads [OF wf, where rs = rs and os = os and K = K]) blast+
  then obtain L wm' ps where *: "measure_idle_latency env wm config last_ps =
      ret (if last_ps > 0 then [Number L] else [], wm', ps)"
    "near (n + 3) (mean_latency env n K last_ps sz) L"
    "\<exists>x. near (n + 4) (1000 * mean_latency env n K last_ps sz) x \<and> int (unat ps) = \<lfloor>x\<rfloor>"
    "manager_wf wm'" "wm_num_threads wm' = wm_num_threads wm"
    "map pk_mem_region (wm_packets wm') = map pk_mem_region (wm_packets wm)"
    by blast
  moreover from *(6) regions have "regions_ready sz wm'" by (simp add: regions_ready_def)
  ultimately show ?thesis by blast
qed

section \<open>Allocation\<close>

definition latency_sizes_ok :: "configuration \<Rightarrow> bool" where
  "latency_sizes_ok config \<longleftrightarrow>
     latency_sizes (unat (cf_region_size_kb config * 1024)) (unat (cf_chunk_size_kb config * 1024))
       (unat (cf_stride_size_b config)) \<and>
     256 * unat (cf_stride_size_b config) \<le> unat (cf_region_size_kb config * 1024)"

definition alloc_succeeds :: "run_env \<Rightarrow> nat \<Rightarrow> configuration \<Rightarrow> i32 \<Rightarrow> bool" where
  "alloc_succeeds env n config node \<longleftrightarrow>
     (\<forall>i < n. \<exists>r. MemRegion (te_alloc (rn_threads env i)) (cf_region_size_kb config * 1024)
        (cf_region_size_kb config * 1024) (ucast (cf_chunk_size_kb config * 1024))
        (ucast (cf_stride_size_b config)) (mem_type_of (1 + node))
        (hugepage_type_of (cf_use_hugepage config)) = Inr r)"

lemma alloc_lat_ready:
  assumes sizes: "latency_sizes_ok config"
    and r: "MemRegion (te_alloc te) (cf_region_size_kb config * 1024)
        (cf_region_size_kb config * 1024) (ucast (cf_chunk_size_kb config * 1024))
        (ucast (cf_stride_size_b config)) (mem_type_of (1 + node))
        (hugepage_type_of (cf_use_hugepage config)) = Inr r"
  shows "\<exists>q. mem_region_alloc_lat te ((copy_mem_region_config config p)\<lparr>pk_mem_type := 1 + node\<rparr>) = ret q \<and>
    region_ready (cf_region_size_kb config * 1024) (pk_mem_region q)"
proof -
  let ?p = "(copy_mem_region_config config p)\<lparr>pk_mem_type := 1 + node\<rparr>"
  note f = MemRegion_fields [OF r]
  have lr: "latency_region r"
    by (rule latency_region_MemRegion [OF r]) (use sizes in \<open>simp add: latency_sizes_ok_def\<close>)
  then obtain m os where m: "init_region te (pk_access_pattern ?p) r = ret (r\<lparr>mr_bytes := m\<rparr>)"
      "chase_ready (r\<lparr>mr_bytes := m\<rparr>) os"
    using init_region_ready by blast
  have "alloc_lat_region te ?p = Inr r"
    using r by (simp add: alloc_lat_region_def copy_mem_region_config_def)
  with m have "mem_region_alloc_lat te ?p = ret (?p\<lparr>pk_mem_region := Some (r\<lparr>mr_bytes := m\<rparr>)\<rparr>)"
    by (simp add: mem_region_alloc_lat_def)
  moreover have "region_ready (cf_region_size_kb config * 1024) (Some (r\<lparr>mr_bytes := m\<rparr>))"
    using m(2) f sizes latency_region_bounds(1) [OF lr]
    by (auto simp: region_ready_def latency_sizes_ok_def)
  ultimately show ?thesis by auto
qed

lemma setup_idle_latency_returns:
  assumes wf: "manager_wf wm" and n: "n = unat (wm_num_threads wm)" and calls: "run_succeeds env n"
    and sizes: "latency_sizes_ok config" and alloc: "alloc_succeeds env n config node"
  shows "\<exists>wm'. setup_memory_regions_idle_latency env wm config node = ret wm' \<and> manager_wf wm' \<and>
    wm_num_threads wm' = wm_num_threads wm \<and> regions_ready (cf_region_size_kb config * 1024) wm'"
proof -
  let ?wm = "prepare_mem_lat_bw_thread_packet wm config node"
  note m = map_packets_wf [OF wf, where f = "\<lambda>_ p. (copy_mem_region_config config p)\<lparr>pk_mem_type := 1 + node\<rparr>",
      folded prepare_mem_lat_bw_thread_packet_def]
  have "\<exists>q. routine Alloc_Lat (rn_threads env i) (wm_packets ?wm ! i) = ret q \<and>
      region_ready (cf_region_size_kb config * 1024) (pk_mem_region q)" if i: "i < n" for i
    using alloc i alloc_lat_ready [OF sizes] m(3) [of i] n by (fastforce simp: alloc_succeeds_def)
  from run_routine_returns [where P = "\<lambda>i q. region_ready (cf_region_size_kb config * 1024) (pk_mem_region q)",
      OF m(1) n [folded m(2)] calls this]
  obtain wm' where w: "run_routine env Alloc_Lat ?wm = ret wm'" "manager_wf wm'" "wm_num_threads wm' = wm_num_threads ?wm"
    "\<forall>i < n. region_ready (cf_region_size_kb config * 1024) (pk_mem_region (wm_packets wm' ! i))" by blast
  then have "regions_ready (cf_region_size_kb config * 1024) wm'"
    using n m(2) by (simp add: regions_ready_def list_all_length manager_wf_def)
  with w m(2) show ?thesis by (simp add: setup_memory_regions_idle_latency_def)
qed

section \<open>The whole program\<close>

lemma new_manager:
  assumes "WorkerThreadManager hw p0 n cpus b v = (shown, err, wm)"
  shows "manager_wf wm" and "wm_num_threads wm = n"
proof -
  have "wm = snd (snd (WorkerThreadManager hw p0 n cpus b v))" by (simp add: assms)
  then show "manager_wf wm" "wm_num_threads wm = n"
    using manager_wf_new by (blast, simp add: WorkerThreadManager_def Let_def)
qed

text \<open>The calibrating run, whose latency in picoseconds is cut to an integer, and the second one.\<close>

lemma run_idle_latency_returns:
  assumes wf: "manager_wf wm" and n: "n = unat (wm_num_threads wm)" "0 < n" and regions: "regions_ready sz wm"
    and calls: "run_succeeds (envs 1) n" "run_succeeds (envs 2) n"
    and clocks: "clocks_steady (envs 1) n 1 K1" "clocks_steady (envs 2) n (cf_target_duration_s config) K2"
    and slow: "2 \<le> 1000 * mean_latency (envs 1) n K1 0 sz"
  shows "\<exists>L ps. run_idle_latency envs wm config = ret [Number L] \<and>
    \<bar>of_nat (unat ps) - 1000 * mean_latency (envs 1) n K1 0 sz\<bar> \<le> 1000 * mean_latency (envs 1) n K1 0 sz / 2 ^ 18 + 1 \<and>
    \<bar>L - mean_latency (envs 2) n K2 ps sz\<bar> \<le> mean_latency (envs 2) n K2 ps sz / 2 ^ 18"
proof -
  let ?m = "1000 * mean_latency (envs 1) n K1 0 sz"
  have small: "n + 3 \<le> 2 ^ 34" "n + 4 \<le> 2 ^ 34" using unat_lt_32 [of "wm_num_threads wm"] n(1) by simp_all
  have c1: "clocks_steady (envs 1) n (if (0 :: u32) > 0 then cf_target_duration_s config else 1) K1"
    using clocks(1) by simp
  obtain L1 wm1 ps x where one: "measure_idle_latency (envs 1) wm config 0 = ret ([], wm1, ps)"
      "near (n + 4) ?m x" "int (unat ps) = \<lfloor>x\<rfloor>"
      "manager_wf wm1" "wm_num_threads wm1 = wm_num_threads wm" "regions_ready sz wm1"
    using measure_idle_latency_returns [OF wf n calls(1) regions c1] by auto
  note x = near_close [OF one(2) small(2)]
  have fl: "of_int \<lfloor>x\<rfloor> = (of_nat (unat ps) :: rat)" unfolding one(3) [symmetric] by (rule of_int_of_nat_eq)
  have p: "of_nat (unat ps) \<le> x" "x < of_nat (unat ps) + 1"
    using floor_correct [of x] unfolding of_int_add fl by simp_all
  have "1 \<le> x" using x(1) slow by simp
  then have "1 \<le> \<lfloor>x\<rfloor>" by (simp only: le_floor_iff of_int_1)
  then have "1 \<le> unat ps" using one(3) by linarith
  then have ps: "ps > 0" by (simp add: word_less_nat_alt)
  obtain L wm2 ps2 where two: "measure_idle_latency (envs 2) wm1 config ps = ret ([Number L], wm2, ps2)"
      "near (n + 3) (mean_latency (envs 2) n K2 ps sz) L"
    using measure_idle_latency_returns [OF one(4) n(1) [folded one(5)] n(2) calls(2) one(6), of ps config K2] clocks(2) ps
    by auto
  note L = near_close [OF two(2) small(1)]
  have "run_idle_latency envs wm config = ret [Number L]"
    using one(1) two(1) by (simp add: run_idle_latency_def)
  moreover have "\<bar>of_nat (unat ps) - ?m\<bar> \<le> ?m / 2 ^ 18 + 1"
    using x p slow unfolding abs_le_iff by (simp add: right_diff_distrib distrib_left)
  moreover have "0 \<le> mean_latency (envs 2) n K2 ps sz" using two(2) by (simp add: near_def)
  then have "\<bar>L - mean_latency (envs 2) n K2 ps sz\<bar> \<le> mean_latency (envs 2) n K2 ps sz / 2 ^ 18"
    using L unfolding abs_le_iff by (simp add: right_diff_distrib distrib_left)
  ultimately show ?thesis by blast
qed

text \<open>The measurement without a matrix, for a configuration in place.\<close>

lemma single_latency_returns:
  fixes envs :: "u32 \<Rightarrow> u32 \<Rightarrow> nat \<Rightarrow> run_env" and config :: configuration
  defines "n \<equiv> unat (cf_num_threads config)" and "sz \<equiv> cf_region_size_kb config * 1024"
  assumes mode: "\<not> cf_latency_matrix config" "cf_num_threads config \<noteq> 0"
    and sizes: "latency_sizes_ok config" and alloc: "alloc_succeeds (envs 0 0 0) n config (- 1)"
    and calls: "run_succeeds (envs 0 0 0) n" "run_succeeds (envs 0 0 1) n" "run_succeeds (envs 0 0 2) n"
    and clocks: "clocks_steady (envs 0 0 1) n 1 K1" "clocks_steady (envs 0 0 2) n (cf_target_duration_s config) K2"
    and slow: "2 \<le> 1000 * mean_latency (envs 0 0 1) n K1 0 sz"
  shows "\<exists>text L ps. setup_and_run_idle_latency envs hw config = ret [Text text,
      Text (''Idle Latency - '' @ get_str_access_pattern_short (cf_access_pattern config) @ '' : ''),
      Number L, Text '' ns'', endl, endl] \<and>
    \<bar>of_nat (unat ps) - 1000 * mean_latency (envs 0 0 1) n K1 0 sz\<bar>
      \<le> 1000 * mean_latency (envs 0 0 1) n K1 0 sz / 2 ^ 18 + 1 \<and>
    \<bar>L - mean_latency (envs 0 0 2) n K2 ps sz\<bar> \<le> mean_latency (envs 0 0 2) n K2 ps sz / 2 ^ 18"
proof -
  obtain shown err and wm :: mem_manager where wm: "WorkerThreadManager hw MemLatBwThreadPacket (cf_num_threads config)
      (all_allowed_cpus (cf_numa_config config)) (\<not> cf_no_binding config) (cf_verbose config) = (shown, err, wm)"
    by (metis prod_cases3)
  note new = new_manager [OF wm]
  have n: "n = unat (wm_num_threads wm)" "0 < n" using mode(2) new(2) by (simp_all add: n_def unat_gt_0)
  obtain wm1 where w1: "setup_memory_regions_idle_latency (envs 0 0 0) wm config (- 1) = ret wm1"
      "manager_wf wm1" "wm_num_threads wm1 = wm_num_threads wm" "regions_ready sz wm1"
    using setup_idle_latency_returns [OF new(1) n(1) calls(1) sizes alloc] unfolding sz_def by blast
  from run_idle_latency_returns [OF w1(2) n(1) [folded w1(3)] n(2) w1(4), of "envs 0 0"] calls clocks slow
  obtain L ps where "run_idle_latency (envs 0 0) wm1 config = ret [Number L]" and near:
    "\<bar>of_nat (unat ps) - 1000 * mean_latency (envs 0 0 1) n K1 0 sz\<bar>
      \<le> 1000 * mean_latency (envs 0 0 1) n K1 0 sz / 2 ^ 18 + 1"
    "\<bar>L - mean_latency (envs 0 0 2) n K2 ps sz\<bar> \<le> mean_latency (envs 0 0 2) n K2 ps sz / 2 ^ 18"
    by blast
  then have "setup_and_run_idle_latency envs hw config = ret [Text shown,
      Text (''Idle Latency - '' @ get_str_access_pattern_short (cf_access_pattern config) @ '' : ''),
      Number L, Text '' ns'', endl, endl]"
    using w1(1) wm mode by (simp add: setup_and_run_idle_latency_def)
  with near show ?thesis by blast
qed

text \<open>
  C1. The idle-latency program, end to end. Given arguments that the parser accepts, sizes in
  range, allocations and thread calls that succeed, and clocks that reach their targets, the
  program ends with status 0 and prints one latency. It is the time the threads have taken
  in the second run over the pointer hops they have made in it, to within one part in
  \<open>2 ^ 18\<close>; the hops follow from the distance of the checkpoints, which is set by the latency
  \<open>ps\<close> in picoseconds that the first run of one second measures.
\<close>

theorem idle_latency_program:
  fixes envs :: "u32 \<Rightarrow> u32 \<Rightarrow> nat \<Rightarrow> run_env" and config :: configuration
  defines "n \<equiv> unat (cf_num_threads config)" and "sz \<equiv> cf_region_size_kb config * 1024"
  assumes parsed: "parse_options (Configuration nc LATENCY) args = Inr config"
    and mode: "\<not> cf_latency_matrix config" "cf_num_threads config \<noteq> 0"
    and sizes: "latency_sizes_ok config" and alloc: "alloc_succeeds (envs 0 0 0) n config (- 1)"
    and calls: "run_succeeds (envs 0 0 0) n" "run_succeeds (envs 0 0 1) n" "run_succeeds (envs 0 0 2) n"
    and clocks: "clocks_steady (envs 0 0 1) n 1 K1" "clocks_steady (envs 0 0 2) n (cf_target_duration_s config) K2"
    and slow: "2 \<le> 1000 * mean_latency (envs 0 0 1) n K1 0 sz"
  shows "\<exists>text L ps. main_idle_latency envs hw nc args = ret (0, [Text (cf_dump config), Text text,
      Text (''Idle Latency - '' @ get_str_access_pattern_short (cf_access_pattern config) @ '' : ''),
      Number L, Text '' ns'', endl, endl]) \<and>
    \<bar>of_nat (unat ps) - 1000 * mean_latency (envs 0 0 1) n K1 0 sz\<bar>
      \<le> 1000 * mean_latency (envs 0 0 1) n K1 0 sz / 2 ^ 18 + 1 \<and>
    \<bar>L - mean_latency (envs 0 0 2) n K2 ps sz\<bar> \<le> mean_latency (envs 0 0 2) n K2 ps sz / 2 ^ 18"
  using single_latency_returns [where envs = envs and hw = hw, OF mode sizes alloc [unfolded n_def] calls [unfolded n_def] clocks [unfolded n_def]
      slow [unfolded n_def sz_def]] parsed
  unfolding n_def sz_def by (auto simp: main_idle_latency_def)

lemma example_clocks:
  assumes "uint secs = int k" and "1 \<le> k" and "k \<le> 2 ^ 20"
  shows "clocks_steady example_run_env 1 secs (\<lambda>_. k)"
  using assms
  by (simp add: clocks_steady_def steady_clock_def clock_reaches_def lat_time_def example_run_env_def example_thread_env_def)

text \<open>The example machine meets all conditions, with one thread and the default options.\<close>

lemma example_slow: "2 \<le> 1000 * mean_latency example_run_env 1 (\<lambda>_. 1) 0 536870912"
proof -
  have chk: "unat (chkpt_chases 0 536870912) = 32768" by (simp add: chkpt_chases_def push_bit_eq_mult)
  have "nth_check 256 32768 1 = 129" by (simp add: numeral_eq_Suc [of "num.One"])
  then have hops: "hops_made 0 536870912 1 = 33024" by (simp only: hops_made_def chk)
  show ?thesis
    by (simp add: mean_latency_def lat_time_def example_run_env_def example_thread_env_def hops [simplified])
qed

lemma example_latency:
  defines "config \<equiv> default_configuration example_machine LATENCY"
  shows "parse_options (Configuration example_machine LATENCY) [] = Inr config"
    and "\<not> cf_latency_matrix config" and "cf_num_threads config = 1" and "latency_sizes_ok config"
    and "alloc_succeeds example_run_env 1 config (- 1)" and "run_succeeds example_run_env 1"
    and "clocks_steady example_run_env 1 1 (\<lambda>_. 1)"
    and "clocks_steady example_run_env 1 (cf_target_duration_s config) (\<lambda>_. 10)"
    and "2 \<le> 1000 * mean_latency example_run_env 1 (\<lambda>_. 1) 0 (cf_region_size_kb config * 1024)"
proof -
  have cf: "cf_num_threads config = 1" "cf_region_size_kb config = 524288" "cf_chunk_size_kb config = 128"
    "cf_stride_size_b config = 128" "cf_target_duration_s config = 10" "cf_use_hugepage config = 0"
    "\<not> cf_latency_matrix config"
    by (simp_all add: config_def default_configuration_def)
  show "parse_options (Configuration example_machine LATENCY) [] = Inr config"
    by (simp add: parse_options_def cl_parse_def configuration_default default_configuration_def auto_correct_def config_def)
  show "\<not> cf_latency_matrix config" "cf_num_threads config = 1" by (simp_all add: cf)
  show "latency_sizes_ok config" by (simp add: latency_sizes_ok_def latency_sizes_def cf)
  obtain r where "MemRegion small_env 536870912 536870912 131072 128 NATIVE NONE = Inr r"
    using small_region [of 536870912 131072 128] by auto
  then show "alloc_succeeds example_run_env 1 config (- 1)"
    by (simp add: alloc_succeeds_def cf example_run_env_def example_thread_env_def mem_type_of_def hugepage_type_of_def)
  show "run_succeeds example_run_env 1" by (simp add: run_succeeds_def example_run_env_def)
  show "clocks_steady example_run_env 1 1 (\<lambda>_. 1)" by (rule example_clocks) simp_all
  show "clocks_steady example_run_env 1 (cf_target_duration_s config) (\<lambda>_. 10)"
    by (rule example_clocks) (simp_all add: cf)
  show "2 \<le> 1000 * mean_latency example_run_env 1 (\<lambda>_. 1) 0 (cf_region_size_kb config * 1024)"
    using example_slow by (simp add: cf)
qed

lemma example_latency_returns: "\<exists>out. main_idle_latency (\<lambda>_ _ _. example_run_env) 4 example_machine [] = ret (0, out)"
proof -
  note ex = example_latency
  have n: "unat (cf_num_threads (default_configuration example_machine LATENCY)) = 1" by (simp add: ex(3))
  show ?thesis
    using single_latency_returns [of "default_configuration example_machine LATENCY" "\<lambda>_ _ _. example_run_env", unfolded n,
        OF ex(2) _ ex(4,5,6,6,6,7,8,9), of 4] ex(1,3)
    by (auto simp: main_idle_latency_def)
qed

lemma idle_latency_program_witness:
  "\<exists>out L. main_idle_latency (\<lambda>_ _ _. example_run_env) 4 example_machine [] = ret (0, out) \<and> Number L \<in> set out"
proof -
  note ex = example_latency
  have n: "unat (cf_num_threads (default_configuration example_machine LATENCY)) = 1" by (simp add: ex(3))
  show ?thesis
    using idle_latency_program [where envs = "\<lambda>_ _ _. example_run_env" and hw = 4, OF ex(1,2) _ ex(4), unfolded n,
        OF _ ex(5,6,6,6,7,8,9)] ex(3) by fastforce
qed

end
