(* ===== verification/Branch_Run.thy ===== *)
theory Branch_Run
  imports Idle_Latency_Run
begin

text \<open>
  The branch program from its arguments to its output: one row for every case and thread, the
  maxima over the cases for every thread, and one warning if any count of cycles is missing.
\<close>

section \<open>What a thread reports\<close>

type_synonym branch_result = "u64 \<times> rat \<times> rat \<times> string"

text \<open>The branches it has taken by its reading \<open>K\<close>, the time, and what its counter says.\<close>

definition measured :: "(u32 \<Rightarrow> branch_run_env) \<Rightarrow> (u32 \<Rightarrow> nat \<Rightarrow> nat) \<Rightarrow> u32 \<Rightarrow> nat \<Rightarrow> branch_result" where
  "measured envs K index i =
     (let env = bn_threads (envs index) i
      in (branches_of index (K index i), elapsed_secs (be_clock env (K index i) - be_clock env 0),
          fst (use_counter (be_perf env)), snd (use_counter (be_perf env))))"

type_synonym branch_sample = "u32 \<times> nat \<times> branch_result"

definition samples :: "(u32 \<Rightarrow> branch_run_env) \<Rightarrow> (u32 \<Rightarrow> nat \<Rightarrow> nat) \<Rightarrow> nat \<Rightarrow> u32 list \<Rightarrow> branch_sample list" where
  "samples envs K n indices =
     concat (map (\<lambda>index. map (\<lambda>i. (index, i, measured envs K index i)) [0..<n]) indices)"

fun take_sample :: "branch_sample \<Rightarrow> event list \<times> branch_peaks \<Rightarrow> event list \<times> branch_peaks" where
  "take_sample (index, tid, branches, time, cycles, err) =
     branch_row index (branch_cases ! unat index) tid
       (BrPredThreadPacket\<lparr>br_finished_branches := branches, pk_exec_time := time, br_cycles := cycles,
          br_counter_error := err\<rparr>)"

lemma branch_row_cong:
  assumes "br_finished_branches p = br_finished_branches q" and "pk_exec_time p = pk_exec_time q"
    and "br_cycles p = br_cycles q" and "br_counter_error p = br_counter_error q"
  shows "branch_row index c tid p = branch_row index c tid q"
  unfolding branch_row_def assms ..

section \<open>Running the cases\<close>

definition branch_ready :: "branch_manager \<Rightarrow> bool" where
  "branch_ready wm \<longleftrightarrow>
     manager_wf wm \<and> wm_start_routines wm = replicate (unat (wm_num_threads wm)) (Some ())"

definition branch_calls_succeed :: "branch_run_env \<Rightarrow> nat \<Rightarrow> bool" where
  "branch_calls_succeed env n \<longleftrightarrow> (\<forall>i < n. je_create (bn_join env) i = 0 \<and> je_join (bn_join env) i = 0)"

definition samples_reached :: "branch_run_env \<Rightarrow> nat \<Rightarrow> rat \<Rightarrow> (nat \<Rightarrow> nat) \<Rightarrow> bool" where
  "samples_reached env n d K \<longleftrightarrow> (\<forall>i < n. sample_reached_at (be_clock (bn_threads env i)) d (K i))"

text \<open>
  A case of the table is measured by every thread: running it returns, each thread's row being
  that of the branches it has taken, its time and the report of its counter.
\<close>

lemma branch_case_returns:
  assumes valid: "unat index < length branch_cases" and ready: "branch_ready wm"
    and n: "n = unat (wm_num_threads wm)" and calls: "branch_calls_succeed (envs index) n"
    and clocks: "samples_reached (envs index) n d (K index)"
  shows "\<exists>wm'. branch_case_run envs d index (wm, state) =
      ret (wm', fold take_sample (samples envs K n [index]) state) \<and>
    branch_ready wm' \<and> wm_num_threads wm' = wm_num_threads wm"
proof -
  let ?env = "bn_threads (envs index)"
  let ?p = "\<lambda>i. (wm_packets wm ! i)\<lparr>br_case_index := index, br_sample_duration := d\<rparr>"
  let ?q = "\<lambda>i. (?p i)\<lparr>br_finished_branches := branches_of index (K index i),
        pk_exec_time := elapsed_secs (be_clock (?env i) (K index i) - be_clock (?env i) 0),
        br_cycles := fst (use_counter (be_perf (?env i))),
        br_counter_error := snd (use_counter (be_perf (?env i)))\<rparr>"
  let ?wm = "wm\<lparr>wm_packets := map (\<lambda>p. p\<lparr>br_case_index := index, br_sample_duration := d\<rparr>) (wm_packets wm)\<rparr>"
  let ?wm' = "?wm\<lparr>wm_created := map (\<lambda>i. wm_start_routines ?wm ! i \<noteq> None) [0..<unat (wm_num_threads ?wm)],
      wm_packets := map ?q [0..<n]\<rparr>"
  have wf: "manager_wf wm" and started: "wm_start_routines wm = replicate n (Some ())"
    using ready n by (simp_all add: branch_ready_def)
  have len: "length (wm_packets wm) = n" using wf n by (simp add: manager_wf_def)
  have one: "andthen (branch_tp (?env i) idle_machine (?p i)) (\<lambda>(m, p'). ret p') = ret (?q i)" if "i < n" for i
  proof -
    have "unat (br_case_index (?p i)) < length branch_cases" using valid by simp
    moreover have "sample_reached_at (be_clock (?env i)) (br_sample_duration (?p i)) (K index i)"
      using clocks that by (simp add: samples_reached_def)
    ultimately show ?thesis
      using branch_tp_returns [of "?p i" "?env i" "K index i" idle_machine] by (auto simp: branches_of_def)
  qed
  have run: "run_branch_workers (envs index) ?wm = ret ?wm'"
    unfolding run_branch_workers_def
  proof (rule run_threads_eq_ret)
    fix i assume "i < unat (wm_num_threads ?wm)"
    then have i: "i < n" by (simp add: n)
    then show "je_create (bn_join (envs index)) i = 0" "je_join (bn_join (envs index)) i = 0"
      using calls by (simp_all add: branch_calls_succeed_def)
    show "case wm_start_routines ?wm ! i of
        None \<Rightarrow> map ?q [0..<n] ! i = wm_packets ?wm ! i
      | Some r \<Rightarrow> andthen (branch_tp (?env i) idle_machine (wm_packets ?wm ! i)) (\<lambda>(m, p'). ret p') =
          ret (map ?q [0..<n] ! i)"
      using i len one [OF i] started by simp
  qed (simp add: n)
  have rows: "(\<lambda>(tid, p). branch_row index (branch_cases ! unat index) tid p) (i, ?q i) =
      take_sample (index, i, measured envs K index i)" for i
  proof -
    obtain cycles err where "use_counter (be_perf (?env i)) = (cycles, err)" by fastforce
    then show ?thesis by (simp add: measured_def Let_def) (rule branch_row_cong; simp)
  qed
  have "fold (\<lambda>(tid, p). branch_row index (branch_cases ! unat index) tid p) (enumerate 0 (wm_packets ?wm')) =
      fold take_sample (samples envs K n [index])"
    by (simp add: samples_def enumerate_map_upt fold_map comp_def rows [simplified])
  then have "branch_case_run envs d index (wm, state) =
      ret (?wm', fold take_sample (samples envs K n [index]) state)"
    using run by (cases state) (simp add: branch_case_run_def)
  moreover have "branch_ready ?wm'" using wf started n by (simp add: branch_ready_def manager_wf_def)
  ultimately show ?thesis by (intro exI [of _ ?wm']) simp
qed

lemma branch_sweep_returns:
  assumes "\<forall>index \<in> set indices. unat index < length branch_cases" and "branch_ready wm"
    and "n = unat (wm_num_threads wm)"
    and "\<forall>index \<in> set indices. branch_calls_succeed (envs index) n \<and> samples_reached (envs index) n d (K index)"
  shows "\<exists>wm'. for_each (branch_case_run envs d) indices (wm, state) =
    ret (wm', fold take_sample (samples envs K n indices) state)"
  using assms
proof (induction indices arbitrary: wm state)
  case Nil
  then show ?case by (simp add: samples_def)
next
  case (Cons index indices)
  obtain wm1 where one: "branch_case_run envs d index (wm, state) =
      ret (wm1, fold take_sample (samples envs K n [index]) state)"
    "branch_ready wm1" "wm_num_threads wm1 = wm_num_threads wm"
    using branch_case_returns [of index wm n envs d K state] Cons.prems by auto
  obtain wm' where "for_each (branch_case_run envs d) indices (wm1, fold take_sample (samples envs K n [index]) state) =
      ret (wm', fold take_sample (samples envs K n indices) (fold take_sample (samples envs K n [index]) state))"
    using Cons.IH [of wm1 "fold take_sample (samples envs K n [index]) state"] Cons.prems one(2,3) by auto
  with one(1) show ?case by (simp add: samples_def)
qed

section \<open>What the rows say\<close>

fun branch_rate :: "branch_result \<Rightarrow> rat" where
  "branch_rate (branches, time, cycles, err) = double (double (u64_double branches / time) / 10 ^ 9)"

fun branches_per_cycle :: "branch_result \<Rightarrow> rat" where
  "branches_per_cycle (branches, time, cycles, err) = double (u64_double branches / cycles)"

fun counted :: "branch_result \<Rightarrow> bool" where
  "counted (branches, time, cycles, err) \<longleftrightarrow> 0 < cycles"

fun counter_failure :: "branch_result \<Rightarrow> event" where
  "counter_failure (branches, time, cycles, err) = Warning (''Cycles unavailable: '' @ err @ ''.'' @ newline)"

fun sample_row :: "branch_sample \<Rightarrow> event list" where
  "sample_row (index, tid, res) =
     (let c = branch_cases ! unat index
      in [Number (of_nat (unat index) + 1), Number (of_nat tid),
          Text (if bc_conditional c then ''conditional'' else ''unconditional''),
          Number (of_nat (unat (bc_branches c))), Number (of_nat (unat (bc_spacing c))), Number (branch_rate res)] @
         (if counted res
          then [Number (branches_per_cycle res), Number (double (1 / branches_per_cycle res)), endl]
          else [Text ''n/a'', Text ''n/a'', endl]))"

fun is_warning :: "event \<Rightarrow> bool" where
  "is_warning (Warning w) \<longleftrightarrow> True"
| "is_warning (Text t) \<longleftrightarrow> False"
| "is_warning (Number x) \<longleftrightarrow> False"

definition printed :: "event list \<Rightarrow> event list" where
  "printed out = filter (\<lambda>e. \<not> is_warning e) out"

definition warned :: "event list \<Rightarrow> event list" where
  "warned out = filter is_warning out"

lemma printed_append [simp]: "printed (xs @ ys) = printed xs @ printed ys"
  and warned_append [simp]: "warned (xs @ ys) = warned xs @ warned ys"
  by (simp_all add: printed_def warned_def)

lemma printed_cons [simp]:
  "printed [] = []" "printed (Text t # xs) = Text t # printed xs" "printed (Number x # xs) = Number x # printed xs"
  "printed (Warning w # xs) = printed xs" "printed (endl # xs) = endl # printed xs"
  by (simp_all add: printed_def endl_def)

lemma warned_cons [simp]:
  "warned [] = []" "warned (Text t # xs) = warned xs" "warned (Number x # xs) = warned xs"
  "warned (Warning w # xs) = Warning w # warned xs" "warned (endl # xs) = warned xs"
  by (simp_all add: warned_def endl_def)

lemma take_sample_effect:
  "printed (fst (take_sample (index, tid, res) (out, pk))) = printed out @ sample_row (index, tid, res)"
  "warned (fst (take_sample (index, tid, res) (out, pk))) =
     warned out @ (if counted res \<or> counter_warning pk then [] else [counter_failure res])"
  "snd (take_sample (index, tid, res) (out, pk)) =
     pk\<lparr>peak_rate := (peak_rate pk)[tid := max (peak_rate pk ! tid) (branch_rate res)],
        peak_per_cycle := (if counted res
          then (peak_per_cycle pk)[tid := max (peak_per_cycle pk ! tid) (branches_per_cycle res)] else peak_per_cycle pk),
        counter_warning := counter_warning pk \<or> \<not> counted res\<rparr>"
  by (cases res; simp add: branch_row_def Let_def)+

section \<open>The maxima and the warning\<close>

lemma fold_printed: "printed (fst (fold take_sample xs (out, pk))) = printed out @ concat (map sample_row xs)"
proof (induction xs arbitrary: out pk)
  case (Cons x xs)
  obtain index tid res where x: "x = (index, tid, res)" by (cases x) auto
  obtain out' pk' where s: "take_sample x (out, pk) = (out', pk')" by fastforce
  have "printed out' = printed out @ sample_row x" using take_sample_effect(1) [of index tid res out pk] s x by simp
  with Cons.IH [of out' pk'] s show ?case by simp
qed simp

lemma fold_warned:
  "warned (fst (fold take_sample xs (out, pk))) = warned out @
     (if counter_warning pk then []
      else map counter_failure (take 1 (filter (\<lambda>res. \<not> counted res) (map (snd \<circ> snd) xs))))"
proof (induction xs arbitrary: out pk)
  case (Cons x xs)
  obtain index tid res where x: "x = (index, tid, res)" by (cases x) auto
  obtain out' pk' where s: "take_sample x (out, pk) = (out', pk')" by fastforce
  have "warned out' = warned out @ (if counted res \<or> counter_warning pk then [] else [counter_failure res])"
    "counter_warning pk' \<longleftrightarrow> counter_warning pk \<or> \<not> counted res"
    using take_sample_effect(2,3) [of index tid res out pk] s x by simp_all
  with Cons.IH [of out' pk'] s x show ?case by simp
qed simp

lemma fold_lengths:
  "length (peak_rate (snd (fold take_sample xs (out, pk)))) = length (peak_rate pk) \<and>
   length (peak_per_cycle (snd (fold take_sample xs (out, pk)))) = length (peak_per_cycle pk)"
proof (induction xs arbitrary: out pk)
  case (Cons x xs)
  obtain index tid res where x: "x = (index, tid, res)" by (cases x) auto
  obtain out' pk' where s: "take_sample x (out, pk) = (out', pk')" by fastforce
  show ?case using Cons.IH [of out' pk'] take_sample_effect(3) [of index tid res out pk] s x by simp
qed simp

text \<open>The results of one thread, in order.\<close>

definition of_thread :: "nat \<Rightarrow> branch_sample list \<Rightarrow> branch_result list" where
  "of_thread t xs = map (snd \<circ> snd) (filter (\<lambda>x. fst (snd x) = t) xs)"

lemma of_thread_simps [simp]:
  "of_thread t [] = []"
  "of_thread t ((index, tid, res) # xs) = (if tid = t then res # of_thread t xs else of_thread t xs)"
  by (simp_all add: of_thread_def)

lemma fold_peak_rate:
  assumes "t < length (peak_rate pk)"
  shows "peak_rate (snd (fold take_sample xs (out, pk))) ! t =
    fold max (map branch_rate (of_thread t xs)) (peak_rate pk ! t)"
  using assms
proof (induction xs arbitrary: out pk)
  case (Cons x xs)
  obtain index tid res where x: "x = (index, tid, res)" by (cases x) auto
  obtain out' pk' where s: "take_sample x (out, pk) = (out', pk')" by fastforce
  have pk': "peak_rate pk' = (peak_rate pk)[tid := max (peak_rate pk ! tid) (branch_rate res)]"
    using take_sample_effect(3) [of index tid res out pk] s x by simp
  have "peak_rate (snd (fold take_sample (x # xs) (out, pk))) ! t =
      fold max (map branch_rate (of_thread t xs)) (peak_rate pk' ! t)"
    using Cons.IH [of pk' out'] Cons.prems pk' s by simp
  then show ?case using pk' Cons.prems by (simp add: x max.commute)
qed simp

lemma fold_peak_per_cycle:
  assumes "t < length (peak_per_cycle pk)"
  shows "peak_per_cycle (snd (fold take_sample xs (out, pk))) ! t =
    fold max (map branches_per_cycle (filter counted (of_thread t xs))) (peak_per_cycle pk ! t)"
  using assms
proof (induction xs arbitrary: out pk)
  case (Cons x xs)
  obtain index tid res where x: "x = (index, tid, res)" by (cases x) auto
  obtain out' pk' where s: "take_sample x (out, pk) = (out', pk')" by fastforce
  have pk': "peak_per_cycle pk' = (if counted res
      then (peak_per_cycle pk)[tid := max (peak_per_cycle pk ! tid) (branches_per_cycle res)] else peak_per_cycle pk)"
    using take_sample_effect(3) [of index tid res out pk] s x by simp
  have "peak_per_cycle (snd (fold take_sample (x # xs) (out, pk))) ! t =
      fold max (map branches_per_cycle (filter counted (of_thread t xs))) (peak_per_cycle pk' ! t)"
    using Cons.IH [of pk' out'] Cons.prems pk' s by simp
  then show ?case using pk' Cons.prems by (simp add: x max.commute)
qed simp

lemma of_thread_samples:
  assumes "t < n"
  shows "of_thread t (samples envs K n indices) = map (\<lambda>index. measured envs K index t) indices"
proof -
  have "filter (\<lambda>i. i = t) [0..<n] = [t]" if "t < n" for t n
    using that by (induction n) (auto simp: less_Suc_eq)
  with assms show ?thesis
    by (induction indices) (simp_all add: samples_def of_thread_def filter_map comp_def)
qed

section \<open>The whole program\<close>

definition branch_heading :: string where
  "branch_heading = ''Predictable taken branches; duration split across cases; rates per worker.'' @ newline @
     ''case thread type          chain spacing   GBr/s   Br/cycle cycles/Br'' @ newline"

lemma best_rows_printed:
  "printed (concat (map (best_row pk) ts)) = concat (map (best_row pk) ts)"
  "warned (concat (map (best_row pk) ts)) = []"
  by (induction ts) (simp_all add: best_row_def)

lemma fold_max: "fold max xs a = Max (insert a (set xs))" for a :: rat
  using Max.set_eq_fold [of a xs] by simp

text \<open>
  C5. The branch program, end to end. Given arguments that it accepts, thread calls that
  succeed, and clocks that reach the sample duration, it ends with status 0. It prints a row
  for every case and thread, with the rate of the branches taken and, where the counter
  worked, the branches per cycle; then for every thread the maxima over its cases. It warns
  of a missing cycle count at most once, with the error of the first sample without one.
\<close>

theorem branch_throughput_program:
  fixes envs :: "u32 \<Rightarrow> branch_run_env" and config :: configuration
  defines "n \<equiv> unat (cf_num_threads config)" and "cases \<equiv> branch_case_range config"
  assumes parsed: "parse_options (Configuration nc BRANCH_THROUGHPUT) args = Inr config"
    and accepted: "branch_arguments_ok config"
    and calls: "\<forall>index \<in> set cases. branch_calls_succeed (envs index) n"
    and clocks: "\<forall>index \<in> set cases. samples_reached (envs index) n (branch_duration config) (K index)"
  shows "\<exists>text out best. main_branch_throughput envs hw nc args = ret (0, out) \<and>
    printed out = [Text (cf_dump config), Text text, Text branch_heading] @
      concat (map sample_row (samples envs K n cases)) @ concat (map (best_row best) [0..<n]) \<and>
    warned out = map counter_failure
      (take 1 (filter (\<lambda>res. \<not> counted res) (map (snd \<circ> snd) (samples envs K n cases)))) \<and>
    (\<forall>t < n. let results = map (\<lambda>index. measured envs K index t) cases in
       peak_rate best ! t = Max (insert 0 (branch_rate ` set results)) \<and>
       peak_per_cycle best ! t = Max (insert 0 (branches_per_cycle ` set (filter counted results))))"
proof -
  obtain shown err and wm :: branch_manager where wm: "WorkerThreadManager hw BrPredThreadPacket (cf_num_threads config)
      (all_allowed_cpus (cf_numa_config config)) (\<not> cf_no_binding config) (cf_verbose config) = (shown, err, wm)"
    by (metis prod_cases3)
  note new = new_manager [OF wm]
  let ?wm = "setRoutine (Some ()) wm"
  let ?pk = "\<lparr>peak_rate = replicate n 0, peak_per_cycle = replicate n 0, counter_warning = False\<rparr>"
  let ?head = "[Text (cf_dump config), Text shown, Text branch_heading]" and ?xs = "samples envs K n cases"
  have ready: "branch_ready ?wm" "n = unat (wm_num_threads ?wm)"
    using new by (simp_all add: branch_ready_def setRoutine_def manager_wf_def n_def)
  have valid: "\<forall>index \<in> set cases. unat index < length branch_cases"
    using branch_range_valid(1) [OF accepted] by (simp add: cases_def)
  obtain wm' where run: "for_each (branch_case_run envs (branch_duration config)) cases (?wm, ?head, ?pk) =
      ret (wm', fold take_sample ?xs (?head, ?pk))"
    using branch_sweep_returns [OF valid ready, of envs "branch_duration config" K "(?head, ?pk)"] calls clocks by auto
  obtain out best where fold: "fold take_sample ?xs (?head, ?pk) = (out, best)" by fastforce
  have main: "main_branch_throughput envs hw nc args = ret (0, out @ concat (map (best_row best) [0..<n]))"
    using parsed accepted wm run fold
    by (simp add: main_branch_throughput_def Let_def cases_def n_def branch_heading_def)
  have peaks: "peak_rate best ! t = fold max (map branch_rate (of_thread t ?xs)) 0"
    "peak_per_cycle best ! t = fold max (map branches_per_cycle (filter counted (of_thread t ?xs))) 0" if "t < n" for t
    using fold_peak_rate [of t ?pk ?xs ?head] fold_peak_per_cycle [of t ?pk ?xs ?head] that fold by simp_all
  have "printed out = ?head @ concat (map sample_row ?xs)"
    "warned out = map counter_failure (take 1 (filter (\<lambda>res. \<not> counted res) (map (snd \<circ> snd) ?xs)))"
    using fold_printed [of ?xs ?head ?pk] fold_warned [of ?xs ?head ?pk] fold by simp_all
  with main peaks show ?thesis
    by (intro exI [of _ shown] exI [of _ "out @ concat (map (best_row best) [0..<n])"] exI [of _ best])
       (simp add: best_rows_printed of_thread_samples fold_max Let_def image_image)
qed

lemma branch_throughput_program_witness:
  "\<exists>out. main_branch_throughput (\<lambda>_. \<lparr>bn_threads = (\<lambda>_. example_br_env), bn_join = rn_join example_run_env\<rparr>)
      4 example_machine [] = ret (0, out) \<and> warned out = [Warning (''Cycles unavailable: denied.'' @ newline)]"
proof -
  define config where "config = default_configuration example_machine BRANCH_THROUGHPUT"
  let ?envs = "\<lambda>_ :: u32. \<lparr>bn_threads = (\<lambda>_. example_br_env), bn_join = rn_join example_run_env\<rparr>"
  let ?cases = "branch_case_range config" and ?K = "\<lambda>_ _. 1 :: nat"
  have p: "parse_options (Configuration example_machine BRANCH_THROUGHPUT) [] = Inr config"
    by (simp add: parse_options_def cl_parse_def configuration_default default_configuration_def auto_correct_def config_def)
  have cf: "cf_num_threads config = 1" "cf_target_duration_s config = 10" "cf_branch_case config = 0"
    by (simp_all add: config_def default_configuration_def)
  have ok: "branch_arguments_ok config" by (simp add: branch_arguments_ok_def cf)
  have cases: "?cases = map of_nat [0..<12]"
    by (simp add: branch_case_range_def cf branch_case_count_def branch_cases_def)
  have "branch_duration config \<le> 1"
    using abs_le_D1 [OF rnd_error [of 53 "5 / 6"]]
    by (simp add: branch_duration_def cases cf power_int_minus)
  then have reached: "\<forall>i \<in> set ?cases. samples_reached (?envs i) (unat (cf_num_threads config)) (branch_duration config) (?K i)"
    using example_samples(1) by (simp add: samples_reached_def sample_reached_at_def)
  have calls: "\<forall>i \<in> set ?cases. branch_calls_succeed (?envs i) (unat (cf_num_threads config))"
    by (simp add: branch_calls_succeed_def example_run_env_def)
  have "use_counter (be_perf example_br_env) = (0, ''denied'')"
    by (simp add: use_counter_def example_br_env_def cc_start_def CycleCounter_def)
  then have "\<not> counted (measured ?envs ?K i 0)" "counter_failure (measured ?envs ?K i 0) =
      Warning (''Cycles unavailable: denied.'' @ newline)" for i
    by (simp_all add: measured_def)
  moreover have "samples ?envs ?K 1 ?cases = map (\<lambda>i. (i, 0, measured ?envs ?K i 0)) ?cases"
    by (simp add: samples_def)
  ultimately have "map counter_failure
      (take 1 (filter (\<lambda>res. \<not> counted res) (map (snd \<circ> snd) (samples ?envs ?K 1 ?cases)))) =
      [Warning (''Cycles unavailable: denied.'' @ newline)]"
    by (simp add: comp_def cases upt_rec)
  then show ?thesis
    using branch_throughput_program [where envs = ?envs and K = ?K and hw = 4, OF p ok calls reached] cf by auto
qed

end
