(* ===== verification/Bandwidth_Run.thy ===== *)
theory Bandwidth_Run
  imports Idle_Latency_Run
begin

text \<open>
  The peak-bandwidth program from its arguments to its output: one row for each mix, each
  within \<open>2 ^ -12\<close> of the bytes the kernels have moved over the time they took.
\<close>

section \<open>The work of a thread\<close>

text \<open>The provisioned bandwidth of a thread in MB/s, from the last total or from the CPUs.\<close>

definition core_mbps :: "u32 \<Rightarrow> u32 \<Rightarrow> u32 \<Rightarrow> u64" where
  "core_mbps ref_gbps cpus num =
     ucast (if ref_gbps > 0 then ref_gbps * 1024 div num else 2 * 1024 * cpus div num)"

definition bytes_streamed :: "u64 \<Rightarrow> nat \<Rightarrow> nat" where
  "bytes_streamed mbps K = 8192 * nth_check 8192 (unat (chkpt_bytes mbps)) K"

lemma unat_numeral_64: "unat (1000 :: u64) = 1000"
  by simp

lemma core_mbps_bound: "unat num * unat (core_mbps ref_gbps cpus num) < 2 ^ 32"
proof -
  have "unat num * unat (ucast (x div num) :: u64) < 2 ^ 32" for x :: u32
  proof -
    have "unat num * (unat x div unat num) \<le> unat x" by simp
    also have "\<dots> < 2 ^ 32" using unat_lt_32 [of x] by simp
    finally show ?thesis by (simp only: unat_ucast_32_64 unat_div)
  qed
  then show ?thesis by (simp add: core_mbps_def)
qed

lemma chkpt_bytes_bound:
  assumes "unat mbps < 2 ^ 32"
  shows "unat (chkpt_bytes mbps) \<le> 4195 * unat mbps"
proof -
  have "unat (mbps * 4194304) = unat mbps * 4194304" using assms by (subst unat_mult_64) simp_all
  moreover have "mbps * 1024 * 1024 * 4 = mbps * 4194304" by (simp add: mult.assoc)
  ultimately have "unat (chkpt_bytes mbps) = unat mbps * 4194304 div 1000"
    unfolding chkpt_bytes_def unat_div by (simp only: unat_numeral_64)
  then show ?thesis by simp
qed

lemma bytes_streamed_bounds:
  assumes m: "n * unat mbps < 2 ^ 32" and n: "0 < n" "n < 2 ^ 32" and K: "1 \<le> K" "K \<le> 2 ^ 12"
  shows "8192 \<le> bytes_streamed mbps K" and "n * bytes_streamed mbps K \<le> 2 ^ 58"
    and "bytes_streamed mbps K < 2 ^ 62" and "K * unat (chkpt_bytes mbps) < 2 ^ 64"
proof -
  have "1 * unat mbps \<le> n * unat mbps" using n(1) by (intro mult_le_mono1) simp
  with m have b: "unat mbps < 2 ^ 32" unfolding mult_1 by (rule order_le_less_trans [rotated])
  note chk = chkpt_bytes_bound [OF b]
  have up: "bytes_streamed mbps K \<le> K * unat (chkpt_bytes mbps) + K * 8192"
    unfolding bytes_streamed_def by (rule nth_check_upper) simp
  have "8192 * 1 \<le> 8192 * nth_check 8192 (unat (chkpt_bytes mbps)) K"
    using K(1) nth_check_ge [of K 8192 "unat (chkpt_bytes mbps)"] by (intro mult_le_mono2) linarith
  then show "8192 \<le> bytes_streamed mbps K" by (simp add: bytes_streamed_def)
  have "K * unat (chkpt_bytes mbps) \<le> 2 ^ 12 * (4195 * unat mbps)" using K(2) chk by (rule mult_le_mono)
  with up K(2) have s: "bytes_streamed mbps K \<le> 17182720 * unat mbps + 33554432"
    and "K * unat (chkpt_bytes mbps) \<le> 17182720 * unat mbps" by simp_all
  with b show "bytes_streamed mbps K < 2 ^ 62" "K * unat (chkpt_bytes mbps) < 2 ^ 64" by simp_all
  have "n * bytes_streamed mbps K \<le> n * (17182720 * unat mbps + 33554432)" using s by (rule mult_le_mono2)
  also have "\<dots> = 17182720 * (n * unat mbps) + 33554432 * n" by (simp add: algebra_simps)
  also have "\<dots> \<le> 2 ^ 58" using m n(2) by simp
  finally show "n * bytes_streamed mbps K \<le> 2 ^ 58" .
qed

section \<open>Readiness\<close>

text \<open>A packet of one of \<open>n\<close> threads with a region of \<open>sz\<close> bytes.\<close>

definition stream_ready :: "u32 \<Rightarrow> u64 \<Rightarrow> mem_packet \<Rightarrow> bool" where
  "stream_ready n sz p \<longleftrightarrow>
     bp_num_threads p = n \<and>
     (\<exists>r. pk_mem_region p = Some r \<and> mr_active_size r = sz \<and> mr_size r = sz \<and> 8192 \<le> unat sz)"

text \<open>The clocks reach \<open>secs\<close> seconds within \<open>2 ^ 12\<close> readings, at most about a second apart.\<close>

definition few_readings :: "run_env \<Rightarrow> nat \<Rightarrow> u32 \<Rightarrow> (nat \<Rightarrow> nat) \<Rightarrow> bool" where
  "few_readings env n secs K \<longleftrightarrow> (\<forall>i < n. steady_clock (rn_threads env i) secs (K i) \<and> K i \<le> 2 ^ 12)"

lemma few_readings_time:
  assumes "few_readings env n secs K" and "i < n"
  shows "0 \<le> lat_time (rn_threads env i) (K i)" and "lat_time (rn_threads env i) (K i) < 2 ^ 53"
    and "uint secs * 1000000000 \<le> lat_time (rn_threads env i) (K i)"
proof -
  have st: "steady_clock (rn_threads env i) secs (K i)" "K i \<le> 2 ^ 12"
    using assms by (simp_all add: few_readings_def)
  note b = steady_clock_bounds [OF st(1)]
  show "0 \<le> lat_time (rn_threads env i) (K i)" "uint secs * 1000000000 \<le> lat_time (rn_threads env i) (K i)"
    using b(3,4) by simp_all
  show "lat_time (rn_threads env i) (K i) < 2 ^ 53" using st(2) b(5) by simp
qed

lemma stream_thread:
  assumes ready: "stream_ready num sz p" and num: "0 < unat num"
    and k: "accesses k = bandwidth_kernel m \<or> bandwidth_like k" and packet: "pk_kernel_bw p = Some k"
    and clock: "clock_reaches te (pk_target_duration p) K" and K: "1 \<le> K" "K \<le> 2 ^ 12"
  defines "mbps \<equiv> core_mbps (pk_ref_total_bw_gbps p) (pk_num_total_threads p) num"
    and "f \<equiv> get_write_fraction (pk_read_write_mix p)"
  shows "\<exists>q bytes. bw_sequential te p = ret q \<and> stream_ready num sz q \<and> pk_finished_bytes q = bytes \<and>
    pk_exec_time q = double (double (of_int (lat_time te K)) / of_nat (10 ^ 9)) \<and>
    pk_finished_chases q = pk_finished_chases p \<and>
    \<bar>of_nat (unat bytes) - of_nat (bytes_streamed mbps K) * (1 + f)\<bar>
      \<le> of_nat (bytes_streamed mbps K) * (1 + f) / 2 ^ 21 + 1"
proof -
  obtain r where r: "pk_mem_region p = Some r" "mr_active_size r = sz" "mr_size r = sz" "8192 \<le> unat sz"
    and n: "bp_num_threads p = num" using ready by (auto simp: stream_ready_def)
  have mbps: "per_core_bw_mbps p = Inr mbps"
    using num n by (auto simp: per_core_bw_mbps_def mbps_def core_mbps_def)
  have like: "bandwidth_like k" using k bandwidth_like_kernel by blast
  have lim: "unat num * unat mbps < 2 ^ 32" unfolding mbps_def by (rule core_mbps_bound)
  have "unat num < 2 ^ 32" using unat_lt_32 [of num] by simp
  note b = bytes_streamed_bounds [OF lim num this K]
  have big: "8192 \<le> unat (mr_active_size r)" "mr_active_size r \<le> mr_size r" using r by simp_all
  have clk: "target_reached_at (bw_config te p mbps r) K" using clock by (simp only: clock_reaches_bw)
  obtain m bytes where "bw_sequential te p = ret (p\<lparr>pk_mem_region := Some (r\<lparr>mr_bytes := m\<rparr>), pk_finished_bytes := bytes,
        pk_exec_time := double (double (of_int (te_clock te K - te_clock te 0)) / 10 ^ 9)\<rparr>)"
    "\<bar>of_nat (unat bytes) - of_nat (bytes_streamed mbps K) * (1 + f)\<bar>
      \<le> of_nat (bytes_streamed mbps K) * (1 + f) / 2 ^ 21 + 1"
    using bw_sequential_returns [OF like r(1) packet mbps big clk b(3) [unfolded bytes_streamed_def] b(4)]
    unfolding bytes_streamed_def [symmetric] f_def [symmetric] by blast
  then show ?thesis using r n by (auto simp: stream_ready_def lat_time_def)
qed

section \<open>The quotient\<close>

text \<open>A printed value and the exact one differ by at most one part in \<open>2 ^ 12\<close>.\<close>

definition close_to :: "rat \<Rightarrow> rat \<Rightarrow> bool" where
  "close_to x y \<longleftrightarrow> \<bar>y - x\<bar> \<le> x / 2 ^ 12"

lemma close_toI: "x * (1 - 1 / 2 ^ 12) \<le> y \<Longrightarrow> y \<le> x * (1 + 1 / 2 ^ 12) \<Longrightarrow> close_to x y"
  unfolding close_to_def abs_le_iff right_diff_distrib distrib_left mult_1_right by simp

lemma quotient_close:
  fixes W t0 t B :: rat
  assumes W: "0 \<le> W" "\<bar>B - W\<bar> \<le> W * (1 / 2 ^ 13 + 1 / 2 ^ 21)"
    and t: "near m t0 t" "0 < t0" "m \<le> 2 ^ 34" and y: "near k (c * (B / t)) y" "k \<le> 2 ^ 34" and c: "0 \<le> c"
  shows "close_to (c * (W / t0)) y" and "0 < t"
proof -
  note tc = near_close [OF t(1,3)] and yc = near_close [OF y]
  have t0: "0 < t0 * (1 - 1 / 2 ^ 19)" using t(2) by simp
  with tc(1) show pos: "0 < t" by linarith
  have b: "W * (1 - 1 / 2 ^ 13 - 1 / 2 ^ 21) \<le> B" "B \<le> W * (1 + 1 / 2 ^ 13 + 1 / 2 ^ 21)"
    using abs_le_D1 [OF W(2)] abs_le_D2 [OF W(2)] by (simp_all add: algebra_simps)
  have w0: "0 \<le> W / t0" using W(1) t(2) by simp
  have cw: "0 \<le> c * (W / t0)" using c w0 by (rule mult_nonneg_nonneg)
  have "0 \<le> W * (1 - 1 / 2 ^ 13 - 1 / 2 ^ 21)" using W(1) by simp
  then have B0: "0 \<le> B" using b(1) by linarith
  have "B / t \<le> (W * (1 + 1 / 2 ^ 13 + 1 / 2 ^ 21)) / (t0 * (1 - 1 / 2 ^ 19))"
    using b(2) tc(1) t0 W(1) by (intro frac_le) simp_all
  also have "\<dots> = W / t0 * ((1 + 1 / 2 ^ 13 + 1 / 2 ^ 21) / (1 - 1 / 2 ^ 19))" by simp
  finally have hi: "B / t \<le> W / t0 * ((1 + 1 / 2 ^ 13 + 1 / 2 ^ 21) / (1 - 1 / 2 ^ 19))" .
  have "W / t0 * ((1 - 1 / 2 ^ 13 - 1 / 2 ^ 21) / (1 + 1 / 2 ^ 18)) =
      (W * (1 - 1 / 2 ^ 13 - 1 / 2 ^ 21)) / (t0 * (1 + 1 / 2 ^ 18))" by simp
  also have "\<dots> \<le> B / t" using b(1) tc(2) pos B0 by (intro frac_le) simp_all
  finally have lo: "W / t0 * ((1 - 1 / 2 ^ 13 - 1 / 2 ^ 21) / (1 + 1 / 2 ^ 18)) \<le> B / t" .
  have "c * (B / t) * (1 + 1 / 2 ^ 18) \<le>
      c * (W / t0 * ((1 + 1 / 2 ^ 13 + 1 / 2 ^ 21) / (1 - 1 / 2 ^ 19))) * (1 + 1 / 2 ^ 18)"
    using hi c by (intro mult_right_mono mult_left_mono) simp_all
  also have "\<dots> = c * (W / t0) * ((1 + 1 / 2 ^ 13 + 1 / 2 ^ 21) / (1 - 1 / 2 ^ 19) * (1 + 1 / 2 ^ 18))" by simp
  also have "\<dots> \<le> c * (W / t0) * (1 + 1 / 2 ^ 12)" by (rule mult_left_mono [OF _ cw]) simp
  finally have up: "y \<le> c * (W / t0) * (1 + 1 / 2 ^ 12)" using yc(2) by linarith
  have "c * (W / t0) * (1 - 1 / 2 ^ 12) \<le>
      c * (W / t0) * ((1 - 1 / 2 ^ 13 - 1 / 2 ^ 21) / (1 + 1 / 2 ^ 18) * (1 - 1 / 2 ^ 19))"
    by (rule mult_left_mono [OF _ cw]) simp
  also have "\<dots> = c * (W / t0 * ((1 - 1 / 2 ^ 13 - 1 / 2 ^ 21) / (1 + 1 / 2 ^ 18))) * (1 - 1 / 2 ^ 19)" by simp
  also have "\<dots> \<le> c * (B / t) * (1 - 1 / 2 ^ 19)"
    using lo c by (intro mult_right_mono mult_left_mono) simp_all
  finally have "c * (W / t0) * (1 - 1 / 2 ^ 12) \<le> y" using yc(1) by linarith
  then show "close_to (c * (W / t0)) y" using up by (rule close_toI)
qed

text \<open>The bandwidth in bytes per second and what is printed of it.\<close>

lemma average_bandwidth_close:
  fixes W t0 t :: rat and num :: u32 and bytes :: u64
  assumes W: "0 \<le> W" "\<bar>of_nat (unat bytes) - W\<bar> \<le> W * (1 / 2 ^ 13 + 1 / 2 ^ 21)"
    and t: "near m t0 t" "0 < t0" "m \<le> 2 ^ 34"
  defines "v \<equiv> of_nat (unat num) * (W / t0)"
  shows "\<exists>bw. average_bandwidth num bytes t = Inr bw \<and> 0 \<le> bw \<and>
    (let mbps = double (double (bw / 1024) / 1024)
     in close_to (v / 2 ^ 20) mbps \<and> close_to (v / 2 ^ 30) (double (mbps / 1024)))"
proof -
  let ?B = "of_nat (unat bytes) :: rat"
  have t0: "0 < t" by (rule quotient_close(2) [OF W t, where c = 0 and y = 0 and k = 0]) (simp_all add: near_def)
  define bw where "bw = double (double (u64_double bytes / t) * of_nat (unat num))"
  have "near 1 ?B (u64_double bytes)"
    unfolding u64_double_def One_nat_def by (intro near_double near_refl of_nat_0_le_iff)
  from near_scale [OF this, of "1 / t"] have "near 1 (?B / t) (u64_double bytes / t)" using t0 by simp
  then have "near (Suc 1) (?B / t) (double (u64_double bytes / t))" by (rule near_double)
  then have "near (Suc 1) (of_nat (unat num) * (?B / t)) (double (u64_double bytes / t) * of_nat (unat num))"
    unfolding mult.commute [of "double (u64_double bytes / t)"] by (intro near_scale of_nat_0_le_iff)
  then have bw: "near (Suc (Suc 1)) (of_nat (unat num) * (?B / t)) bw" unfolding bw_def by (rule near_double)
  have div: "near (Suc k) (c / 1024 * x) (double (y / 1024))" if "near k (c * x) y" for k c x y
  proof -
    have "near k (c / 1024 * x) (y / 1024)" using near_scale [OF that, of "1 / 1024"] by simp
    then show ?thesis by (rule near_double)
  qed
  note m = div [OF div [OF bw]] and g = div [OF div [OF div [OF bw]]]
  have c: "(0 :: rat) \<le> of_nat (unat num) / 1024 / 1024" "(0 :: rat) \<le> of_nat (unat num) / 1024 / 1024 / 1024"
    by (intro divide_nonneg_pos; simp only: of_nat_0_le_iff; simp)+
  have k: "Suc (Suc (Suc (Suc 1))) \<le> 2 ^ 34" "Suc (Suc (Suc (Suc (Suc 1)))) \<le> 2 ^ 34" by simp_all
  note w = quotient_close(1) [OF W t m k(1) c(1)] quotient_close(1) [OF W t g k(2) c(2)]
  have e: "of_nat (unat num) / 1024 / 1024 * (W / t0) = v / 2 ^ 20"
    "of_nat (unat num) / 1024 / 1024 / 1024 * (W / t0) = v / 2 ^ 30"
    unfolding v_def by simp_all
  have "average_bandwidth num bytes t = Inr bw" using t0 by (simp add: average_bandwidth_def fdiv_def bw_def)
  with w near_nonneg [OF bw] show ?thesis unfolding e by (auto simp: Let_def)
qed

section \<open>One measurement\<close>

definition bandwidth_rate :: "run_env \<Rightarrow> nat \<Rightarrow> (nat \<Rightarrow> nat) \<Rightarrow> u64 \<Rightarrow> rat \<Rightarrow> rat" where
  "bandwidth_rate env n K mbps f =
     of_nat n * (of_nat (\<Sum>i < n. bytes_streamed mbps (K i)) * (1 + f) /
       (of_int (\<Sum>i < n. lat_time (rn_threads env i) (K i)) / 10 ^ 9))"

text \<open>The bytes the threads report, against the bytes their kernels have moved.\<close>

lemma total_bytes_close:
  fixes s b :: "nat \<Rightarrow> nat" and f :: rat
  assumes each: "\<And>i. i < n \<Longrightarrow> \<bar>of_nat (b i) - of_nat (s i) * (1 + f)\<bar> \<le> of_nat (s i) * (1 + f) / 2 ^ 21 + 1"
    and s: "\<And>i. i < n \<Longrightarrow> 8192 \<le> s i \<and> n * s i \<le> 2 ^ 58" and f: "0 \<le> f" "f \<le> 1"
  defines "W \<equiv> of_nat (\<Sum>i < n. s i) * (1 + f)"
  shows "\<bar>of_nat (\<Sum>i < n. b i) - W\<bar> \<le> W * (1 / 2 ^ 13 + 1 / 2 ^ 21)" and "0 \<le> W" and "W \<le> 2 ^ 59"
    and "(\<Sum>i < n. b i) < 2 ^ 64"
proof -
  let ?S = "\<Sum>i < n. s i" and ?T = "\<Sum>i < n. b i"
  have "n * ?S \<le> n * 2 ^ 58"
    unfolding sum_distrib_left using sum_bounded_above [of "{..<n}" "\<lambda>i. n * s i" "2 ^ 58"] s by simp
  then have S: "?S \<le> 2 ^ 58" by (cases "n = 0") simp_all
  have S': "(of_nat ?S :: rat) \<le> 2 ^ 58" using S by (metis of_nat_le_iff of_nat_numeral of_nat_power)
  have S0: "0 \<le> (of_nat ?S :: rat)" by (rule of_nat_0_le_iff)
  show W0: "0 \<le> W" unfolding W_def using S0 f(1) by (intro mult_nonneg_nonneg) simp_all
  have "W \<le> 2 ^ 58 * 2" unfolding W_def using S' f S0 by (intro mult_mono) simp_all
  then show W: "W \<le> 2 ^ 59" by simp
  have "n * 8192 \<le> ?S" using sum_bounded_below [of "{..<n}" 8192 s] s by simp
  then have "(of_nat n :: rat) * 8192 \<le> of_nat ?S" by (metis of_nat_le_iff of_nat_mult of_nat_numeral)
  moreover have "of_nat ?S \<le> W" unfolding W_def using mult_left_mono [of 1 "1 + f" "of_nat ?S"] f(1) S0 by simp
  ultimately have n': "of_nat n \<le> W / 8192" by linarith
  have "\<bar>of_nat ?T - W\<bar> = \<bar>\<Sum>i < n. of_nat (b i) - of_nat (s i) * (1 + f)\<bar>"
    unfolding W_def sum_subtractf of_nat_sum sum_distrib_right ..
  also have "\<dots> \<le> (\<Sum>i < n. \<bar>of_nat (b i) - of_nat (s i) * (1 + f)\<bar>)" by (rule sum_abs)
  also have "\<dots> \<le> (\<Sum>i < n. of_nat (s i) * (1 + f) / 2 ^ 21 + 1)" using each by (intro sum_mono) simp
  also have "\<dots> = W / 2 ^ 21 + of_nat n"
    unfolding W_def sum.distrib of_nat_sum sum_distrib_right sum_divide_distrib by simp
  also have "\<dots> \<le> W * (1 / 2 ^ 13 + 1 / 2 ^ 21)" using n' unfolding distrib_left by simp
  finally show near: "\<bar>of_nat ?T - W\<bar> \<le> W * (1 / 2 ^ 13 + 1 / 2 ^ 21)" .
  have "of_nat ?T \<le> W + W * (1 / 2 ^ 13 + 1 / 2 ^ 21)" using abs_le_D1 [OF near] by linarith
  then have "(of_nat ?T :: rat) < 2 ^ 64" using W unfolding distrib_left by simp
  then show "?T < 2 ^ 64" by (metis of_nat_less_iff of_nat_numeral of_nat_power)
qed

lemma total_of_packets:
  assumes "length ps = n" and "(\<Sum>i < n. unat (f (ps ! i) :: u64)) < 2 ^ 64"
  shows "unat (total_of f ps) = (\<Sum>i < n. unat (f (ps ! i)))"
proof -
  have "map ((!) ps) [0..<n] = ps" using assms(1) map_nth [of ps] by simp
  then show ?thesis
    using total_of_list [where n = n and g = "\<lambda>i. unat (f (ps ! i))" and f = f and ps = "(!) ps"] assms(2)
    by (simp only: of_nat_unat unsigned_ucast_eq ucast_id)
qed

lemma total_time_close:
  assumes len: "length ps = n" "0 < n"
    and exec: "\<And>i. i < n \<Longrightarrow> pk_exec_time (ps ! i) = double (double (of_int (t i)) / of_nat (10 ^ 9))"
    and t: "\<And>i. i < n \<Longrightarrow> 0 \<le> t i \<and> t i < 2 ^ 53 \<and> 1000000000 \<le> t i"
  shows "near (Suc n) (of_int (\<Sum>i < n. t i) / 10 ^ 9) (total_exec_time ps)"
    and "(of_nat n :: rat) \<le> of_int (\<Sum>i < n. t i) / 10 ^ 9"
proof -
  have psn: "map ((!) ps) [0..<n] = ps" using len map_nth [of ps] by simp
  have "near (Suc n) (of_int (\<Sum>i < n. t i) / 10 ^ 9) (total_exec_time (map ((!) ps) [0..<n]))"
    using exec t by (intro total_exec_near) simp_all
  then show "near (Suc n) (of_int (\<Sum>i < n. t i) / 10 ^ 9) (total_exec_time ps)" unfolding psn .
  have "(\<Sum>i < n. 1000000000) \<le> (\<Sum>i < n. t i)" using t by (intro sum_mono) simp
  then have "int n * 1000000000 \<le> (\<Sum>i < n. t i)" by simp
  then have "(of_int (int n * 1000000000) :: rat) \<le> of_int (\<Sum>i < n. t i)" by (simp only: of_int_le_iff)
  then show "(of_nat n :: rat) \<le> of_int (\<Sum>i < n. t i) / 10 ^ 9"
    by (simp only: of_int_mult of_int_of_nat_eq of_int_numeral) simp
qed

definition streams_ready :: "u64 \<Rightarrow> mem_manager \<Rightarrow> bool" where
  "streams_ready sz wm \<longleftrightarrow> manager_wf wm \<and> list_all (stream_ready (wm_num_threads wm) sz) (wm_packets wm)"

text \<open>What the threads of one run leave behind, over their number and readings.\<close>

definition streamed :: "run_env \<Rightarrow> (nat \<Rightarrow> nat) \<Rightarrow> u64 \<Rightarrow> rat \<Rightarrow> nat \<Rightarrow> mem_packet \<Rightarrow> bool" where
  "streamed env K mbps f i q \<longleftrightarrow>
     pk_exec_time q = double (double (of_int (lat_time (rn_threads env i) (K i))) / of_nat (10 ^ 9)) \<and>
     \<bar>of_nat (unat (pk_finished_bytes q)) - of_nat (bytes_streamed mbps (K i)) * (1 + f)\<bar>
       \<le> of_nat (bytes_streamed mbps (K i)) * (1 + f) / 2 ^ 21 + 1"

lemma streamed_average:
  assumes clocks: "few_readings env n secs K" and secs: "0 < unat secs"
    and n: "n = unat num" "0 < n" and f: "0 \<le> f" "f \<le> 1" and mbps: "n * unat mbps < 2 ^ 32"
    and ps: "length ps = n" "\<And>i. i < n \<Longrightarrow> streamed env K mbps f i (ps ! i)"
  defines "v \<equiv> bandwidth_rate env n K mbps f"
  shows "\<exists>bw. average_bandwidth num (total_of pk_finished_bytes ps) (total_exec_time ps) = Inr bw \<and> 0 \<le> bw \<and>
    (let mbps = double (double (bw / 1024) / 1024)
     in close_to (v / 2 ^ 20) mbps \<and> close_to (v / 2 ^ 30) (double (mbps / 1024)))"
    and "v / 2 ^ 30 \<le> 2 ^ 31"
proof -
  let ?T = "\<Sum>i < n. lat_time (rn_threads env i) (K i)"
  let ?W = "of_nat (\<Sum>i < n. bytes_streamed mbps (K i)) * (1 + f)"
  have K: "1 \<le> K i \<and> K i \<le> 2 ^ 12" if "i < n" for i
    using clocks that steady_clock_bounds(2) unfolding few_readings_def by blast
  have n32: "n < 2 ^ 32" using unat_lt_32 [of num] n(1) by simp
  have s: "8192 \<le> bytes_streamed mbps (K i) \<and> n * bytes_streamed mbps (K i) \<le> 2 ^ 58" if "i < n" for i
    using bytes_streamed_bounds(1,2) [OF mbps n(2) n32] K [OF that] by blast
  note W = total_bytes_close [OF _ s f, of "\<lambda>i. unat (pk_finished_bytes (ps ! i))"]
  have each: "\<bar>of_nat (unat (pk_finished_bytes (ps ! i))) - of_nat (bytes_streamed mbps (K i)) * (1 + f)\<bar>
      \<le> of_nat (bytes_streamed mbps (K i)) * (1 + f) / 2 ^ 21 + 1" if "i < n" for i
    using ps(2) [OF that] by (simp only: streamed_def)
  have sum: "unat (total_of pk_finished_bytes ps) = (\<Sum>i < n. unat (pk_finished_bytes (ps ! i)))"
    using total_of_packets [OF ps(1), of pk_finished_bytes] W(4) [OF each] by simp
  have exec: "pk_exec_time (ps ! i) = double (double (of_int (lat_time (rn_threads env i) (K i))) / of_nat (10 ^ 9))"
    if "i < n" for i using ps(2) [OF that] by (simp only: streamed_def)
  have "1 \<le> uint secs" unfolding uint_nat using secs by linarith
  then have t: "0 \<le> lat_time (rn_threads env i) (K i) \<and> lat_time (rn_threads env i) (K i) < 2 ^ 53 \<and>
      1000000000 \<le> lat_time (rn_threads env i) (K i)" if "i < n" for i
    using few_readings_time [OF clocks that] by simp
  note close = total_time_close [OF ps(1) n(2) exec t]
  note time = close(1) and T = close(2)
  have n0: "(0 :: rat) < of_nat n" using n(2) by simp
  then have T0: "0 < (of_int ?T / 10 ^ 9 :: rat)" using T by (rule order_less_le_trans)
  have v: "v = of_nat (unat num) * (?W / (of_int ?T / 10 ^ 9))" unfolding v_def bandwidth_rate_def n(1) ..
  have "Suc n \<le> 2 ^ 34" using n32 by simp
  from average_bandwidth_close [OF W(2) [OF each] W(1) [OF each, folded sum] time T0 this, of num]
  show "\<exists>bw. average_bandwidth num (total_of pk_finished_bytes ps) (total_exec_time ps) = Inr bw \<and> 0 \<le> bw \<and>
    (let mbps = double (double (bw / 1024) / 1024)
     in close_to (v / 2 ^ 20) mbps \<and> close_to (v / 2 ^ 30) (double (mbps / 1024)))"
    unfolding v .
  have "of_nat n * (?W / (of_int ?T / 10 ^ 9)) \<le> of_nat n * (?W / of_nat n)"
    using W(2) [OF each] T T0 n0 by (intro mult_left_mono divide_left_mono mult_pos_pos) (simp_all only: less_imp_le)
  also have "\<dots> = ?W" using n0 by simp
  finally have "v \<le> ?W" unfolding v n(1) .
  with W(3) [OF each] show "v / 2 ^ 30 \<le> 2 ^ 31" by simp
qed

lemma to_u32_close:
  assumes "close_to x y" and "x \<le> 2 ^ 31" and "0 \<le> y"
  shows "\<exists>g. to_u32 y = Inr g \<and> int (unat g) = \<lfloor>y\<rfloor>"
proof (rule to_u32_ok [OF assms(3)])
  have "y \<le> x + x / 2 ^ 12" using abs_le_D1 [OF assms(1) [unfolded close_to_def]] by linarith
  then show "y < 2 ^ 32" using assms(2) by simp
qed

lemma double_nonneg: "0 \<le> x \<Longrightarrow> 0 \<le> double x"
  using near_nonneg [OF near_double [OF near_refl]] by simp

text \<open>What a measurement prints: in a cell of the matrix only the rate in GB/s.\<close>

definition bandwidth_row :: "bool \<Rightarrow> u32 \<Rightarrow> rat \<Rightarrow> rat \<Rightarrow> event list" where
  "bandwidth_row matrix mix mbps gbps =
     (if matrix then [Number gbps]
      else [Text (get_str_rw_mix mix), Text '' :'', Number mbps, Text '' MB/s | '', Number gbps, Text '' GB/s'', endl])"

lemma stream_routine:
  assumes ready: "stream_ready num sz p" and num: "0 < unat num" and like: "bandwidth_like k"
    and packet: "pk_kernel_bw p = Some k"
    and clock: "steady_clock (rn_threads env i) (pk_target_duration p) (K i)" "K i \<le> 2 ^ 12"
  shows "\<exists>q. routine Bw_Sequential (rn_threads env i) p = ret q \<and> stream_ready num sz q \<and>
    streamed env K (core_mbps (pk_ref_total_bw_gbps p) (pk_num_total_threads p) num)
      (get_write_fraction (pk_read_write_mix p)) i q"
  using stream_thread [OF ready num disjI2 [OF like] packet steady_clock_bounds(1,2) [OF clock(1)] clock(2)]
  by (auto simp: streamed_def)

lemma measure_peak_bandwidth_returns:
  fixes mix :: u32
  assumes ready: "streams_ready sz wm" and n: "n = unat (wm_num_threads wm)" "0 < n"
    and calls: "run_succeeds env n" and like: "bandwidth_like k"
    and clocks: "few_readings env n (if last_gbps > 0 then cf_target_duration_s config else 1) K"
    and secs: "0 < unat (cf_target_duration_s config)"
  defines "v \<equiv> bandwidth_rate env n K (core_mbps last_gbps (num_cpus (cf_numa_config config)) (wm_num_threads wm))
      (get_write_fraction mix)"
  shows "\<exists>mb gb wm' g. measure_peak_bandwidth env wm k config mix last_gbps =
      ret (if last_gbps > 0 then bandwidth_row (cf_bandwidth_matrix config) mix mb gb else [], wm', g) \<and>
    close_to (v / 2 ^ 20) mb \<and> close_to (v / 2 ^ 30) gb \<and> int (unat g) = \<lfloor>gb\<rfloor> \<and>
    streams_ready sz wm' \<and> wm_num_threads wm' = wm_num_threads wm"
proof -
  let ?num = "wm_num_threads wm" and ?secs = "if last_gbps > 0 then cf_target_duration_s config else 1"
  let ?mbps = "core_mbps last_gbps (num_cpus (cf_numa_config config)) ?num" and ?f = "get_write_fraction mix"
  let ?wm = "map_packets (\<lambda>_. peak_bandwidth_packet k config mix last_gbps) wm"
  have wf: "manager_wf wm" and pk: "\<And>i. i < n \<Longrightarrow> stream_ready ?num sz (wm_packets wm ! i)"
    using ready n(1) by (simp_all add: streams_ready_def list_all_length manager_wf_def)
  note m = map_packets_wf [OF wf, where f = "\<lambda>_. peak_bandwidth_packet k config mix last_gbps"]
  have "\<exists>q. routine Bw_Sequential (rn_threads env i) (wm_packets ?wm ! i) = ret q \<and>
      stream_ready ?num sz q \<and> streamed env K ?mbps ?f i q" if i: "i < n" for i
  proof -
    let ?p = "peak_bandwidth_packet k config mix last_gbps (wm_packets wm ! i)"
    have p: "stream_ready ?num sz ?p" "pk_kernel_bw ?p = Some k" "pk_target_duration ?p = ?secs"
      "core_mbps (pk_ref_total_bw_gbps ?p) (pk_num_total_threads ?p) ?num = ?mbps" "pk_read_write_mix ?p = mix"
      using pk [OF i] by (simp_all add: peak_bandwidth_packet_def stream_ready_def)
    have c: "steady_clock (rn_threads env i) (pk_target_duration ?p) (K i)" "K i \<le> 2 ^ 12"
      using clocks i unfolding few_readings_def p(3) by blast+
    from stream_routine [where K = K and i = i and env = env, OF p(1) _ like p(2) c] show ?thesis
      using m(3) [of i] i n p(4,5) by simp
  qed
  from run_routine_returns [where P = "\<lambda>i q. stream_ready ?num sz q \<and> streamed env K ?mbps ?f i q",
      OF m(1) n(1) [folded m(2)] calls this]
  obtain wm' where w: "run_routine env Bw_Sequential ?wm = ret wm'" "manager_wf wm'" "wm_num_threads wm' = wm_num_threads ?wm"
    "\<forall>i < n. stream_ready ?num sz (wm_packets wm' ! i) \<and> streamed env K ?mbps ?f i (wm_packets wm' ! i)" by blast
  have num: "wm_num_threads wm' = ?num" using w(3) m(2) by simp
  have len: "length (wm_packets wm') = n" using w(2) num n(1) by (simp add: manager_wf_def)
  have ready': "streams_ready sz wm'" using w(2,4) num len by (simp add: streams_ready_def list_all_length)
  have s: "0 < unat ?secs" using secs by simp
  have lim: "n * unat ?mbps < 2 ^ 32" unfolding n(1) by (rule core_mbps_bound)
  note avg = streamed_average [OF clocks s n conjunct1 [OF write_fraction_bounds] conjunct2 [OF write_fraction_bounds] lim len, of mix, folded v_def]
  have st: "\<And>i. i < n \<Longrightarrow> streamed env K ?mbps ?f i (wm_packets wm' ! i)" using w(4) by blast
  obtain bw where bw: "average_bandwidth ?num (total_of pk_finished_bytes (wm_packets wm')) (total_exec_time (wm_packets wm')) = Inr bw"
      "0 \<le> bw" "close_to (v / 2 ^ 20) (double (double (bw / 1024) / 1024))"
      "close_to (v / 2 ^ 30) (double (double (double (bw / 1024) / 1024) / 1024))"
    using avg(1) [OF st] by (auto simp: Let_def)
  have "0 \<le> double (double (double (bw / 1024) / 1024) / 1024)"
    using bw(2) by (intro double_nonneg divide_nonneg_pos) simp_all
  from to_u32_close [OF bw(4) avg(2) [OF st] this]
  obtain g where g: "to_u32 (double (double (double (bw / 1024) / 1024) / 1024)) = Inr g"
      "int (unat g) = \<lfloor>double (double (double (bw / 1024) / 1024) / 1024)\<rfloor>" by blast
  have "measure_peak_bandwidth env wm k config mix last_gbps =
      ret (if last_gbps > 0 then bandwidth_row (cf_bandwidth_matrix config) mix (double (double (bw / 1024) / 1024))
        (double (double (double (bw / 1024) / 1024) / 1024)) else [], wm', g)"
    using w(1) bw(1) g(1) num by (simp add: measure_peak_bandwidth_def Let_def bandwidth_row_def)
  with bw(3,4) g(2) ready' num show ?thesis by blast
qed

section \<open>The whole program\<close>

text \<open>
  The rows of a sweep: each measurement is within \<open>2 ^ -12\<close> of the rate of its threads, is
  printed unless the one before came to less than 1 GB/s, and tells the next one how far
  apart to put its checkpoints.
\<close>

fun bandwidth_rows ::
    "(nat \<Rightarrow> run_env) \<Rightarrow> (nat \<Rightarrow> u32 \<Rightarrow> nat \<Rightarrow> nat) \<Rightarrow> configuration \<Rightarrow> u32 \<Rightarrow> nat \<Rightarrow> (u32 \<times> kernel) list \<Rightarrow>
     u32 \<Rightarrow> event list \<Rightarrow> bool" where
  "bandwidth_rows envs K config num j [] last_gbps out \<longleftrightarrow> out = []"
| "bandwidth_rows envs K config num j ((mix, k) # items) last_gbps out \<longleftrightarrow>
     (let v = bandwidth_rate (envs j) (unat num) (K j (if last_gbps > 0 then cf_target_duration_s config else 1))
            (core_mbps last_gbps (num_cpus (cf_numa_config config)) num) (get_write_fraction mix)
      in \<exists>mb gb g out'. close_to (v / 2 ^ 20) mb \<and> close_to (v / 2 ^ 30) gb \<and> int (unat g) = \<lfloor>gb\<rfloor> \<and>
           out = (if last_gbps > 0 then bandwidth_row (cf_bandwidth_matrix config) mix mb gb else []) @ out' \<and>
           bandwidth_rows envs K config num (Suc j) items g out')"

definition clocks_for_sweep :: "(nat \<Rightarrow> run_env) \<Rightarrow> nat \<Rightarrow> configuration \<Rightarrow> (nat \<Rightarrow> u32 \<Rightarrow> nat \<Rightarrow> nat) \<Rightarrow> bool" where
  "clocks_for_sweep envs n config K \<longleftrightarrow>
     (\<forall>j. few_readings (envs j) n 1 (K j 1) \<and>
        few_readings (envs j) n (cf_target_duration_s config) (K j (cf_target_duration_s config)))"

lemma bandwidth_sweep_returns:
  assumes "streams_ready sz wm" and "num = wm_num_threads wm" and "0 < unat num"
    and calls: "\<And>j. run_succeeds (envs j) (unat num)"
    and like: "list_all (\<lambda>(mix, k). bandwidth_like k) items"
    and clocks: "clocks_for_sweep envs (unat num) config K"
    and secs: "0 < unat (cf_target_duration_s config)"
  shows "\<exists>out. bandwidth_sweep envs j config items wm last_gbps = ret out \<and>
    bandwidth_rows envs K config num j items last_gbps out"
  using assms(1-3) like
proof (induction items arbitrary: j wm last_gbps)
  case (Cons item items)
  obtain mix k where item: "item = (mix, k)" by (cases item) simp
  let ?secs = "if last_gbps > 0 then cf_target_duration_s config else 1"
  have like: "bandwidth_like k" "list_all (\<lambda>(mix, k). bandwidth_like k) items" using Cons.prems(4) item by simp_all
  have c: "few_readings (envs j) (unat num) ?secs (K j ?secs)" using clocks by (simp add: clocks_for_sweep_def)
  have n: "unat num = unat (wm_num_threads wm)" using Cons.prems(2) by simp
  obtain mb gb wm' g where one: "measure_peak_bandwidth (envs j) wm k config mix last_gbps =
      ret (if last_gbps > 0 then bandwidth_row (cf_bandwidth_matrix config) mix mb gb else [], wm', g)"
    and v: "close_to (bandwidth_rate (envs j) (unat num) (K j ?secs)
        (core_mbps last_gbps (num_cpus (cf_numa_config config)) num) (get_write_fraction mix) / 2 ^ 20) mb"
      "close_to (bandwidth_rate (envs j) (unat num) (K j ?secs)
        (core_mbps last_gbps (num_cpus (cf_numa_config config)) num) (get_write_fraction mix) / 2 ^ 30) gb"
      "int (unat g) = \<lfloor>gb\<rfloor>"
    and next_wm: "streams_ready sz wm'" "wm_num_threads wm' = wm_num_threads wm"
    using measure_peak_bandwidth_returns [OF Cons.prems(1) n Cons.prems(3) calls like(1) c secs, of mix]
    unfolding Cons.prems(2) [symmetric] by blast
  obtain out' where rest: "bandwidth_sweep envs (Suc j) config items wm' g = ret out'"
      "bandwidth_rows envs K config num (Suc j) items g out'"
    using Cons.IH [OF next_wm(1) _ Cons.prems(3) like(2)] next_wm(2) Cons.prems(2) by metis
  from one rest(1) have "bandwidth_sweep envs j config (item # items) wm last_gbps =
      ret ((if last_gbps > 0 then bandwidth_row (cf_bandwidth_matrix config) mix mb gb else []) @ out')"
    by (simp add: item)
  moreover from v rest(2) have "bandwidth_rows envs K config num j (item # items) last_gbps
      ((if last_gbps > 0 then bandwidth_row (cf_bandwidth_matrix config) mix mb gb else []) @ out')"
    unfolding item bandwidth_rows.simps Let_def by blast
  ultimately show ?case by blast
qed simp

definition alloc_bw_succeeds :: "run_env \<Rightarrow> nat \<Rightarrow> configuration \<Rightarrow> i32 \<Rightarrow> bool" where
  "alloc_bw_succeeds env n config node \<longleftrightarrow>
     (\<forall>i < n. \<exists>r. MemRegion (te_alloc (rn_threads env i)) (cf_region_size_kb config * 1024)
        (cf_region_size_kb config * 1024) 4096 64 (mem_type_of (1 + node)) NONE = Inr r)"

lemma sweep_kernels_like:
  fixes m :: u32
  defines "kernels \<equiv> get_kernels_with_wrmix m"
  shows "list_all (\<lambda>(mix, k). bandwidth_like k) (hd kernels # kernels)"
proof -
  have "kernels \<noteq> []" by (simp add: kernels_def get_kernels_with_wrmix_def)
  then have "set (hd kernels # kernels) = set kernels" by (cases kernels) auto
  moreover have "list_all (\<lambda>(mix, k). bandwidth_like k) kernels" unfolding kernels_def by (rule bandwidth_like_wrmix)
  ultimately show ?thesis unfolding list_all_iff by (simp only:)
qed

text \<open>Every packet of a new manager knows the number of threads.\<close>

lemma new_manager_packets:
  assumes "WorkerThreadManager hw p0 n cpus b v = (shown, err, wm)" and "i < unat n"
  shows "bp_num_threads (wm_packets wm ! i) = n"
proof -
  have "wm = snd (snd (WorkerThreadManager hw p0 n cpus b v))" by (simp add: assms(1))
  with assms(2) show ?thesis by (simp add: WorkerThreadManager_def Let_def setThreadId_def below_def)
qed

lemma alloc_bw_ready:
  assumes "alloc_bw_succeeds env n config node" and "i < n" and "8192 \<le> unat (cf_region_size_kb config * 1024)"
    and "bp_num_threads p = num"
  shows "\<exists>q. mem_region_alloc_bw (rn_threads env i) ((copy_mem_region_config config p)\<lparr>pk_mem_type := 1 + node\<rparr>) = ret q \<and>
    stream_ready num (cf_region_size_kb config * 1024) q"
proof -
  let ?sz = "cf_region_size_kb config * 1024"
  obtain r where r: "MemRegion (te_alloc (rn_threads env i)) ?sz ?sz 4096 64 (mem_type_of (1 + node)) NONE = Inr r"
    using assms(1,2) by (auto simp: alloc_bw_succeeds_def)
  from MemRegion_fields [OF r] r assms(3,4) show ?thesis
    by (simp add: mem_region_alloc_bw_def copy_mem_region_config_def stream_ready_def)
qed

lemma setup_peak_bandwidth_returns:
  assumes wf: "manager_wf wm" and n: "n = unat (wm_num_threads wm)" and calls: "run_succeeds env n"
    and size: "8192 \<le> unat (cf_region_size_kb config * 1024)" and alloc: "alloc_bw_succeeds env n config node"
    and packets: "\<And>i. i < n \<Longrightarrow> bp_num_threads (wm_packets wm ! i) = wm_num_threads wm"
  shows "\<exists>wm'. setup_memory_regions_peak_bandwidth env wm config node = ret wm' \<and>
    wm_num_threads wm' = wm_num_threads wm \<and> streams_ready (cf_region_size_kb config * 1024) wm'"
proof -
  let ?sz = "cf_region_size_kb config * 1024" and ?num = "wm_num_threads wm"
  let ?wm = "prepare_mem_lat_bw_thread_packet wm config node"
  note m = map_packets_wf [OF wf, where f = "\<lambda>_ p. (copy_mem_region_config config p)\<lparr>pk_mem_type := 1 + node\<rparr>",
      folded prepare_mem_lat_bw_thread_packet_def]
  have "\<exists>q. routine Alloc_Bw (rn_threads env i) (wm_packets ?wm ! i) = ret q \<and> stream_ready ?num ?sz q"
    if i: "i < n" for i
    using alloc_bw_ready [OF alloc i size packets [OF i]] m(3) [of i] i n by simp
  from run_routine_returns [where P = "\<lambda>i q. stream_ready ?num ?sz q", OF m(1) n [folded m(2)] calls this]
  obtain wm' where w: "run_routine env Alloc_Bw ?wm = ret wm'" "manager_wf wm'" "wm_num_threads wm' = wm_num_threads ?wm"
    "\<forall>i < n. stream_ready ?num ?sz (wm_packets wm' ! i)" by blast
  then have "streams_ready ?sz wm'"
    using n m(2) by (simp add: streams_ready_def list_all_length manager_wf_def)
  with w m(2) show ?thesis by (simp add: setup_memory_regions_peak_bandwidth_def)
qed

text \<open>
  C2. The peak-bandwidth program, end to end. Given arguments that the parser accepts, at
  least one thread, a region of at least 8 KiB and a positive duration, allocations and
  thread calls that succeed, and clocks that reach their targets, the program ends with
  status 0 and prints the rows of its sweep: the first kernel once more to calibrate, then
  every kernel of the mix.
\<close>

theorem peak_bandwidth_program:
  fixes envs :: "u32 \<Rightarrow> u32 \<Rightarrow> nat \<Rightarrow> run_env" and config :: configuration
  defines "n \<equiv> unat (cf_num_threads config)" and "kernels \<equiv> get_kernels_with_wrmix (cf_read_write_mix config)"
  assumes parsed: "parse_options (Configuration nc BANDWIDTH) args = Inr config"
    and mode: "\<not> cf_bandwidth_matrix config" "cf_num_threads config \<noteq> 0" "cf_target_duration_s config \<noteq> 0"
    and size: "8192 \<le> unat (cf_region_size_kb config * 1024)"
    and alloc: "alloc_bw_succeeds (envs 0 0 0) n config (- 1)"
    and calls: "\<forall>j. run_succeeds (envs 0 0 j) n" and clocks: "clocks_for_sweep (envs 0 0) n config K"
  shows "\<exists>text out. main_peak_bandwidth envs setup_time hw nc args =
      ret (0, [Text (cf_dump config), Text text, Text setup_time] @ out @ [endl]) \<and>
    bandwidth_rows (envs 0 0) K config (cf_num_threads config) 1 (hd kernels # kernels) 0 out"
proof -
  obtain shown err and wm :: mem_manager where wm: "WorkerThreadManager hw MemLatBwThreadPacket (cf_num_threads config)
      (all_allowed_cpus (cf_numa_config config)) (\<not> cf_no_binding config) (cf_verbose config) = (shown, err, wm)"
    by (metis prod_cases3)
  note new = new_manager [OF wm]
  have n: "n = unat (wm_num_threads wm)" "0 < unat (cf_num_threads config)"
    using mode(2) new(2) by (simp_all add: n_def unat_gt_0)
  have calls0: "run_succeeds (envs 0 0 j) n" for j using calls by blast
  have pk: "\<And>i. i < n \<Longrightarrow> bp_num_threads (wm_packets wm ! i) = wm_num_threads wm"
    using new_manager_packets [OF wm] unfolding new(2) n_def .
  obtain wm1 where w1: "setup_memory_regions_peak_bandwidth (envs 0 0 0) wm config (- 1) = ret wm1"
      "wm_num_threads wm1 = wm_num_threads wm" "streams_ready (cf_region_size_kb config * 1024) wm1"
    using setup_peak_bandwidth_returns [OF new(1) n(1) calls0 size alloc pk] by blast
  have num: "cf_num_threads config = wm_num_threads wm1" using w1(2) new(2) by simp
  have like: "list_all (\<lambda>(mix, k). bandwidth_like k) (hd kernels # kernels)"
    unfolding kernels_def by (rule sweep_kernels_like)
  have secs: "0 < unat (cf_target_duration_s config)" using mode(3) by (simp add: unat_gt_0)
  obtain out where out: "bandwidth_sweep (envs 0 0) 1 config (hd kernels # kernels) wm1 0 = ret out"
      "bandwidth_rows (envs 0 0) K config (cf_num_threads config) 1 (hd kernels # kernels) 0 out"
    using bandwidth_sweep_returns [OF w1(3) num n(2) calls0 [unfolded n_def] like clocks [unfolded n_def] secs]
    by blast
  have "main_peak_bandwidth envs setup_time hw nc args =
      ret (0, [Text (cf_dump config), Text shown, Text setup_time] @ out @ [endl])"
    using parsed mode(1) wm w1(1) out(1)
    by (simp add: main_peak_bandwidth_def setup_and_run_peak_bandwidth_def run_peak_bandwidth_def Let_def kernels_def)
  with out(2) show ?thesis by blast
qed

lemma example_readings:
  assumes "1 \<le> unat secs" and "unat secs \<le> 2 ^ 12"
  shows "few_readings example_run_env n secs (\<lambda>_. unat secs)"
proof -
  have "int k < uint secs \<longleftrightarrow> k < unat secs" for k by (simp only: uint_nat of_nat_less_iff)
  with assms show ?thesis
    by (simp add: few_readings_def steady_clock_def clock_reaches_def lat_time_def example_run_env_def
        example_thread_env_def)
qed

lemma peak_bandwidth_program_witness:
  "\<exists>out. main_peak_bandwidth (\<lambda>_ _ _. example_run_env) '''' 4 example_machine [] = ret (0, out)"
proof -
  define config where "config = default_configuration example_machine BANDWIDTH"
  have p: "parse_options (Configuration example_machine BANDWIDTH) [] = Inr config"
    by (simp add: parse_options_def cl_parse_def configuration_default default_configuration_def auto_correct_def config_def)
  have cf: "cf_num_threads config = 3" "cf_region_size_kb config = 131072" "cf_target_duration_s config = 10"
    "\<not> cf_bandwidth_matrix config"
    by (simp_all add: config_def default_configuration_def example_machine_eval)
  obtain r where "MemRegion small_env 134217728 134217728 4096 64 NATIVE NONE = Inr r"
    using small_region [of 134217728 4096 64] by auto
  then have alloc: "alloc_bw_succeeds example_run_env (unat (cf_num_threads config)) config (- 1)"
    by (simp add: alloc_bw_succeeds_def cf example_run_env_def example_thread_env_def mem_type_of_def)
  have calls: "\<forall>j :: nat. run_succeeds example_run_env (unat (cf_num_threads config))"
    by (simp add: run_succeeds_def example_run_env_def)
  have clocks: "clocks_for_sweep (\<lambda>_. example_run_env) (unat (cf_num_threads config)) config (\<lambda>_ secs _. unat secs)"
    unfolding clocks_for_sweep_def cf by (intro allI conjI example_readings) simp_all
  have ne: "cf_num_threads config \<noteq> 0" "cf_target_duration_s config \<noteq> 0"
    "8192 \<le> unat (cf_region_size_kb config * 1024)" by (simp_all add: cf)
  from peak_bandwidth_program [where envs = "\<lambda>_ _ _. example_run_env", OF p cf(4) ne alloc calls clocks]
  show ?thesis by blast
qed

end
