(* ===== verification/Loaded_Run.thy ===== *)
theory Loaded_Run
  imports Bandwidth_Run
begin

text \<open>
  The loaded-latency program from its arguments to its output: thread 0 chases pointers
  while the others generate load, and each row gives the latency of the one under the
  bandwidth of all, to within one part in \<open>2 ^ 18\<close> and \<open>2 ^ 12\<close>.
\<close>

section \<open>Two kinds of threads\<close>

lemma setRoutine_if_wf:
  assumes "manager_wf wm"
  shows "manager_wf (setRoutine_if r pred wm)"
    and "wm_num_threads (setRoutine_if r pred wm) = wm_num_threads wm"
    and "wm_packets (setRoutine_if r pred wm) = wm_packets wm"
    and "i < unat (wm_num_threads wm) \<Longrightarrow>
      wm_start_routines (setRoutine_if r pred wm) ! i = (if pred (of_nat i) then r else wm_start_routines wm ! i)"
  using assms by (simp_all add: manager_wf_def setRoutine_if_def below_def)

definition split_routines :: "mem_routine \<Rightarrow> mem_routine \<Rightarrow> mem_manager \<Rightarrow> mem_manager" where
  "split_routines a b wm =
     setRoutine_if (Some b) (\<lambda>idx. idx > 0) (setRoutine_if (Some a) (\<lambda>idx. idx = 0) wm)"

lemma split_routines_wf:
  assumes "manager_wf wm"
  shows "manager_wf (split_routines a b wm)" and "wm_num_threads (split_routines a b wm) = wm_num_threads wm"
    and "wm_packets (split_routines a b wm) = wm_packets wm"
    and "i < unat (wm_num_threads wm) \<Longrightarrow>
      wm_start_routines (split_routines a b wm) ! i = Some (if i = 0 then a else b)"
proof -
  note one = setRoutine_if_wf [OF assms, where r = "Some a" and pred = "\<lambda>idx. idx = 0"]
  note two = setRoutine_if_wf [OF one(1), where r = "Some b" and pred = "\<lambda>idx. idx > 0"]
  show "manager_wf (split_routines a b wm)" "wm_num_threads (split_routines a b wm) = wm_num_threads wm"
    "wm_packets (split_routines a b wm) = wm_packets wm"
    unfolding split_routines_def using one two by simp_all
  assume i: "i < unat (wm_num_threads wm)"
  then have idx: "unat (of_nat i :: u32) = i" using unat_lt_32 [of "wm_num_threads wm"] by (simp add: unat_of_nat)
  have z: "(of_nat i :: u32) = 0 \<longleftrightarrow> i = 0" unfolding word_unat_eq_iff idx unat_0 ..
  have g: "(of_nat i :: u32) > 0 \<longleftrightarrow> i \<noteq> 0" unfolding word_gt_0 using z by metis
  have "i < unat (wm_num_threads (setRoutine_if (Some a) (\<lambda>idx. idx = 0) wm))" unfolding one(2) by (rule i)
  note at = two(4) [OF this]
  show "wm_start_routines (split_routines a b wm) ! i = Some (if i = 0 then a else b)"
    unfolding split_routines_def at one(4) [OF i] z g by simp
qed

lemma run_split_returns:
  assumes wf: "manager_wf wm" and n: "n = unat (wm_num_threads wm)" and calls: "run_succeeds env n"
    and threads: "\<And>i. i < n \<Longrightarrow>
      \<exists>q. routine (if i = 0 then a else b) (rn_threads env i) (wm_packets wm ! i) = ret q \<and> P i q"
  shows "\<exists>wm'. run_workers env (split_routines a b wm) = ret wm' \<and> manager_wf wm' \<and>
    wm_num_threads wm' = wm_num_threads wm \<and> (\<forall>i < n. P i (wm_packets wm' ! i))"
proof -
  note s = split_routines_wf [OF wf, where a = a and b = b]
  have "\<exists>r q. wm_start_routines (split_routines a b wm) ! i = Some r \<and>
      routine r (rn_threads env i) (wm_packets (split_routines a b wm) ! i) = ret q \<and> P i q" if "i < n" for i
    using threads [OF that] s(4) [of i] that by (simp add: s(3) n)
  from run_workers_returns [where P = P, OF s(1) n [folded s(2)] calls this] show ?thesis by (simp add: s(2))
qed

section \<open>The latency thread\<close>

lemma lat_routine:
  assumes ready: "region_ready sz (pk_mem_region p)" and kernel: "pk_kernel_lat p = Some kernel_lat"
    and clock: "steady_clock te (pk_target_duration p) K" "K \<le> 2 ^ 20"
  shows "lat_ptr te p = ret (p\<lparr>pk_finished_chases := of_nat (hops_made (pk_ref_latency_ps p) sz K),
    pk_exec_time := double (double (of_int (lat_time te K)) / of_nat (10 ^ 9))\<rparr>)"
proof -
  obtain r os where r: "pk_mem_region p = Some r" "chase_ready r os" "mr_active_size r = sz"
    "0 < unat (mr_line_size r)" "256 * unat (mr_line_size r) \<le> unat sz"
    using ready by (auto simp: region_ready_def)
  have c: "K * 4194304256 < 2 ^ 64" "K * 4194304000 < 2 ^ 64" using clock(2) by simp_all
  have fit: "256 * nth_check 256 (unat (chkpt_chases (pk_ref_latency_ps p) (mr_active_size r))) K < 2 ^ 64"
    "K * unat (chkpt_chases (pk_ref_latency_ps p) (mr_active_size r)) < 2 ^ 64"
    using order_le_less_trans [OF hops_made_bounds(2) c(1), of "pk_ref_latency_ps p" sz]
      order_le_less_trans [OF hops_made_bounds(3) c(2), of "pk_ref_latency_ps p" sz]
    unfolding hops_made_def r(3) by blast+
  have big: "256 * unat (mr_line_size r) \<le> unat (mr_active_size r)" using r(3,5) by simp
  have reach: "target_reached_at (lat_config te p r) K"
    unfolding clock_reaches_lat by (rule steady_clock_bounds(1) [OF clock(1)])
  from lat_ptr_returns [OF r(2,1) kernel r(4) big reach fit] show ?thesis
    unfolding hops_made_def r(3) lat_time_def by simp
qed

text \<open>Its latency: three roundings, and a fourth for the picoseconds.\<close>

definition thread_latency :: "run_env \<Rightarrow> nat \<Rightarrow> u32 \<Rightarrow> u64 \<Rightarrow> rat" where
  "thread_latency env K ref_ps sz =
     of_int (lat_time (rn_threads env 0) K) / of_nat (hops_made ref_ps sz K)"

lemma thread_latency_range:
  assumes "steady_clock (rn_threads env 0) secs K"
  shows "0 \<le> thread_latency env K ref_ps sz" and "thread_latency env K ref_ps sz \<le> 2 ^ 22"
proof -
  let ?t = "lat_time (rn_threads env 0) K" and ?h = "hops_made ref_ps sz K"
  note b = steady_clock_bounds [OF assms] and h = hops_made_bounds(1) [of K ref_ps sz]
  show "0 \<le> thread_latency env K ref_ps sz" using b(3) by (simp add: thread_latency_def)
  have "?t \<le> int ?h * 2 ^ 22" using b(5) h by simp
  then have "(of_int ?t :: rat) \<le> of_int (int ?h * 2 ^ 22)" by (simp only: of_int_le_iff)
  then have "of_int ?t \<le> (of_nat ?h :: rat) * 2 ^ 22" by (simp only: of_int_mult of_int_of_nat_eq of_int_power of_int_numeral)
  moreover have "0 < (of_nat ?h :: rat)" using b(2) h unfolding of_nat_0_less_iff by linarith
  ultimately show "thread_latency env K ref_ps sz \<le> 2 ^ 22"
    unfolding thread_latency_def by (simp only: pos_divide_le_eq mult.commute)
qed

lemma thread_latency_near:
  fixes ref_ps :: u32 and sz :: u64
  assumes clock: "steady_clock (rn_threads env 0) secs K" "K \<le> 2 ^ 12"
  defines "l \<equiv> thread_latency env K ref_ps sz" and "h \<equiv> (of_nat (hops_made ref_ps sz K) :: u64)"
    and "t \<equiv> double (double (of_int (lat_time (rn_threads env 0) K)) / of_nat (10 ^ 9))"
  shows "\<exists>L ps. fdiv (double (t * 10 ^ 9)) (u64_double h) = Inr L \<and> \<bar>L - l\<bar> \<le> l / 2 ^ 18 \<and>
    to_u32 (double (L * 1000)) = Inr ps \<and> \<bar>of_nat (unat ps) - 1000 * l\<bar> \<le> 1000 * l / 2 ^ 18 + 1"
proof -
  let ?h = "hops_made ref_ps sz K" and ?t = "lat_time (rn_threads env 0) K"
  note b = steady_clock_bounds [OF clock(1)] and r = thread_latency_range [OF clock(1), of ref_ps sz, folded l_def]
  have "?h \<le> 2 ^ 12 * 4194304256" using hops_made_bounds(2) [of ref_ps sz K] clock(2) by simp
  then have h53: "?h < 2 ^ 53" and h64: "?h < 2 ^ 64" by simp_all
  have "1 \<le> ?h" using b(2) hops_made_bounds(1) [of K ref_ps sz] by linarith
  then have h0: "(0 :: rat) < of_nat ?h" by simp
  have "unat h = ?h" unfolding h_def using unat_of_nat_64 [of ?h] h64 by simp
  then have uh: "u64_double h = of_nat ?h" unfolding u64_double_def using rnd_exact [OF h53] by (simp only:)
  have t53: "0 \<le> ?t" "?t < 2 ^ 53" using b(3,5) clock(2) by simp_all
  have "near 1 (of_int ?t / of_nat (10 ^ 9)) t" unfolding t_def by (rule near_elapsed [OF t53]) simp
  from near_scale [OF this, of "10 ^ 9"] have "near 1 (of_int ?t) (t * 10 ^ 9)" by (simp add: mult.commute)
  then have "near (Suc 1) (of_int ?t) (double (t * 10 ^ 9))" by (rule near_double)
  from near_scale [OF this, of "1 / of_nat ?h"] have "near (Suc 1) l (double (t * 10 ^ 9) / of_nat ?h)"
    unfolding l_def thread_latency_def using h0 by simp
  then have L: "near (Suc (Suc 1)) l (double (double (t * 10 ^ 9) / of_nat ?h))" (is "near _ _ ?L") by (rule near_double)
  from near_double [OF near_scale [OF L, of 1000]]
  have x: "near (Suc (Suc (Suc 1))) (1000 * l) (double (?L * 1000))" by (simp add: mult.commute)
  have "Suc (Suc 1) \<le> 2 ^ 34" "Suc (Suc (Suc 1)) \<le> 2 ^ 34" by simp_all
  note Lc = near_close [OF L this(1)] and xc = near_close [OF x this(2)]
  have "double (?L * 1000) < 2 ^ 32" using xc(2) r(2) by simp
  then obtain ps where ps: "to_u32 (double (?L * 1000)) = Inr ps" "int (unat ps) = \<lfloor>double (?L * 1000)\<rfloor>"
    using to_u32_ok [OF near_nonneg [OF x]] by blast
  have fl: "of_int \<lfloor>double (?L * 1000)\<rfloor> = (of_nat (unat ps) :: rat)" unfolding ps(2) [symmetric] by (rule of_int_of_nat_eq)
  have p: "of_nat (unat ps) \<le> double (?L * 1000)" "double (?L * 1000) < of_nat (unat ps) + 1"
    using floor_correct [of "double (?L * 1000)"] unfolding of_int_add fl by simp_all
  have "\<bar>?L - l\<bar> \<le> l / 2 ^ 18"
    using Lc r(1) unfolding abs_le_iff by (simp add: right_diff_distrib distrib_left)
  moreover have "\<bar>of_nat (unat ps) - 1000 * l\<bar> \<le> 1000 * l / 2 ^ 18 + 1"
    using xc p r(1) unfolding abs_le_iff by (simp add: right_diff_distrib distrib_left)
  moreover have "fdiv (double (t * 10 ^ 9)) (u64_double h) = Inr ?L" using h0 by (simp add: fdiv_def uh)
  ultimately show ?thesis using ps(1) by blast
qed

section \<open>The bandwidth of all threads\<close>

text \<open>Thread 0 counts with its hops, each for one stride; the others with their kernels.\<close>

definition loaded_rate :: "run_env \<Rightarrow> nat \<Rightarrow> (nat \<Rightarrow> nat) \<Rightarrow> nat \<Rightarrow> u64 \<Rightarrow> rat \<Rightarrow> rat" where
  "loaded_rate env n K chased mbps f =
     of_nat n * ((of_nat chased + of_nat (\<Sum>i < n - 1. bytes_streamed mbps (K (Suc i))) * (1 + f)) /
       (of_int (\<Sum>i < n. lat_time (rn_threads env i) (K i)) / 10 ^ 9))"

text \<open>The clock of thread 0 is for the latency's target, the others for the bandwidth's.\<close>

definition split_readings :: "run_env \<Rightarrow> nat \<Rightarrow> u32 \<Rightarrow> u32 \<Rightarrow> (nat \<Rightarrow> nat) \<Rightarrow> bool" where
  "split_readings env n secs0 secs K \<longleftrightarrow>
     (\<forall>i < n. steady_clock (rn_threads env i) (if i = 0 then secs0 else secs) (K i) \<and> K i \<le> 2 ^ 12)"

lemma split_readings_time:
  assumes "split_readings env n secs0 secs K" and "0 < unat secs0" and "0 < unat secs"
  defines "time \<equiv> \<lambda>i. lat_time (rn_threads env i) (K i)"
  shows "i < n \<Longrightarrow> 0 \<le> time i \<and> time i < 2 ^ 53 \<and> 1 \<le> K i \<and> K i \<le> 2 ^ 12"
    and "int n * 1000000000 \<le> (\<Sum>i < n. time i)"
proof -
  let ?secs = "\<lambda>i :: nat. if i = 0 then secs0 else secs"
  have st: "steady_clock (rn_threads env i) (?secs i) (K i)" "K i \<le> 2 ^ 12" if "i < n" for i
    using assms(1) that unfolding split_readings_def by blast+
  note b = steady_clock_bounds [OF st(1)]
  show "0 \<le> time i \<and> time i < 2 ^ 53 \<and> 1 \<le> K i \<and> K i \<le> 2 ^ 12" if "i < n" for i
    using st(2) [OF that] b(2,3,5) [OF that] by (simp add: time_def)
  have "1000000000 \<le> time i" if "i < n" for i
  proof -
    have "0 < unat (?secs i)" using assms(2,3) by (cases "i = 0") simp_all
    then have "1 \<le> uint (?secs i)" unfolding uint_nat by linarith
    with b(4) [OF that] show ?thesis unfolding time_def by linarith
  qed
  then have "(\<Sum>i < n. 1000000000) \<le> (\<Sum>i < n. time i)" by (intro sum_mono) simp
  then show "int n * 1000000000 \<le> (\<Sum>i < n. time i)" by simp
qed

lemma sum_from_first: "(\<Sum>i < Suc m. f i) = f 0 + (\<Sum>i < m. f (Suc i))"
  by (rule sum.lessThan_Suc_shift)

lemma loaded_time_near:
  assumes len: "length ps = m"
    and first: "pk_exec_time p0 = double (double (of_int (d 0)) / of_nat (10 ^ 9))"
    and rest: "\<And>i. i < m \<Longrightarrow> pk_exec_time (ps ! i) = double (double (of_int (d (Suc i))) / of_nat (10 ^ 9))"
    and d: "\<And>i. i < Suc m \<Longrightarrow> 0 \<le> d i \<and> d i < 2 ^ 53"
  shows "near (Suc m) (of_int (\<Sum>i < Suc m. d i) / 10 ^ 9)
    (foldl (\<lambda>t p. double (t + pk_exec_time p)) (pk_exec_time p0) ps)"
proof -
  have e: "near 1 (of_int (d i) / of_nat (10 ^ 9)) (double (double (of_int (d i)) / of_nat (10 ^ 9)))"
    if "i < Suc m" for i using d [OF that] by (intro near_elapsed) simp_all
  have "near (1 + m) (of_int (d 0) / of_nat (10 ^ 9) + (\<Sum>i < m. of_int (d (Suc i)) / of_nat (10 ^ 9)))
      (foldl (\<lambda>t i. double (t + pk_exec_time (ps ! i))) (pk_exec_time p0) [0..<m])"
  proof (rule near_sum)
    fix i assume "i < m"
    then show "near 1 (of_int (d (Suc i)) / of_nat (10 ^ 9)) (pk_exec_time (ps ! i))"
      unfolding rest [OF \<open>i < m\<close>] by (intro e) simp
  qed (use first e [of 0] in simp)
  moreover have "of_int (d 0) / of_nat (10 ^ 9) + (\<Sum>i < m. of_int (d (Suc i)) / of_nat (10 ^ 9)) =
      (of_int (\<Sum>i < Suc m. d i) / 10 ^ 9 :: rat)"
    unfolding sum_from_first by (simp add: add_divide_distrib sum_divide_distrib)
  moreover have "foldl (\<lambda>t i. double (t + pk_exec_time (ps ! i))) (pk_exec_time p0) [0..<m] =
      foldl (\<lambda>t p. double (t + pk_exec_time p)) (pk_exec_time p0) ps"
  proof -
    have "ps = map ((!) ps) [0..<m]" using len map_nth [of ps] by simp
    then have "foldl (\<lambda>t p. double (t + pk_exec_time p)) (pk_exec_time p0) ps =
        foldl (\<lambda>t p. double (t + pk_exec_time p)) (pk_exec_time p0) (map ((!) ps) [0..<m])" by simp
    then show ?thesis by (simp only: foldl_map)
  qed
  ultimately show ?thesis by (simp only: plus_1_eq_Suc)
qed

lemma total_from:
  assumes "x + (\<Sum>i < m. unat (f (ps ! i))) < 2 ^ 64" and "length ps = m"
  shows "unat (foldl (\<lambda>t p. t + f p) (of_nat x) ps) = x + (\<Sum>i < m. unat (f (ps ! i) :: u64))"
proof -
  have "foldl (\<lambda>t p. t + f p) (of_nat x :: u64) (map ((!) ps) [0..<k]) = of_nat (x + (\<Sum>i < k. unat (f (ps ! i))))" for k
    by (induction k) simp_all
  moreover have "map ((!) ps) [0..<m] = ps" using assms(2) map_nth [of ps] by simp
  ultimately have "foldl (\<lambda>t p. t + f p) (of_nat x) ps = (of_nat (x + (\<Sum>i < m. unat (f (ps ! i)))) :: u64)" by metis
  then show ?thesis using unat_of_nat_64 [of "x + (\<Sum>i < m. unat (f (ps ! i)))"] assms(1) by (simp only:) simp
qed

lemma loaded_total_fits:
  fixes b w c :: rat
  assumes "\<bar>b - w\<bar> \<le> w * (1 / 2 ^ 13 + 1 / 2 ^ 21)" and "0 \<le> w" "w \<le> 2 ^ 59" "c \<le> 2 ^ 57"
  shows "c + b < 2 ^ 64"
proof -
  have "w * (1 / 2 ^ 13 + 1 / 2 ^ 21) \<le> w * 1" using assms(2) by (intro mult_left_mono) simp_all
  with abs_le_D1 [OF assms(1)] assms(2-4) show ?thesis by simp
qed

lemma loaded_average:
  assumes clocks: "split_readings env n secs0 secs K" and secs: "0 < unat secs0" "0 < unat secs"
    and n: "n = unat num" "n = Suc m" and f: "0 \<le> f" "f \<le> 1" and mbps: "n * unat mbps < 2 ^ 32"
    and chased: "chased \<le> 2 ^ 57" and qs: "length qs = m" "\<And>i. i < m \<Longrightarrow> streamed env K mbps f (Suc i) (qs ! i)"
    and p0: "pk_exec_time p0 = double (double (of_int (lat_time (rn_threads env 0) (K 0))) / of_nat (10 ^ 9))"
  defines "v \<equiv> loaded_rate env n K chased mbps f"
  shows "\<exists>bw. average_bandwidth num (foldl (\<lambda>t p. t + pk_finished_bytes p) (of_nat chased) qs)
      (foldl (\<lambda>t p. double (t + pk_exec_time p)) (pk_exec_time p0) qs) = Inr bw \<and> 0 \<le> bw \<and>
    close_to (v / 2 ^ 30) (double (double (double (bw / 1024) / 1024) / 1024))"
    and "v / 2 ^ 30 \<le> 2 ^ 31"
proof -
  let ?time = "\<lambda>i. lat_time (rn_threads env i) (K i)"
  let ?T = "\<Sum>i < n. ?time i"
  let ?s = "\<lambda>i. bytes_streamed mbps (K (Suc i))" and ?b = "\<lambda>i. unat (pk_finished_bytes (qs ! i))"
  let ?W' = "of_nat (\<Sum>i < m. ?s i) * (1 + f)" and ?B = "\<Sum>i < m. ?b i"
  let ?W = "of_nat chased + ?W'"
  note tm = split_readings_time [OF clocks secs]
  have n32: "n < 2 ^ 32" and n0: "0 < n" using unat_lt_32 [of num] n by simp_all
  have s: "8192 \<le> ?s i \<and> m * ?s i \<le> 2 ^ 58" if "i < m" for i
  proof -
    have "Suc i < n" using that n(2) by simp
    then have K: "1 \<le> K (Suc i)" "K (Suc i) \<le> 2 ^ 12" using tm(1) by blast+
    note b = bytes_streamed_bounds(1,2) [OF mbps n0 n32 K]
    have "m * ?s i \<le> n * ?s i" using n(2) by simp
    with b show ?thesis by linarith
  qed
  have each: "\<bar>of_nat (?b i) - of_nat (?s i) * (1 + f)\<bar> \<le> of_nat (?s i) * (1 + f) / 2 ^ 21 + 1" if "i < m" for i
    using qs(2) [OF that] by (simp only: streamed_def)
  have w: "\<bar>of_nat ?B - ?W'\<bar> \<le> ?W' * (1 / 2 ^ 13 + 1 / 2 ^ 21)" "0 \<le> ?W'" "?W' \<le> 2 ^ 59"
    using total_bytes_close(1,2,3) [where b = ?b and s = ?s and n = m, OF each s f] by blast+
  have c0: "(0 :: rat) \<le> of_nat chased" by simp
  have W: "0 \<le> ?W" using w(2) c0 by linarith
  have ch: "(of_nat chased :: rat) \<le> 2 ^ 57" using chased by (metis of_nat_le_iff of_nat_numeral of_nat_power)
  then have W60: "?W \<le> 2 ^ 60" using w(3) by simp
  have "(of_nat (chased + ?B) :: rat) < 2 ^ 64"
    unfolding of_nat_add by (rule loaded_total_fits [OF w ch])
  then have fits: "chased + ?B < 2 ^ 64" by (metis of_nat_less_iff of_nat_numeral of_nat_power)
  note sum = total_from [where f = pk_finished_bytes and x = chased, OF fits qs(1)]
  have "?W' * (1 / 2 ^ 13 + 1 / 2 ^ 21) \<le> ?W * (1 / 2 ^ 13 + 1 / 2 ^ 21)" using c0 by (intro mult_right_mono) simp_all
  moreover have "of_nat (chased + ?B) - ?W = of_nat ?B - ?W'" by simp
  ultimately have near: "\<bar>of_nat (unat (foldl (\<lambda>t p. t + pk_finished_bytes p) (of_nat chased) qs)) - ?W\<bar> \<le>
      ?W * (1 / 2 ^ 13 + 1 / 2 ^ 21)"
    unfolding sum using w(1) by linarith
  have rest: "pk_exec_time (qs ! i) = double (double (of_int (?time (Suc i))) / of_nat (10 ^ 9))" if "i < m" for i
    using qs(2) [OF that] by (simp only: streamed_def)
  have d: "0 \<le> ?time i \<and> ?time i < 2 ^ 53" if "i < Suc m" for i using tm(1) [of i] that n(2) by blast
  note time = loaded_time_near [where d = ?time, OF qs(1) p0 rest d, folded n(2)]
  have "(of_int (int n * 1000000000) :: rat) \<le> of_int ?T" using tm(2) by (simp only: of_int_le_iff)
  then have T: "(of_nat n :: rat) \<le> of_int ?T / 10 ^ 9"
    by (simp only: of_int_mult of_int_of_nat_eq of_int_numeral) simp
  have n0': "(0 :: rat) < of_nat n" using n0 by simp
  then have T0: "0 < (of_int ?T / 10 ^ 9 :: rat)" using T by (rule order_less_le_trans)
  have v: "v = of_nat (unat num) * (?W / (of_int ?T / 10 ^ 9))"
    unfolding v_def loaded_rate_def n(1) [symmetric] using n(2) by simp
  have "n \<le> 2 ^ 34" using n32 by simp
  from average_bandwidth_close [OF W near time T0 this, of num]
  show "\<exists>bw. average_bandwidth num (foldl (\<lambda>t p. t + pk_finished_bytes p) (of_nat chased) qs)
      (foldl (\<lambda>t p. double (t + pk_exec_time p)) (pk_exec_time p0) qs) = Inr bw \<and> 0 \<le> bw \<and>
    close_to (v / 2 ^ 30) (double (double (double (bw / 1024) / 1024) / 1024))"
    unfolding v by (auto simp: Let_def)
  have "of_nat n * (?W / (of_int ?T / 10 ^ 9)) \<le> of_nat n * (?W / of_nat n)"
    using W T T0 n0' by (intro mult_left_mono divide_left_mono mult_pos_pos) (simp_all only: less_imp_le)
  also have "\<dots> = ?W" using n0' by simp
  finally have "v \<le> ?W" unfolding v n(1) .
  with W60 show "v / 2 ^ 30 \<le> 2 ^ 31" by simp
qed

section \<open>One measurement\<close>

definition loaded_ready :: "u32 \<Rightarrow> u64 \<Rightarrow> nat \<Rightarrow> mem_packet \<Rightarrow> bool" where
  "loaded_ready num sz i p \<longleftrightarrow> (if i = 0 then region_ready sz (pk_mem_region p) else stream_ready num sz p)"

definition loads_ready :: "u64 \<Rightarrow> mem_manager \<Rightarrow> bool" where
  "loads_ready sz wm \<longleftrightarrow> manager_wf wm \<and>
     (\<forall>i < unat (wm_num_threads wm). loaded_ready (wm_num_threads wm) sz i (wm_packets wm ! i))"

definition loaded_row :: "u32 \<Rightarrow> rat \<Rightarrow> rat \<Rightarrow> event list" where
  "loaded_row delay gb L = [Number (of_nat (unat delay)), Number gb, Number L, endl]"

text \<open>What the threads of one run leave behind: the hops of the first, the bytes of the others.\<close>

definition loaded_result :: "run_env \<Rightarrow> (nat \<Rightarrow> nat) \<Rightarrow> nat \<Rightarrow> u64 \<Rightarrow> rat \<Rightarrow> nat \<Rightarrow> mem_packet \<Rightarrow> bool" where
  "loaded_result env K hops mbps f i q \<longleftrightarrow>
     (if i = 0 then pk_finished_chases q = of_nat hops \<and>
        pk_exec_time q = double (double (of_int (lat_time (rn_threads env 0) (K 0))) / of_nat (10 ^ 9))
      else streamed env K mbps f i q)"

lemma loaded_thread:
  assumes ready: "loaded_ready num sz i p" and num: "0 < unat num" and like: "bandwidth_like k"
    and packet: "pk_kernel_lat p = Some kernel_lat" "pk_kernel_bw p = Some k"
    and clock: "steady_clock (rn_threads env i) (pk_target_duration p) (K i)" "K i \<le> 2 ^ 12"
  shows "\<exists>q. routine (if i = 0 then Lat_Ptr else Bw_Sequential) (rn_threads env i) p = ret q \<and>
    loaded_ready num sz i q \<and>
    loaded_result env K (hops_made (pk_ref_latency_ps p) sz (K 0))
      (core_mbps (pk_ref_total_bw_gbps p) (pk_num_total_threads p) num)
      (get_write_fraction (pk_read_write_mix p)) i q"
proof (cases "i = 0")
  case True
  have "K 0 \<le> 2 ^ 20" using clock(2) True by simp
  with lat_routine [of sz p "rn_threads env 0" "K 0"] ready packet(1) clock(1) True show ?thesis
    by (simp add: loaded_ready_def loaded_result_def)
next
  case False
  with stream_routine [where K = K and i = i and env = env, OF _ num like packet(2) clock] ready show ?thesis
    by (simp add: loaded_ready_def loaded_result_def)
qed

lemma hops_times_stride:
  assumes "K \<le> 2 ^ 12" and "unat (stride :: u32) \<le> 4096"
  shows "hops_made ref_ps sz K * unat stride \<le> 2 ^ 57"
    and "of_nat (hops_made ref_ps sz K) * ucast stride = (of_nat (hops_made ref_ps sz K * unat stride) :: u64)"
proof -
  have "hops_made ref_ps sz K \<le> 2 ^ 12 * 4194304256" using hops_made_bounds(2) [of ref_ps sz K] assms(1) by simp
  from mult_le_mono [OF this assms(2)] show "hops_made ref_ps sz K * unat stride \<le> 2 ^ 57" by simp
  show "of_nat (hops_made ref_ps sz K) * ucast stride = (of_nat (hops_made ref_ps sz K * unat stride) :: u64)"
    by (simp only: of_nat_mult of_nat_unat)
qed

lemma loaded_run_returns:
  assumes ready: "loads_ready sz wm" and n: "n = unat (wm_num_threads wm)" "0 < n"
    and calls: "run_succeeds env n" and like: "bandwidth_like k"
    and clocks: "split_readings env n (if lat > 0 then cf_target_duration_s config else 1)
      (if bw > 0 then cf_target_duration_s config else 1) K"
  defines "wm0 \<equiv> map_packets (loaded_latency_packet k config lat bw) wm"
    and "mbps \<equiv> core_mbps bw (num_cpus (cf_numa_config config)) (wm_num_threads wm)"
    and "f \<equiv> get_write_fraction (cf_read_write_mix config)"
  shows "\<exists>wm'. run_workers env (split_routines Lat_Ptr Bw_Sequential wm0) = ret wm' \<and>
    wm_num_threads wm' = wm_num_threads wm \<and> loads_ready sz wm' \<and>
    (\<forall>i < n. loaded_result env K (hops_made lat sz (K 0)) mbps f i (wm_packets wm' ! i))"
proof -
  let ?num = "wm_num_threads wm" and ?P = "\<lambda>i q. loaded_ready (wm_num_threads wm) sz i q \<and>
    loaded_result env K (hops_made lat sz (K 0)) mbps f i q"
  have wf: "manager_wf wm" and pk: "\<And>i. i < n \<Longrightarrow> loaded_ready ?num sz i (wm_packets wm ! i)"
    using ready n(1) by (simp_all add: loads_ready_def)
  note m = map_packets_wf [OF wf, where f = "loaded_latency_packet k config lat bw", folded wm0_def]
  have "\<exists>q. routine (if i = 0 then Lat_Ptr else Bw_Sequential) (rn_threads env i) (wm_packets wm0 ! i) = ret q \<and> ?P i q"
    if i: "i < n" for i
  proof -
    let ?p = "loaded_latency_packet k config lat bw (of_nat i) (wm_packets wm ! i)"
    have "unat (of_nat i :: u32) = i" using i unat_lt_32 [of ?num] n(1) by (simp add: unat_of_nat)
    then have z: "(of_nat i :: u32) = 0 \<longleftrightarrow> i = 0" unfolding word_unat_eq_iff unat_0 by (simp only:)
    have p: "loaded_ready ?num sz i ?p" "pk_kernel_lat ?p = Some kernel_lat" "pk_kernel_bw ?p = Some k"
      "pk_target_duration ?p = (if i = 0 then if lat > 0 then cf_target_duration_s config else 1
        else if bw > 0 then cf_target_duration_s config else 1)"
      "pk_ref_latency_ps ?p = lat" "core_mbps (pk_ref_total_bw_gbps ?p) (pk_num_total_threads ?p) ?num = mbps"
      "get_write_fraction (pk_read_write_mix ?p) = f"
      using pk [OF i] z
      by (cases "i = 0"; simp add: loaded_latency_packet_def loaded_ready_def stream_ready_def mbps_def f_def)+
    have c: "steady_clock (rn_threads env i) (pk_target_duration ?p) (K i)" "K i \<le> 2 ^ 12"
      using clocks i unfolding split_readings_def p(4) by blast+
    from loaded_thread [where K = K and i = i and env = env, OF p(1) _ like p(2,3) c] show ?thesis
      using m(3) [of i] i n unfolding p(5-7) by simp
  qed
  from run_split_returns [where P = ?P, OF m(1) n(1) [folded m(2)] calls this]
  obtain wm' where w: "run_workers env (split_routines Lat_Ptr Bw_Sequential wm0) = ret wm'" "manager_wf wm'"
    "wm_num_threads wm' = wm_num_threads wm0" "\<forall>i < n. ?P i (wm_packets wm' ! i)" by blast
  then show ?thesis using m(2) n(1) by (auto simp: loads_ready_def)
qed

lemma measure_loaded_latency_returns:
  assumes ready: "loads_ready sz wm" and n: "n = unat (wm_num_threads wm)" "0 < n"
    and num: "cf_num_threads config = wm_num_threads wm"
    and calls: "run_succeeds env n" and like: "bandwidth_like k"
    and clocks: "split_readings env n (if lat > 0 then cf_target_duration_s config else 1)
      (if bw > 0 then cf_target_duration_s config else 1) K"
    and secs: "0 < unat (cf_target_duration_s config)" and stride: "unat (cf_stride_size_b config) \<le> 4096"
  defines "l \<equiv> thread_latency env (K 0) lat sz"
    and "v \<equiv> loaded_rate env n K (hops_made lat sz (K 0) * unat (cf_stride_size_b config))
      (core_mbps bw (num_cpus (cf_numa_config config)) (wm_num_threads wm))
      (get_write_fraction (cf_read_write_mix config))"
  shows "\<exists>L gb wm' ps g. measure_loaded_latency env wm k config lat bw delay =
      ret (if lat > 0 \<or> bw > 0 then loaded_row delay gb L else [], wm', ps, g) \<and>
    \<bar>L - l\<bar> \<le> l / 2 ^ 18 \<and> \<bar>of_nat (unat ps) - 1000 * l\<bar> \<le> 1000 * l / 2 ^ 18 + 1 \<and>
    close_to (v / 2 ^ 30) gb \<and> int (unat g) = \<lfloor>gb\<rfloor> \<and>
    loads_ready sz wm' \<and> wm_num_threads wm' = wm_num_threads wm"
proof -
  let ?num = "wm_num_threads wm" and ?h = "hops_made lat sz (K 0)" and ?stride = "cf_stride_size_b config"
  let ?mbps = "core_mbps bw (num_cpus (cf_numa_config config)) ?num" and ?f = "get_write_fraction (cf_read_write_mix config)"
  let ?lsecs = "if lat > 0 then cf_target_duration_s config else 1"
    and ?secs = "if bw > 0 then cf_target_duration_s config else 1"
  obtain wm' where w: "run_workers env (split_routines Lat_Ptr Bw_Sequential
        (map_packets (loaded_latency_packet k config lat bw) wm)) = ret wm'"
    "wm_num_threads wm' = ?num" "loads_ready sz wm'"
    "\<forall>i < n. loaded_result env K ?h ?mbps ?f i (wm_packets wm' ! i)"
    using loaded_run_returns [OF ready n calls like clocks] by blast
  have len: "length (wm_packets wm') = n" using w(2,3) n(1) by (simp add: loads_ready_def manager_wf_def)
  then obtain p0 qs where ps: "wm_packets wm' = p0 # qs" using n(2) by (cases "wm_packets wm'") auto
  obtain m where m: "n = Suc m" using n(2) gr0_implies_Suc by blast
  have qs: "length qs = m" using len ps m by simp
  have "loaded_result env K ?h ?mbps ?f 0 p0" using w(4) n(2) ps by fastforce
  then have first: "pk_finished_chases p0 = of_nat ?h"
    "pk_exec_time p0 = double (double (of_int (lat_time (rn_threads env 0) (K 0))) / of_nat (10 ^ 9))"
    by (simp_all add: loaded_result_def)
  have rest: "streamed env K ?mbps ?f (Suc i) (qs ! i)" if "i < m" for i
  proof -
    have "Suc i < n" using that m by simp
    with w(4) have "loaded_result env K ?h ?mbps ?f (Suc i) (wm_packets wm' ! Suc i)" by blast
    then show ?thesis by (simp add: loaded_result_def ps)
  qed
  have c0: "steady_clock (rn_threads env 0) ?lsecs (K 0)" "K 0 \<le> 2 ^ 12"
    using clocks n(2) unfolding split_readings_def by fastforce+
  note chased = hops_times_stride [OF c0(2) stride, of lat sz]
  obtain L ps' where L: "fdiv (double (pk_exec_time p0 * 10 ^ 9)) (u64_double (pk_finished_chases p0)) = Inr L"
      "\<bar>L - l\<bar> \<le> l / 2 ^ 18" "to_u32 (double (L * 1000)) = Inr ps'"
      "\<bar>of_nat (unat ps') - 1000 * l\<bar> \<le> 1000 * l / 2 ^ 18 + 1"
    using thread_latency_near [OF c0, of lat sz] unfolding first l_def by blast
  have s: "0 < unat ?lsecs" "0 < unat ?secs" using secs by simp_all
  have lim: "n * unat ?mbps < 2 ^ 32" unfolding n(1) by (rule core_mbps_bound)
  note f = conjunct1 [OF write_fraction_bounds] conjunct2 [OF write_fraction_bounds]
  note avg = loaded_average [OF clocks s n(1) m f lim chased(1) qs rest first(2), folded v_def chased(2) first(1)]
  obtain b where b: "average_bandwidth ?num
        (foldl (\<lambda>t p. t + pk_finished_bytes p) (pk_finished_chases p0 * ucast ?stride) qs)
        (foldl (\<lambda>t p. double (t + pk_exec_time p)) (pk_exec_time p0) qs) = Inr b"
      "0 \<le> b" "close_to (v / 2 ^ 30) (double (double (double (b / 1024) / 1024) / 1024))"
    using avg(1) by blast
  have "0 \<le> double (double (double (b / 1024) / 1024) / 1024)"
    using b(2) by (intro double_nonneg divide_nonneg_pos) simp_all
  from to_u32_close [OF b(3) avg(2) this]
  obtain g where g: "to_u32 (double (double (double (b / 1024) / 1024) / 1024)) = Inr g"
      "int (unat g) = \<lfloor>double (double (double (b / 1024) / 1024) / 1024)\<rfloor>" by blast
  have "measure_loaded_latency env wm k config lat bw delay =
      ret (if lat > 0 \<or> bw > 0 then loaded_row delay (double (double (double (b / 1024) / 1024) / 1024)) L else [],
        wm', ps', g)"
    unfolding measure_loaded_latency_def
    using w(1) [unfolded split_routines_def] ps b(1) g(1) L(1,3) num by (simp add: Let_def loaded_row_def)
  with L(2,4) b(3) g(2) w(2,3) show ?thesis by blast
qed

section \<open>The sweep over the delays\<close>

text \<open>
  The rows of a sweep. Each measures the latency of thread 0 and the bandwidth of all threads,
  is printed unless the measurement before it gave 0 for both, and sets the checkpoints and
  the targets of the next.
\<close>

fun loaded_rows ::
    "(nat \<Rightarrow> run_env) \<Rightarrow> (nat \<Rightarrow> u32 \<Rightarrow> nat \<Rightarrow> nat) \<Rightarrow> configuration \<Rightarrow> nat \<Rightarrow> (i32 \<times> kernel) list \<Rightarrow>
     u32 \<Rightarrow> u32 \<Rightarrow> event list \<Rightarrow> bool" where
  "loaded_rows envs K config j [] lat bw out \<longleftrightarrow> out = []"
| "loaded_rows envs K config j ((delay, k) # items) lat bw out \<longleftrightarrow>
     (let secs = cf_target_duration_s config; num = cf_num_threads config;
          R = (\<lambda>i. K j (if i = 0 then if lat > 0 then secs else 1 else if bw > 0 then secs else 1) i);
          sz = cf_region_size_kb config * 1024;
          l = thread_latency (envs j) (R 0) lat sz;
          v = loaded_rate (envs j) (unat num) R (hops_made lat sz (R 0) * unat (cf_stride_size_b config))
            (core_mbps bw (num_cpus (cf_numa_config config)) num) (get_write_fraction (cf_read_write_mix config))
      in \<exists>L gb ps g out'. \<bar>L - l\<bar> \<le> l / 2 ^ 18 \<and> \<bar>of_nat (unat ps) - 1000 * l\<bar> \<le> 1000 * l / 2 ^ 18 + 1 \<and>
           close_to (v / 2 ^ 30) gb \<and> int (unat g) = \<lfloor>gb\<rfloor> \<and>
           out = (if lat > 0 \<or> bw > 0 then loaded_row delay gb L else []) @ out' \<and>
           loaded_rows envs K config (Suc j) items ps g out')"

lemma split_readings_sweep:
  assumes "clocks_for_sweep envs n config K"
  shows "split_readings (envs j) n (if lat > 0 then cf_target_duration_s config else 1)
      (if bw > 0 then cf_target_duration_s config else 1)
      (\<lambda>i. K j (if i = 0 then if lat > 0 then cf_target_duration_s config else 1
        else if bw > 0 then cf_target_duration_s config else 1) i)"
  using assms by (simp add: clocks_for_sweep_def few_readings_def split_readings_def)

lemma delay_sweep_returns:
  assumes "loads_ready (cf_region_size_kb config * 1024) wm" and "cf_num_threads config = wm_num_threads wm"
    and n: "0 < unat (cf_num_threads config)"
    and calls: "\<And>j. run_succeeds (envs j) (unat (cf_num_threads config))"
    and like: "list_all (\<lambda>(delay, k). bandwidth_like k) items"
    and clocks: "clocks_for_sweep envs (unat (cf_num_threads config)) config K"
    and secs: "0 < unat (cf_target_duration_s config)" and stride: "unat (cf_stride_size_b config) \<le> 4096"
  shows "\<exists>out. delay_sweep envs j config items wm lat bw = ret out \<and> loaded_rows envs K config j items lat bw out"
  using assms(1,2) like
proof (induction items arbitrary: j wm lat bw)
  case (Cons item items)
  obtain delay k where item: "item = (delay, k)" by (cases item) simp
  have like: "bandwidth_like k" "list_all (\<lambda>(delay, k). bandwidth_like k) items" using Cons.prems(3) item by simp_all
  have num: "unat (cf_num_threads config) = unat (wm_num_threads wm)" using Cons.prems(2) by simp
  note one = measure_loaded_latency_returns [OF Cons.prems(1) num n Cons.prems(2) calls like(1)
      split_readings_sweep [OF clocks] secs stride, of j lat bw delay, folded Cons.prems(2)]
  obtain L gb wm' ps g where one: "measure_loaded_latency (envs j) wm k config lat bw delay =
      ret (if lat > 0 \<or> bw > 0 then loaded_row delay gb L else [], wm', ps, g)"
    and next_wm: "loads_ready (cf_region_size_kb config * 1024) wm'" "wm_num_threads wm' = cf_num_threads config"
    and row: "\<And>out'. loaded_rows envs K config (Suc j) items ps g out' \<Longrightarrow>
      loaded_rows envs K config j (item # items) lat bw
        ((if lat > 0 \<or> bw > 0 then loaded_row delay gb L else []) @ out')"
    using one unfolding item loaded_rows.simps Let_def by blast
  obtain out' where rest: "delay_sweep envs (Suc j) config items wm' ps g = ret out'"
      "loaded_rows envs K config (Suc j) items ps g out'"
    using Cons.IH [OF next_wm(1) next_wm(2) [symmetric] like(2)] by blast
  from one rest(1) have "delay_sweep envs j config (item # items) wm lat bw =
      ret ((if lat > 0 \<or> bw > 0 then loaded_row delay gb L else []) @ out')"
    by (simp add: item)
  with row [OF rest(2)] show ?case by blast
qed simp

section \<open>Allocation\<close>

lemma setup_loaded_latency_returns:
  assumes wf: "manager_wf wm" and n: "n = unat (wm_num_threads wm)" "0 < n" and calls: "run_succeeds env n"
    and sizes: "latency_sizes_ok config" "8192 \<le> unat (cf_region_size_kb config * 1024)"
    and alloc: "alloc_succeeds env 1 config (- 1)" "alloc_bw_succeeds env n config (- 1)"
    and packets: "\<And>i. i < n \<Longrightarrow> bp_num_threads (wm_packets wm ! i) = wm_num_threads wm"
  shows "\<exists>wm'. setup_memory_regions_loaded_latency env wm config = ret wm' \<and>
    wm_num_threads wm' = wm_num_threads wm \<and> loads_ready (cf_region_size_kb config * 1024) wm'"
proof -
  let ?sz = "cf_region_size_kb config * 1024" and ?num = "wm_num_threads wm"
  let ?wm = "prepare_mem_lat_bw_thread_packet wm config (- 1)"
  note m = map_packets_wf [OF wf, where f = "\<lambda>_ p. (copy_mem_region_config config p)\<lparr>pk_mem_type := 1 + - 1\<rparr>",
      folded prepare_mem_lat_bw_thread_packet_def]
  have "\<exists>q. routine (if i = 0 then Alloc_Lat else Alloc_Bw) (rn_threads env i) (wm_packets ?wm ! i) = ret q \<and>
      loaded_ready ?num ?sz i q" if i: "i < n" for i
  proof (cases "i = 0")
    case True
    obtain r where "MemRegion (te_alloc (rn_threads env 0)) ?sz ?sz (ucast (cf_chunk_size_kb config * 1024))
        (ucast (cf_stride_size_b config)) (mem_type_of (1 + - 1)) (hugepage_type_of (cf_use_hugepage config)) = Inr r"
      using alloc(1) by (auto simp: alloc_succeeds_def)
    from alloc_lat_ready [OF sizes(1) this] m(3) [of 0] n True show ?thesis by (simp add: loaded_ready_def)
  next
    case False
    from alloc_bw_ready [OF alloc(2) i sizes(2) packets [OF i]] m(3) [of i] i n False show ?thesis
      by (simp add: loaded_ready_def)
  qed
  from run_split_returns [where P = "loaded_ready ?num ?sz", OF m(1) n(1) [folded m(2)] calls this]
  obtain wm' where "run_workers env (split_routines Alloc_Lat Alloc_Bw ?wm) = ret wm'" "manager_wf wm'"
    "wm_num_threads wm' = ?num" "\<forall>i < n. loaded_ready ?num ?sz i (wm_packets wm' ! i)"
    unfolding m(2) by blast
  then show ?thesis
    using n by (simp add: setup_memory_regions_loaded_latency_def split_routines_def loads_ready_def)
qed

lemma delay_table_not_Nil: "get_kernels_with_delays m \<noteq> []"
  by (simp add: get_kernels_with_delays_def)

lemma delays_bandwidth_like:
  assumes "build_delays_and_kernels config = Inr items"
  shows "list_all (\<lambda>(delay, k). bandwidth_like k) items"
proof -
  let ?t = "get_kernels_with_delays (cf_read_write_mix config)" and ?req = "sint (cf_load_gen_delay config)"
  have t: "list_all (\<lambda>(delay, k). bandwidth_like k) ?t"
    using delay_table_load [of "cf_read_write_mix config"] bandwidth_like_kernel by (auto simp: list_all_iff)
  have "set (nearest_delay ?req ?t ?req []) \<subseteq> set ?t" using nearest_delay_spec [of ?req ?t ?req "[]"] by auto
  with assms have "set items \<subseteq> set ?t"
    by (auto simp: build_delays_and_kernels_def Let_def split: list.splits if_splits)
  with t show ?thesis unfolding list_all_iff by blast
qed

section \<open>The whole program\<close>

text \<open>
  C3. The loaded-latency program, end to end. Given arguments that the parser accepts and for
  which there are kernels, sizes in range, allocations and thread calls that succeed, and
  clocks that reach their targets, the program ends with status 0 and prints one row for each
  delay of the list but the first, which calibrates: the bandwidth of all threads to within
  \<open>2 ^ -12\<close>, and the latency thread 0 has seen under that load to within \<open>2 ^ -18\<close>.
\<close>

theorem loaded_latency_program:
  fixes envs :: "nat \<Rightarrow> run_env" and config :: configuration
  defines "n \<equiv> unat (cf_num_threads config)"
  assumes parsed: "parse_options (Configuration nc LATENCY_BANDWIDTH) args = Inr config"
    and kernels: "build_delays_and_kernels config = Inr items"
    and mode: "cf_num_threads config \<noteq> 0" "cf_target_duration_s config \<noteq> 0" "unat (cf_stride_size_b config) \<le> 4096"
    and sizes: "latency_sizes_ok config" "8192 \<le> unat (cf_region_size_kb config * 1024)"
    and alloc: "alloc_succeeds (envs 0) 1 config (- 1)" "alloc_bw_succeeds (envs 0) n config (- 1)"
    and calls: "\<forall>j. run_succeeds (envs j) n" and clocks: "clocks_for_sweep envs n config K"
  shows "\<exists>text out. main_loaded_latency envs setup_time hw nc args =
      ret (0, [Text (cf_dump config), Text text, Text setup_time, Text ''delay'', Text ''bandwidth'',
        Text ''latency'', Text '' - '', Text (get_str_access_pattern_short (cf_access_pattern config)), endl] @
        out @ [endl]) \<and>
    loaded_rows envs K config 1 items 0 0 out"
proof -
  obtain shown err and wm :: mem_manager where wm: "WorkerThreadManager hw MemLatBwThreadPacket (cf_num_threads config)
      (all_allowed_cpus (cf_numa_config config)) (\<not> cf_no_binding config) (cf_verbose config) = (shown, err, wm)"
    by (metis prod_cases3)
  note new = new_manager [OF wm]
  have n: "n = unat (wm_num_threads wm)" "0 < n" using mode(1) new(2) by (simp_all add: n_def unat_gt_0)
  have calls0: "run_succeeds (envs j) n" for j using calls by blast
  have pk: "\<And>i. i < n \<Longrightarrow> bp_num_threads (wm_packets wm ! i) = wm_num_threads wm"
    using new_manager_packets [OF wm] unfolding new(2) n_def .
  obtain wm1 where w1: "setup_memory_regions_loaded_latency (envs 0) wm config = ret wm1"
      "wm_num_threads wm1 = wm_num_threads wm" "loads_ready (cf_region_size_kb config * 1024) wm1"
    using setup_loaded_latency_returns [OF new(1) n calls0 sizes alloc pk] by blast
  have num: "cf_num_threads config = wm_num_threads wm1" using w1(2) new(2) by simp
  have secs: "0 < unat (cf_target_duration_s config)" using mode(2) by (simp add: unat_gt_0)
  obtain out where out: "delay_sweep envs 1 config items wm1 0 0 = ret out" "loaded_rows envs K config 1 items 0 0 out"
    using delay_sweep_returns [OF w1(3) num n(2) [unfolded n_def] calls0 [unfolded n_def]
        delays_bandwidth_like [OF kernels] clocks [unfolded n_def] secs mode(3)] by blast
  have "main_loaded_latency envs setup_time hw nc args =
      ret (0, [Text (cf_dump config), Text shown, Text setup_time, Text ''delay'', Text ''bandwidth'',
        Text ''latency'', Text '' - '', Text (get_str_access_pattern_short (cf_access_pattern config)), endl] @
        out @ [endl])"
    using parsed kernels wm w1(1) out(1) by (simp add: main_loaded_latency_def)
  with out(2) show ?thesis by blast
qed

lemma loaded_latency_program_witness:
  "\<exists>out. main_loaded_latency (\<lambda>_. example_run_env) '''' 4 example_machine [] = ret (0, out)"
proof -
  define config where "config = default_configuration example_machine LATENCY_BANDWIDTH"
  have p: "parse_options (Configuration example_machine LATENCY_BANDWIDTH) [] = Inr config"
    by (simp add: parse_options_def cl_parse_def configuration_default default_configuration_def auto_correct_def config_def)
  have cf: "cf_num_threads config = 3" "cf_region_size_kb config = 131072" "cf_chunk_size_kb config = 64"
    "cf_stride_size_b config = 128" "cf_target_duration_s config = 10" "cf_use_hugepage config = 0"
    "cf_load_gen_delay config = 0"
    by (simp_all add: config_def default_configuration_def example_machine_eval)
  obtain items where items: "build_delays_and_kernels config = Inr items"
    using delay_table_not_Nil [of "cf_read_write_mix config"] by (cases "get_kernels_with_delays (cf_read_write_mix config)")
      (simp_all add: build_delays_and_kernels_def cf)
  have sizes: "latency_sizes_ok config" "8192 \<le> unat (cf_region_size_kb config * 1024)"
    by (simp_all add: latency_sizes_ok_def latency_sizes_def cf)
  obtain r where "MemRegion small_env 134217728 134217728 65536 128 NATIVE NONE = Inr r"
    using small_region [of 134217728 65536 128] by auto
  then have alloc_lat: "alloc_succeeds example_run_env 1 config (- 1)"
    by (simp add: alloc_succeeds_def cf example_run_env_def example_thread_env_def mem_type_of_def hugepage_type_of_def)
  obtain r' where "MemRegion small_env 134217728 134217728 4096 64 NATIVE NONE = Inr r'"
    using small_region [of 134217728 4096 64] by auto
  then have alloc_bw: "alloc_bw_succeeds example_run_env (unat (cf_num_threads config)) config (- 1)"
    by (simp add: alloc_bw_succeeds_def cf example_run_env_def example_thread_env_def mem_type_of_def)
  have calls: "\<forall>j :: nat. run_succeeds example_run_env (unat (cf_num_threads config))"
    by (simp add: run_succeeds_def example_run_env_def)
  have clocks: "clocks_for_sweep (\<lambda>_. example_run_env) (unat (cf_num_threads config)) config (\<lambda>_ secs _. unat secs)"
    unfolding clocks_for_sweep_def cf by (intro allI conjI example_readings) simp_all
  have ne: "cf_num_threads config \<noteq> 0" "cf_target_duration_s config \<noteq> 0" "unat (cf_stride_size_b config) \<le> 4096"
    by (simp_all add: cf)
  from loaded_latency_program [where envs = "\<lambda>_. example_run_env", OF p items ne sizes alloc_lat alloc_bw calls clocks]
  show ?thesis by blast
qed

end
