(* ===== verification/Memcpy_Run.thy ===== *)
theory Memcpy_Run
  imports Bandwidth_Run
begin

text \<open>
  The memcpy program from its arguments to its output: a calibrating measurement gives the
  time of one round of fragments, which sets the checkpoints of the second one, whose rate
  is printed when that time is at least a nanosecond.
\<close>

section \<open>The work of a thread\<close>

definition bytes_copied :: "u64 \<Rightarrow> u64 \<Rightarrow> nat \<Rightarrow> nat" where
  "bytes_copied frag ns K = unat frag * nth_check 1 (unat (chkpt_calls ns)) K"

text \<open>
  A calibrating run reads the clock after every call, the second one after up to five
  million: \<open>most_calls\<close> bounds the calls between two readings.
\<close>

definition most_calls :: "u64 \<Rightarrow> nat" where
  "most_calls ns = (if ns > 0 then 5000000 else 1)"

lemma chkpt_calls_bound: "unat (chkpt_calls ns) \<le> most_calls ns"
proof -
  have "unat (5000000 div ns) \<le> 5000000"
    unfolding unat_div using div_le_dividend [of "unat (5000000 :: u64)" "unat ns"] by simp
  then show ?thesis by (simp add: chkpt_calls_def most_calls_def max_def)
qed

text \<open>
  The clocks reach \<open>secs\<close> seconds at their reading \<open>K i\<close>, within \<open>2 ^ 50\<close> nanoseconds and
  before the counters of the bytes overflow, with up to \<open>c\<close> calls between two readings.
\<close>

definition copy_clocks :: "run_env \<Rightarrow> nat \<Rightarrow> u64 \<Rightarrow> nat \<Rightarrow> u32 \<Rightarrow> (nat \<Rightarrow> nat) \<Rightarrow> bool" where
  "copy_clocks env n frag c secs K \<longleftrightarrow>
     (\<forall>i < n. clock_reaches (rn_threads env i) secs (K i) \<and> lat_time (rn_threads env i) (K i) \<le> 2 ^ 50 \<and>
        n * (unat frag * (K i * Suc c)) \<le> 2 ^ 58)"

lemma bytes_copied_bounds:
  assumes "1 \<le> K" and "unat (chkpt_calls ns) \<le> c"
  shows "unat frag \<le> bytes_copied frag ns K" and "bytes_copied frag ns K \<le> unat frag * (K * Suc c)"
    and "nth_check 1 (unat (chkpt_calls ns)) K \<le> K * Suc c" and "K * unat (chkpt_calls ns) \<le> K * Suc c"
proof -
  have c: "K * unat (chkpt_calls ns) \<le> K * c" by (intro mult_le_mono2 assms)
  then show "K * unat (chkpt_calls ns) \<le> K * Suc c" unfolding mult_Suc_right by linarith
  have "1 * nth_check 1 (unat (chkpt_calls ns)) K \<le> K * unat (chkpt_calls ns) + K * 1"
    by (rule nth_check_upper) simp
  with c show k: "nth_check 1 (unat (chkpt_calls ns)) K \<le> K * Suc c" unfolding mult_Suc_right by linarith
  then show "bytes_copied frag ns K \<le> unat frag * (K * Suc c)"
    unfolding bytes_copied_def by (rule mult_le_mono2)
  have "unat frag * 1 \<le> unat frag * nth_check 1 (unat (chkpt_calls ns)) K"
    using assms(1) nth_check_ge [of K 1 "unat (chkpt_calls ns)"] by (intro mult_le_mono2) linarith
  then show "unat frag \<le> bytes_copied frag ns K" by (simp add: bytes_copied_def)
qed

definition copy_ready :: "u64 \<Rightarrow> mem_packet \<Rightarrow> bool" where
  "copy_ready sz p \<longleftrightarrow>
     (\<exists>dst src. pk_mem_region p = Some dst \<and> pk_src_mem_region p = Some src \<and>
       mr_active_size dst = sz \<and> mr_size dst = sz \<and> mr_size src = sz)"

definition copies_ready :: "u64 \<Rightarrow> mem_manager \<Rightarrow> bool" where
  "copies_ready sz wm \<longleftrightarrow> manager_wf wm \<and> list_all (copy_ready sz) (wm_packets wm)"

text \<open>What the threads of one run leave behind.\<close>

definition copied :: "run_env \<Rightarrow> (nat \<Rightarrow> nat) \<Rightarrow> u64 \<Rightarrow> u64 \<Rightarrow> nat \<Rightarrow> mem_packet \<Rightarrow> bool" where
  "copied env K frag ns i q \<longleftrightarrow>
     pk_exec_time q = double (double (of_int (lat_time (rn_threads env i) (K i))) / of_nat (10 ^ 9)) \<and>
     unat (pk_finished_bytes q) = bytes_copied frag ns (K i)"

lemma copy_routine:
  assumes ready: "copy_ready sz p" and frag: "0 < unat (pk_fragment_size p)" "pk_fragment_size p \<le> sz"
    and packet: "pk_kernel_memcpy p = Some glibc_memcpy"
    and clock: "clock_reaches (rn_threads env i) (pk_target_duration p) (K i)"
      "unat (pk_fragment_size p) * (K i * Suc (most_calls (pk_ref_one_exec_time_ns p))) < 2 ^ 64"
  shows "\<exists>q. routine Copy_Fragment (rn_threads env i) p = ret q \<and> copy_ready sz q \<and>
    copied env K (pk_fragment_size p) (pk_ref_one_exec_time_ns p) i q"
proof -
  let ?te = "rn_threads env i" and ?ns = "pk_ref_one_exec_time_ns p"
  obtain dst src where r: "pk_mem_region p = Some dst" "pk_src_mem_region p = Some src"
    "mr_active_size dst = sz" "mr_size dst = sz" "mr_size src = sz"
    using ready by (auto simp: copy_ready_def)
  have "1 \<le> K i" using clock(1) by (simp add: clock_reaches_def)
  note b = bytes_copied_bounds [OF this chkpt_calls_bound [of ?ns]]
  have "1 * (K i * Suc (most_calls ?ns)) \<le> unat (pk_fragment_size p) * (K i * Suc (most_calls ?ns))"
    using frag(1) by (intro mult_le_mono1) simp
  from order_le_less_trans [OF this clock(2)] have k: "K i * Suc (most_calls ?ns) < 2 ^ 64" by (simp only: mult_1)
  have size: "unat (pk_fragment_size p) \<le> unat (mr_active_size dst)" "mr_active_size dst \<le> mr_size dst"
    "mr_active_size dst \<le> mr_size src"
    using frag(2) r by (simp_all add: word_le_nat_alt)
  have clk: "target_reached_at (copy_config ?te p dst src) (K i)"
    unfolding clock_reaches_copy by (rule clock(1))
  obtain m where m: "copy_fragment ?te p = ret (p\<lparr>pk_mem_region := Some (dst\<lparr>mr_bytes := m\<rparr>),
        pk_finished_bytes := of_nat (nth_check 1 (unat (chkpt_calls ?ns)) (K i)) * pk_fragment_size p,
        pk_exec_time := double (double (of_int (te_clock ?te (K i) - te_clock ?te 0)) / 10 ^ 9)\<rparr>)"
    using copy_fragment_returns [OF r(1,2) packet frag(1) size clk
        order_le_less_trans [OF b(3) k] order_le_less_trans [OF b(4) k]] by blast
  have "of_nat (nth_check 1 (unat (chkpt_calls ?ns)) (K i)) * pk_fragment_size p =
      (of_nat (bytes_copied (pk_fragment_size p) ?ns (K i)) :: u64)"
    by (simp only: bytes_copied_def of_nat_mult of_nat_unat_64 mult.commute)
  then have "unat (of_nat (nth_check 1 (unat (chkpt_calls ?ns)) (K i)) * pk_fragment_size p) =
      bytes_copied (pk_fragment_size p) ?ns (K i)"
    using order_le_less_trans [OF b(2) clock(2)] by (simp only: unat_of_nat_64) simp
  with m r show ?thesis by (simp add: copied_def copy_ready_def lat_time_def del: nth_check.simps)
qed

section \<open>One measurement\<close>

definition copy_rate :: "run_env \<Rightarrow> nat \<Rightarrow> (nat \<Rightarrow> nat) \<Rightarrow> u64 \<Rightarrow> u64 \<Rightarrow> rat" where
  "copy_rate env n K frag ns =
     of_nat n * (of_nat (\<Sum>i < n. bytes_copied frag ns (K i)) /
       (of_int (\<Sum>i < n. lat_time (rn_threads env i) (K i)) / 10 ^ 9))"

text \<open>The time in nanoseconds of \<open>n\<close> fragments at a rate of \<open>v\<close> bytes per second, over \<open>2 ^ 30\<close>.\<close>

definition round_ns :: "nat \<Rightarrow> u64 \<Rightarrow> rat \<Rightarrow> rat" where
  "round_ns n frag v = of_nat (n * unat frag) / (v / 2 ^ 30)"

lemma round_bound:
  fixes n f w t :: rat
  assumes "0 < n" and "n * f \<le> w" and "0 < w" and "0 < t" and "t \<le> n * 2 ^ 21"
  shows "n * f / (n * (w / t) / 2 ^ 30) \<le> 2 ^ 51"
proof -
  have "1 \<le> n * 2 ^ 21 / t" using assms(4,5) by (simp add: pos_le_divide_eq)
  then have "w * 1 \<le> w * (n * 2 ^ 21 / t)" using assms(3) by (intro mult_left_mono) simp_all
  also have "\<dots> = 2 ^ 51 * (n * (w / t) / 2 ^ 30)" by simp
  finally have "n * f \<le> 2 ^ 51 * (n * (w / t) / 2 ^ 30)" using assms(2) by linarith
  moreover have "0 < n * (w / t) / 2 ^ 30" using assms by simp
  ultimately show ?thesis by (simp only: pos_divide_le_eq)
qed

lemma copied_average:
  assumes clocks: "copy_clocks env n frag (most_calls ns) secs K" and secs: "0 < unat secs"
    and n: "n = unat num" "0 < n" and frag: "0 < unat frag"
    and ps: "length ps = n" "\<And>i. i < n \<Longrightarrow> copied env K frag ns i (ps ! i)"
  defines "v \<equiv> copy_rate env n K frag ns"
  shows "\<exists>bw. average_bandwidth num (total_of pk_finished_bytes ps) (total_exec_time ps) = Inr bw \<and> 0 \<le> bw \<and>
    (let mbps = double (double (bw / 1024) / 1024)
     in close_to (v / 2 ^ 20) mbps \<and> close_to (v / 2 ^ 30) (double (mbps / 1024)))"
    and "0 < v" and "round_ns n frag v \<le> 2 ^ 51"
proof -
  let ?t = "\<lambda>i. lat_time (rn_threads env i) (K i)" and ?b = "\<lambda>i. bytes_copied frag ns (K i)"
  let ?T = "\<Sum>i < n. ?t i" and ?W = "\<Sum>i < n. ?b i"
  have c: "clock_reaches (rn_threads env i) secs (K i)" "?t i \<le> 2 ^ 50"
    "n * (unat frag * (K i * Suc (most_calls ns))) \<le> 2 ^ 58" if "i < n" for i
    using clocks that unfolding copy_clocks_def by blast+
  have st: "1 \<le> K i" "uint secs * 1000000000 \<le> ?t i" if "i < n" for i
    using c(1) [OF that] by (simp_all add: clock_reaches_def lat_time_def)
  have "1 \<le> uint secs" unfolding uint_nat using secs by linarith
  then have t: "0 \<le> ?t i \<and> ?t i < 2 ^ 53 \<and> 1000000000 \<le> ?t i" if "i < n" for i
    using st(2) [OF that] c(2) [OF that] by simp
  have b: "unat frag \<le> ?b i \<and> n * ?b i \<le> 2 ^ 58" if "i < n" for i
    using bytes_copied_bounds(1,2) [OF st(1) [OF that] chkpt_calls_bound [of ns], of frag] c(3) [OF that] mult_le_mono2 [of "?b i" _ n]
    by (meson order_trans)
  have "n * ?W \<le> n * 2 ^ 58"
    unfolding sum_distrib_left using sum_bounded_above [of "{..<n}" "\<lambda>i. n * ?b i" "2 ^ 58"] b by simp
  then have W58: "?W \<le> 2 ^ 58" using n(2) by simp
  have W1: "n * unat frag \<le> ?W"
    using sum_bounded_below [of "{..<n}" "unat frag" ?b] b by simp
  have bytes: "unat (pk_finished_bytes (ps ! i)) = ?b i" if "i < n" for i
    using ps(2) [OF that] by (simp only: copied_def)
  have eq: "(\<Sum>i < n. unat (pk_finished_bytes (ps ! i))) = ?W" using bytes by (intro sum.cong) simp_all
  have sum: "unat (total_of pk_finished_bytes ps) = ?W"
    using total_of_packets [OF ps(1), of pk_finished_bytes] W58 unfolding eq by simp
  have exec: "pk_exec_time (ps ! i) = double (double (of_int (?t i)) / of_nat (10 ^ 9))" if "i < n" for i
    using ps(2) [OF that] by (simp only: copied_def)
  note time = total_time_close [of ps n ?t, OF ps(1) n(2) exec t]
  have n0: "(0 :: rat) < of_nat n" using n(2) by simp
  then have T0: "0 < (of_int ?T / 10 ^ 9 :: rat)" using time(2) by (rule order_less_le_trans)
  have W0: "0 \<le> (of_nat ?W :: rat)" by (rule of_nat_0_le_iff)
  have near: "\<bar>of_nat (unat (total_of pk_finished_bytes ps)) - of_nat ?W\<bar> \<le> (of_nat ?W :: rat) * (1 / 2 ^ 13 + 1 / 2 ^ 21)"
    unfolding sum using W0 by simp
  have v: "v = of_nat (unat num) * (of_nat ?W / (of_int ?T / 10 ^ 9))" unfolding v_def copy_rate_def n(1) ..
  have "Suc n \<le> 2 ^ 34" using unat_lt_32 [of num] n(1) by simp
  from average_bandwidth_close [OF W0 near time(1) T0 this, of num]
  show "\<exists>bw. average_bandwidth num (total_of pk_finished_bytes ps) (total_exec_time ps) = Inr bw \<and> 0 \<le> bw \<and>
    (let mbps = double (double (bw / 1024) / 1024)
     in close_to (v / 2 ^ 20) mbps \<and> close_to (v / 2 ^ 30) (double (mbps / 1024)))"
    unfolding v .
  have "0 < n * unat frag" using n(2) frag by simp
  then have Wp: "0 < ?W" using W1 by (rule order_less_le_trans)
  then have Wp: "0 < (of_nat ?W :: rat)" by (simp only: of_nat_0_less_iff)
  show v0: "0 < v" unfolding v n(1) [symmetric] by (rule mult_pos_pos [OF n0 divide_pos_pos [OF Wp T0]])
  have "?T \<le> int n * 2 ^ 50" using sum_bounded_above [of "{..<n}" ?t "2 ^ 50"] c(2) by simp
  then have "(of_int ?T :: rat) \<le> of_int (int n * 2 ^ 50)" by (simp only: of_int_le_iff)
  then have T: "of_int ?T / 10 ^ 9 \<le> (of_nat n :: rat) * 2 ^ 21"
    by (simp only: of_int_mult of_int_of_nat_eq of_int_power of_int_numeral) simp
  have W1': "of_nat n * of_nat (unat frag) \<le> (of_nat ?W :: rat)"
    using W1 by (simp only: of_nat_mult [symmetric] of_nat_le_iff)
  show "round_ns n frag v \<le> 2 ^ 51"
    unfolding round_ns_def v n(1) [symmetric] of_nat_mult by (rule round_bound [OF n0 W1' Wp T0 T])
qed

lemma round_close:
  fixes c v g u :: rat
  assumes u: "near 1 c u" and v: "0 < v" and g: "close_to v g"
  shows "0 < g" and "0 \<le> double (u / g)" and "\<bar>double (u / g) - c / v\<bar> \<le> c / v / 2 ^ 11"
proof -
  have g1: "v * (1 - 1 / 2 ^ 12) \<le> g" "g \<le> v * (1 + 1 / 2 ^ 12)"
    using abs_le_D1 [OF g [unfolded close_to_def]] abs_le_D2 [OF g [unfolded close_to_def]]
    by (simp_all add: algebra_simps)
  have "0 < v * (1 - 1 / 2 ^ 12)" using v by simp
  with g1(1) show g0: "0 < g" by linarith
  have c: "0 \<le> c" using u by (simp add: near_def)
  have cv: "0 \<le> c / v" using c v by simp
  have k: "(1 :: nat) \<le> 2 ^ 34" by simp
  note uc = near_close [OF u k]
  have u0: "0 \<le> u" by (rule near_nonneg [OF u])
  have "0 \<le> u / g" using u0 g0 by simp
  then have q: "near (Suc 0) (u / g) (double (u / g))" by (intro near_double near_refl)
  then show "0 \<le> double (u / g)" by (rule near_nonneg)
  note qc = near_close [OF q k [unfolded One_nat_def]]
  have "u / g \<le> (c * (1 + 1 / 2 ^ 18)) / (v * (1 - 1 / 2 ^ 12))"
    using uc(2) g1(1) v c by (intro frac_le) simp_all
  also have "\<dots> = c / v * ((1 + 1 / 2 ^ 18) / (1 - 1 / 2 ^ 12))" by simp
  finally have "u / g * (1 + 1 / 2 ^ 18) \<le> c / v * ((1 + 1 / 2 ^ 18) / (1 - 1 / 2 ^ 12)) * (1 + 1 / 2 ^ 18)"
    by (rule mult_right_mono) simp
  also have "\<dots> = c / v * ((1 + 1 / 2 ^ 18) / (1 - 1 / 2 ^ 12) * (1 + 1 / 2 ^ 18))" by (rule mult.assoc)
  also have "\<dots> \<le> c / v * (1 + 1 / 2 ^ 11)" by (rule mult_left_mono [OF _ cv]) simp
  finally have up: "double (u / g) \<le> c / v * (1 + 1 / 2 ^ 11)" using qc(2) by linarith
  have "c / v * ((1 - 1 / 2 ^ 19) / (1 + 1 / 2 ^ 12)) = (c * (1 - 1 / 2 ^ 19)) / (v * (1 + 1 / 2 ^ 12))" by simp
  also have "\<dots> \<le> u / g" using uc(1) g1(2) u0 g0 by (intro frac_le) simp_all
  finally have "c / v * ((1 - 1 / 2 ^ 19) / (1 + 1 / 2 ^ 12)) * (1 - 1 / 2 ^ 19) \<le> u / g * (1 - 1 / 2 ^ 19)"
    by (rule mult_right_mono) simp
  moreover have "c / v * ((1 - 1 / 2 ^ 19) / (1 + 1 / 2 ^ 12)) * (1 - 1 / 2 ^ 19) =
      c / v * ((1 - 1 / 2 ^ 19) / (1 + 1 / 2 ^ 12) * (1 - 1 / 2 ^ 19))" by (rule mult.assoc)
  moreover have "c / v * (1 - 1 / 2 ^ 11) \<le> c / v * ((1 - 1 / 2 ^ 19) / (1 + 1 / 2 ^ 12) * (1 - 1 / 2 ^ 19))"
    by (rule mult_left_mono [OF _ cv]) simp
  ultimately have "c / v * (1 - 1 / 2 ^ 11) \<le> double (u / g)" using qc(1) by linarith
  then show "\<bar>double (u / g) - c / v\<bar> \<le> c / v / 2 ^ 11"
    using up unfolding abs_le_iff right_diff_distrib distrib_left mult_1_right by simp
qed

lemma to_u64_ok:
  assumes "0 \<le> x" and "x < 2 ^ 64"
  shows "\<exists>g :: u64. map_sum id word_of_int (to_unsigned 64 x) = Inr g \<and> int (unat g) = \<lfloor>x\<rfloor>"
proof -
  have "0 \<le> \<lfloor>x\<rfloor>" "\<lfloor>x\<rfloor> < 2 ^ 64" using assms by (simp_all add: floor_less_iff)
  then show ?thesis using assms(1) by (simp add: to_unsigned_def Let_def uint_word_of_int)
qed

definition memcpy_row :: "rat \<Rightarrow> rat \<Rightarrow> event list" where
  "memcpy_row mb gb =
     [Text ''Memcpy Bandwidth: '', Number mb, Text '' MB/s | '', Number gb, Text '' GB/s'', endl]"

lemma measure_memcpy_returns:
  fixes ns :: u64
  assumes ready: "copies_ready sz wm" and n: "n = unat (wm_num_threads wm)" "0 < n"
    and num: "cf_num_threads config = wm_num_threads wm" and calls: "run_succeeds env n"
    and frag: "0 < cf_fragment_size_b config" "cf_fragment_size_b config \<le> sz"
    and clocks: "copy_clocks env n (cf_fragment_size_b config) (most_calls ns) (if ns > 0 then cf_target_duration_s config else 1) K"
    and secs: "0 < unat (cf_target_duration_s config)"
  defines "v \<equiv> copy_rate env n K (cf_fragment_size_b config) ns"
  shows "\<exists>mb gb wm' ns'. measure_memcpy_bandwidth env wm glibc_memcpy config ns =
      ret (if ns > 0 then memcpy_row mb gb else [], wm', ns') \<and>
    close_to (v / 2 ^ 20) mb \<and> close_to (v / 2 ^ 30) gb \<and>
    \<bar>of_nat (unat ns') - round_ns n (cf_fragment_size_b config) v\<bar>
      \<le> round_ns n (cf_fragment_size_b config) v / 2 ^ 11 + 1 \<and>
    copies_ready sz wm' \<and> wm_num_threads wm' = wm_num_threads wm"
proof -
  let ?num = "wm_num_threads wm" and ?secs = "if ns > 0 then cf_target_duration_s config else 1"
    and ?frag = "cf_fragment_size_b config"
  let ?wm = "map_packets (\<lambda>_. memcpy_packet glibc_memcpy config ns) wm"
  have wf: "manager_wf wm" and pk: "\<And>i. i < n \<Longrightarrow> copy_ready sz (wm_packets wm ! i)"
    using ready n(1) by (simp_all add: copies_ready_def list_all_length manager_wf_def)
  note m = map_packets_wf [OF wf, where f = "\<lambda>_. memcpy_packet glibc_memcpy config ns"]
  have frag0: "0 < unat ?frag" using frag(1) by (simp add: word_less_nat_alt)
  have bytes: "n * (unat ?frag * (K i * Suc (most_calls ns))) \<le> 2 ^ 58" if "i < n" for i
    using clocks that unfolding copy_clocks_def by blast
  have "\<exists>q. routine Copy_Fragment (rn_threads env i) (wm_packets ?wm ! i) = ret q \<and>
      copy_ready sz q \<and> copied env K ?frag ns i q" if i: "i < n" for i
  proof -
    let ?p = "memcpy_packet glibc_memcpy config ns (wm_packets wm ! i)"
    have p: "copy_ready sz ?p" "pk_kernel_memcpy ?p = Some glibc_memcpy" "pk_target_duration ?p = ?secs"
      "pk_fragment_size ?p = ?frag" "pk_ref_one_exec_time_ns ?p = ns"
      using pk [OF i] by (simp_all add: memcpy_packet_def copy_ready_def)
    have c: "clock_reaches (rn_threads env i) (pk_target_duration ?p) (K i)"
      using clocks i unfolding copy_clocks_def p(3) by blast
    have "1 * (unat ?frag * (K i * Suc (most_calls ns))) \<le> n * (unat ?frag * (K i * Suc (most_calls ns)))"
      using n(2) by (intro mult_le_mono1) simp
    from order_trans [OF this bytes [OF i]] have "unat ?frag * (K i * Suc (most_calls ns)) \<le> 2 ^ 58" by (simp only: mult_1)
    moreover have "(2 :: nat) ^ 58 < 2 ^ 64" by simp
    ultimately have "unat ?frag * (K i * Suc (most_calls ns)) < 2 ^ 64" by (rule order_le_less_trans)
    with copy_routine [where K = K and i = i and env = env, OF p(1) _ _ p(2) c] frag0 frag(2) show ?thesis
      using m(3) [of i] i n unfolding p(4,5) by simp
  qed
  from run_routine_returns [where P = "\<lambda>i q. copy_ready sz q \<and> copied env K ?frag ns i q",
      OF m(1) n(1) [folded m(2)] calls this]
  obtain wm' where w: "run_routine env Copy_Fragment ?wm = ret wm'" "manager_wf wm'" "wm_num_threads wm' = wm_num_threads ?wm"
    "\<forall>i < n. copy_ready sz (wm_packets wm' ! i) \<and> copied env K ?frag ns i (wm_packets wm' ! i)" by blast
  have num': "wm_num_threads wm' = ?num" using w(3) m(2) by simp
  have len: "length (wm_packets wm') = n" using w(2) num' n(1) by (simp add: manager_wf_def)
  have ready': "copies_ready sz wm'" using w(2,4) num' len by (simp add: copies_ready_def list_all_length)
  have s: "0 < unat ?secs" using secs by simp
  have st: "\<And>i. i < n \<Longrightarrow> copied env K ?frag ns i (wm_packets wm' ! i)" using w(4) by blast
  note avg = copied_average [OF clocks s n frag0 len st, folded v_def]
  obtain bw where bw: "average_bandwidth ?num (total_of pk_finished_bytes (wm_packets wm')) (total_exec_time (wm_packets wm')) = Inr bw"
      "0 \<le> bw" "close_to (v / 2 ^ 20) (double (double (bw / 1024) / 1024))"
      "close_to (v / 2 ^ 30) (double (double (double (bw / 1024) / 1024) / 1024))"
    using avg(1) by (auto simp: Let_def)
  let ?gb = "double (double (double (bw / 1024) / 1024) / 1024)"
  have "clock_reaches (rn_threads env 0) ?secs (K 0)" using clocks n(2) unfolding copy_clocks_def by blast
  then have "0 < K 0" by (simp add: clock_reaches_def)
  then have "n * unat ?frag * 1 \<le> n * unat ?frag * (K 0 * Suc (most_calls ns))" by (intro mult_le_mono2) simp
  then have nf: "n * unat ?frag \<le> 2 ^ 58" using bytes [OF n(2)] unfolding mult.assoc by linarith
  then have "unat (?frag * ucast ?num) = n * unat ?frag"
    using n(1) by (subst unat_mult_64) (simp_all add: mult.commute)
  then have u: "near 1 (of_nat (n * unat ?frag)) (u64_double (?frag * ucast ?num))"
    unfolding u64_double_def One_nat_def by (simp only:) (intro near_double near_refl of_nat_0_le_iff)
  have v30: "0 < v / 2 ^ 30" using avg(2) by simp
  note r = round_close [OF u v30 bw(4), folded round_ns_def]
  let ?x = "double (u64_double (?frag * ucast ?num) / ?gb)"
  have "?x \<le> round_ns n ?frag v + round_ns n ?frag v / 2 ^ 11" using abs_le_D1 [OF r(3)] by linarith
  then have "?x < 2 ^ 64" using avg(3) by simp
  then obtain ns' :: u64 where ns': "map_sum id word_of_int (to_unsigned 64 ?x) = Inr ns'" "int (unat ns') = \<lfloor>?x\<rfloor>"
    using to_u64_ok [OF r(2)] by blast
  have fl: "of_int \<lfloor>?x\<rfloor> = (of_nat (unat ns') :: rat)" unfolding ns'(2) [symmetric] by (rule of_int_of_nat_eq)
  have "of_nat (unat ns') \<le> ?x" "?x < of_nat (unat ns') + 1"
    using floor_correct [of ?x] unfolding of_int_add fl by simp_all
  then have close: "\<bar>of_nat (unat ns') - round_ns n ?frag v\<bar> \<le> round_ns n ?frag v / 2 ^ 11 + 1"
    using r(3) unfolding abs_le_iff by linarith
  have "fdiv (u64_double (?frag * ucast ?num)) ?gb = Inr ?x" using r(1) by (simp add: fdiv_def)
  then have "measure_memcpy_bandwidth env wm glibc_memcpy config ns =
      ret (if ns > 0 then memcpy_row (double (double (bw / 1024) / 1024)) ?gb else [], wm', ns')"
    using w(1) bw(1) ns'(1) num by (simp add: measure_memcpy_bandwidth_def Let_def memcpy_row_def)
  with bw(3,4) close ready' num' show ?thesis by blast
qed

section \<open>The whole program\<close>

definition alloc_copy_succeeds :: "run_env \<Rightarrow> nat \<Rightarrow> u64 \<Rightarrow> bool" where
  "alloc_copy_succeeds env n sz \<longleftrightarrow>
     (\<forall>i < n. \<exists>r. MemRegion (te_alloc (rn_threads env i)) sz sz 4096 64 NATIVE NONE = Inr r)"

lemma setup_memcpy_returns:
  assumes wf: "manager_wf wm" and n: "n = unat (wm_num_threads wm)" and calls: "run_succeeds env n"
    and alloc: "alloc_copy_succeeds env n (cf_region_size_kb config * 1024)"
  shows "\<exists>wm'. setup_memory_regions_memcpy env wm config = ret wm' \<and>
    wm_num_threads wm' = wm_num_threads wm \<and> copies_ready (cf_region_size_kb config * 1024) wm'"
proof -
  let ?sz = "cf_region_size_kb config * 1024" and ?wm = "prepare_mem_lat_bw_thread_packet wm config (- 1)"
  note m = map_packets_wf [OF wf, where f = "\<lambda>_ p. (copy_mem_region_config config p)\<lparr>pk_mem_type := 1 + - 1\<rparr>",
      folded prepare_mem_lat_bw_thread_packet_def]
  have "\<exists>q. routine Alloc_Memcpy (rn_threads env i) (wm_packets ?wm ! i) = ret q \<and> copy_ready ?sz q" if i: "i < n" for i
  proof -
    obtain r where r: "MemRegion (te_alloc (rn_threads env i)) ?sz ?sz 4096 64 NATIVE NONE = Inr r"
      using alloc i by (auto simp: alloc_copy_succeeds_def)
    from MemRegion_fields [OF r] r m(3) [of i] i n show ?thesis
      by (simp add: mem_region_alloc_memcpy_def copy_mem_region_config_def copy_ready_def)
  qed
  from run_routine_returns [where P = "\<lambda>i q. copy_ready ?sz q", OF m(1) n [folded m(2)] calls this]
  obtain wm' where w: "run_routine env Alloc_Memcpy ?wm = ret wm'" "manager_wf wm'" "wm_num_threads wm' = wm_num_threads ?wm"
    "\<forall>i < n. copy_ready ?sz (wm_packets wm' ! i)" by blast
  then have "copies_ready ?sz wm'"
    using n m(2) by (simp add: copies_ready_def list_all_length manager_wf_def)
  with w m(2) show ?thesis by (simp add: setup_memory_regions_memcpy_def)
qed

lemma memcpy_config_fields:
  assumes "memcpy_config config0 = Inr config"
  shows "0 < cf_fragment_size_b config" and "cf_fragment_size_b config \<le> cf_region_size_kb config * 1024"
  using assms by (auto simp: memcpy_config_def Let_def word_greater_zero_iff split: if_splits)

text \<open>
  C4. The memcpy program, end to end. Given arguments that the parser and the check of the
  fragment size accept, allocations and thread calls that succeed, clocks that reach their
  targets, and a first measurement in which a round of the threads takes at least two
  nanoseconds, the program ends with status 0 and prints the rate at which its threads have
  copied in the second measurement, to within \<open>2 ^ -12\<close>; the distance of the checkpoints in
  it is set by \<open>ns\<close>, the time of a round in the first, to within \<open>2 ^ -11\<close> and a nanosecond.
\<close>

theorem memcpy_program:
  fixes envs :: "nat \<Rightarrow> run_env" and config :: configuration
  defines "n \<equiv> unat (cf_num_threads config)" and "frag \<equiv> cf_fragment_size_b config"
    and "secs \<equiv> cf_target_duration_s config"
  assumes parsed: "parse_options (Configuration nc MEMCPY) args = Inr config0" "memcpy_config config0 = Inr config"
    and mode: "cf_num_threads config \<noteq> 0" "cf_target_duration_s config \<noteq> 0"
    and alloc: "alloc_copy_succeeds (envs 0) n (cf_region_size_kb config * 1024)"
    and calls: "\<forall>j < 3. run_succeeds (envs j) n"
    and clocks: "copy_clocks (envs 1) n frag 1 1 K1" "copy_clocks (envs 2) n frag 5000000 secs K2"
    and slow: "2 \<le> round_ns n frag (copy_rate (envs 1) n K1 frag 0)"
  shows "\<exists>text mb gb ns. main_memcpy envs setup_time hw nc args =
      ret (0, [Text (cf_dump config), Text text, Text setup_time] @ memcpy_row mb gb @ [endl]) \<and>
    \<bar>of_nat (unat ns) - round_ns n frag (copy_rate (envs 1) n K1 frag 0)\<bar>
      \<le> round_ns n frag (copy_rate (envs 1) n K1 frag 0) / 2 ^ 11 + 1 \<and>
    close_to (copy_rate (envs 2) n K2 frag ns / 2 ^ 20) mb \<and> close_to (copy_rate (envs 2) n K2 frag ns / 2 ^ 30) gb"
proof -
  let ?x = "round_ns n frag (copy_rate (envs 1) n K1 frag 0)" and ?sz = "cf_region_size_kb config * 1024"
  obtain shown err and wm :: mem_manager where wm: "WorkerThreadManager hw MemLatBwThreadPacket (cf_num_threads config)
      (all_allowed_cpus (cf_numa_config config)) (\<not> cf_no_binding config) (cf_verbose config) = (shown, err, wm)"
    by (metis prod_cases3)
  note new = new_manager [OF wm]
  have n: "n = unat (wm_num_threads wm)" "0 < n" using mode(1) new(2) by (simp_all add: n_def unat_gt_0)
  have calls0: "run_succeeds (envs 0) n" "run_succeeds (envs 1) n" "run_succeeds (envs 2) n" using calls by simp_all
  obtain wm1 where w1: "setup_memory_regions_memcpy (envs 0) wm config = ret wm1"
      "wm_num_threads wm1 = wm_num_threads wm" "copies_ready ?sz wm1"
    using setup_memcpy_returns [OF new(1) n(1) calls0(1) alloc] by blast
  have num1: "cf_num_threads config = wm_num_threads wm1" using w1(2) new(2) by simp
  have s: "0 < unat (cf_target_duration_s config)" using mode(2) by (simp add: unat_gt_0)
  note f = memcpy_config_fields [OF parsed(2)]
  have c1: "copy_clocks (envs 1) n (cf_fragment_size_b config) (most_calls 0)
      (if (0 :: u64) > 0 then cf_target_duration_s config else 1) K1"
    using clocks(1) by (simp add: most_calls_def frag_def)
  obtain wm2 ns where one: "measure_memcpy_bandwidth (envs 1) wm1 glibc_memcpy config 0 = ret ([], wm2, ns)"
      "\<bar>of_nat (unat ns) - ?x\<bar> \<le> ?x / 2 ^ 11 + 1" "copies_ready ?sz wm2" "wm_num_threads wm2 = wm_num_threads wm1"
    using measure_memcpy_returns [OF w1(3) n(1) [folded w1(2)] n(2) num1 calls0(2) f c1 s] unfolding frag_def by auto
  have "?x - ?x / 2 ^ 11 - 1 \<le> of_nat (unat ns)" using abs_le_D2 [OF one(2)] by linarith
  moreover have "?x / 2 ^ 11 + 1 < ?x" using slow by simp
  ultimately have "(0 :: rat) < of_nat (unat ns)" by linarith
  then have "0 < unat ns" by (simp only: of_nat_0_less_iff)
  then have ns: "ns > 0" by (simp add: word_less_nat_alt)
  have c2: "copy_clocks (envs 2) n (cf_fragment_size_b config) (most_calls ns)
      (if ns > 0 then cf_target_duration_s config else 1) K2"
    using clocks(2) ns by (simp add: most_calls_def frag_def secs_def)
  have n2: "n = unat (wm_num_threads wm2)" "cf_num_threads config = wm_num_threads wm2"
    using one(4) w1(2) n(1) num1 by simp_all
  obtain mb gb wm3 ns' where two: "measure_memcpy_bandwidth (envs 2) wm2 glibc_memcpy config ns =
      ret (memcpy_row mb gb, wm3, ns')"
      "close_to (copy_rate (envs 2) n K2 frag ns / 2 ^ 20) mb" "close_to (copy_rate (envs 2) n K2 frag ns / 2 ^ 30) gb"
    using measure_memcpy_returns [OF one(3) n2(1) n(2) n2(2) calls0(3) f c2 s] ns unfolding frag_def by auto
  have "main_memcpy envs setup_time hw nc args =
      ret (0, [Text (cf_dump config), Text shown, Text setup_time] @ memcpy_row mb gb @ [endl])"
    using parsed wm w1(1) one(1) two(1) by (simp add: main_memcpy_def)
  with one(2) two(2,3) show ?thesis by blast
qed

lemma memcpy_program_witness:
  "\<exists>out. main_memcpy (\<lambda>_. example_run_env) '''' 4 example_machine [] = ret (0, out)"
proof -
  define config0 where "config0 = default_configuration example_machine MEMCPY"
  have p: "parse_options (Configuration example_machine MEMCPY) [] = Inr config0"
    by (simp add: parse_options_def cl_parse_def configuration_default default_configuration_def auto_correct_def config0_def)
  have cf0: "cf_fragment_size_b config0 = 0" "cf_region_size_kb config0 = 131072" "cf_num_threads config0 = 3"
    "cf_target_duration_s config0 = 10"
    by (simp_all add: config0_def default_configuration_def example_machine_eval)
  define config where "config = config0\<lparr>cf_fragment_size_b := 134217728\<rparr>"
  have acc: "memcpy_config config0 = Inr config" by (simp add: memcpy_config_def config_def cf0)
  have cf: "cf_fragment_size_b config = 134217728" "cf_region_size_kb config = 131072" "cf_num_threads config = 3"
    "cf_target_duration_s config = 10"
    by (simp_all add: config_def cf0)
  obtain r where "MemRegion small_env 134217728 134217728 4096 64 NATIVE NONE = Inr r"
    using small_region [of 134217728 4096 64] by auto
  then have alloc: "alloc_copy_succeeds example_run_env (unat (cf_num_threads config)) (cf_region_size_kb config * 1024)"
    by (simp add: alloc_copy_succeeds_def cf example_run_env_def example_thread_env_def)
  have calls: "\<forall>j < (3 :: nat). run_succeeds example_run_env (unat (cf_num_threads config))"
    by (simp add: run_succeeds_def example_run_env_def)
  have time: "clock_reaches (rn_threads example_run_env i) 1 1" "clock_reaches (rn_threads example_run_env i) 10 10"
    "lat_time (rn_threads example_run_env i) k = int k * 1000000000" for i k
    by (simp_all add: clock_reaches_def lat_time_def example_run_env_def example_thread_env_def)
  have clocks: "copy_clocks example_run_env (unat (cf_num_threads config)) (cf_fragment_size_b config) 1 1 (\<lambda>_. 1)"
    "copy_clocks example_run_env (unat (cf_num_threads config)) (cf_fragment_size_b config) 5000000
      (cf_target_duration_s config) (\<lambda>_. 10)"
    using time(1,2) by (simp_all add: copy_clocks_def cf time(3))
  have "bytes_copied (cf_fragment_size_b config) 0 1 = 268435456"
    by (simp add: bytes_copied_def chkpt_calls_def cf numeral_eq_Suc [of "num.One"])
  then have "copy_rate example_run_env 3 (\<lambda>_. 1) (cf_fragment_size_b config) 0 = 805306368"
    by (simp add: copy_rate_def time)
  then have slow: "2 \<le> round_ns (unat (cf_num_threads config)) (cf_fragment_size_b config)
      (copy_rate example_run_env (unat (cf_num_threads config)) (\<lambda>_. 1) (cf_fragment_size_b config) 0)"
    by (simp add: round_ns_def cf)
  have ne: "cf_num_threads config \<noteq> 0" "cf_target_duration_s config \<noteq> 0" by (simp_all add: cf)
  from memcpy_program [where envs = "\<lambda>_. example_run_env", OF p acc ne alloc calls clocks slow]
  show ?thesis by blast
qed

end
