(* ===== verification/Zero_Threads.thy ===== *)
theory Zero_Threads
  imports Loaded_Run Memcpy_Run Branch_Program
begin

text \<open>
  What the programs do when they are asked for no threads: only the branch program rejects
  the number; the others average over nothing.
\<close>

lemma run_no_threads:
  assumes "manager_wf wm" and "wm_num_threads wm = 0"
  shows "\<exists>wm'. run_workers env wm = ret wm' \<and> manager_wf wm' \<and> wm_num_threads wm' = 0 \<and> wm_packets wm' = []"
    and "\<exists>wm'. run_routine env r wm = ret wm' \<and> manager_wf wm' \<and> wm_num_threads wm' = 0 \<and> wm_packets wm' = []"
proof -
  have n: "0 = unat (wm_num_threads wm)" using assms(2) by simp
  have calls: "run_succeeds env 0" by (simp add: run_succeeds_def)
  have none: "wm_packets wm' = []" if "manager_wf wm'" "wm_num_threads wm' = 0" for wm' :: mem_manager
    using that by (simp add: manager_wf_def)
  show "\<exists>wm'. run_workers env wm = ret wm' \<and> manager_wf wm' \<and> wm_num_threads wm' = 0 \<and> wm_packets wm' = []"
    using run_workers_returns [OF assms(1) n calls, of "\<lambda>_ _. True"] assms(2) none by auto
  show "\<exists>wm'. run_routine env r wm = ret wm' \<and> manager_wf wm' \<and> wm_num_threads wm' = 0 \<and> wm_packets wm' = []"
    using run_routine_returns [OF assms(1) n calls, of _ "\<lambda>_ _. True"] assms(2) none by auto
qed

definition no_number :: fault where
  "no_number = Undefined_Behaviour ''floating-point value out of range''"

lemma nothing_to_average:
  "average_latency [] = Inl no_number"
  "average_bandwidth num (total_of f []) (total_exec_time []) = Inl no_number"
  by (simp_all add: average_latency_def average_bandwidth_def total_of_def total_exec_time_def fdiv_def
      u64_double_def no_number_def)

lemma no_packets_stay:
  assumes "manager_wf wm" and "wm_num_threads wm = 0"
  shows "manager_wf (map_packets f wm)" and "wm_num_threads (map_packets f wm) = 0"
    and "manager_wf (setRoutine_if r pred wm)" and "wm_num_threads (setRoutine_if r pred wm) = 0"
  using map_packets_wf(1,2) [OF assms(1)] setRoutine_if_wf(1,2) [OF assms(1)] assms(2) by simp_all

lemma measure_no_threads:
  assumes wm: "manager_wf wm" "wm_num_threads wm = 0"
  shows "measure_idle_latency env wm config ps = fail no_number"
    and "measure_peak_bandwidth env wm k config mix gbps = fail no_number"
    and "measure_memcpy_bandwidth env wm copy config ns = fail no_number"
    and "measure_loaded_latency env wm k config ps gbps delay =
      fail (Undefined_Behaviour ''packet 0 of an empty vector'')"
proof -
  note stay = no_packets_stay [OF wm]
  show "measure_idle_latency env wm config ps = fail no_number"
    using run_no_threads(2) [OF stay(1,2), of env Lat_Ptr "\<lambda>_. idle_latency_packet config ps"]
    by (auto simp: measure_idle_latency_def nothing_to_average)
  show "measure_peak_bandwidth env wm k config mix gbps = fail no_number"
    using run_no_threads(2) [OF stay(1,2), of env Bw_Sequential "\<lambda>_. peak_bandwidth_packet k config mix gbps"]
    by (auto simp: measure_peak_bandwidth_def nothing_to_average)
  show "measure_memcpy_bandwidth env wm copy config ns = fail no_number"
    using run_no_threads(2) [OF stay(1,2), of env Copy_Fragment "\<lambda>_. memcpy_packet copy config ns"]
    by (auto simp: measure_memcpy_bandwidth_def nothing_to_average)
  show "measure_loaded_latency env wm k config ps gbps delay =
      fail (Undefined_Behaviour ''packet 0 of an empty vector'')"
    using run_no_threads(1) [OF no_packets_stay(3,4) [OF no_packets_stay(3,4) [OF stay(1,2)]], of env
        "Some Bw_Sequential" "\<lambda>idx. idx > 0" "Some Lat_Ptr" "\<lambda>idx. idx = 0" "loaded_latency_packet k config ps gbps"]
    by (auto simp: measure_loaded_latency_def)
qed

text \<open>
  C28. Without threads. With \<open>num_threads\<close> 0, which only the branch program rejects, the four
  memory programs get through their setup and then convert the average over no threads, which
  is not a number, to an integer, or read the first packet of none: both are undefined.
\<close>

theorem zero_threads_undefined:
  assumes parsed: "parse_options (Configuration nc t) args = Inr config" and zero: "cf_num_threads config = 0"
    and mode: "\<not> cf_latency_matrix config" "\<not> cf_bandwidth_matrix config"
    and kernels: "build_delays_and_kernels config = Inr items" and fragment: "memcpy_config config = Inr config'"
  shows "case t of
      LATENCY \<Rightarrow> main_idle_latency envs hw nc args = fail no_number
    | BANDWIDTH \<Rightarrow> main_peak_bandwidth envs setup_time hw nc args = fail no_number
    | MEMCPY \<Rightarrow> main_memcpy (envs 0 0) setup_time hw nc args = fail no_number
    | LATENCY_BANDWIDTH \<Rightarrow> main_loaded_latency (envs 0 0) setup_time hw nc args =
        fail (Undefined_Behaviour ''packet 0 of an empty vector'')
    | BRANCH_THROUGHPUT \<Rightarrow> \<exists>err. main_branch_throughput benvs hw nc args = ret (1, [Warning err])"
proof -
  obtain shown err and wm :: mem_manager where wm: "WorkerThreadManager hw MemLatBwThreadPacket 0
      (all_allowed_cpus (cf_numa_config config)) (\<not> cf_no_binding config) (cf_verbose config) = (shown, err, wm)"
    by (metis prod_cases3)
  note new = new_manager [OF wm]
  have prep: "manager_wf (prepare_mem_lat_bw_thread_packet wm c (- 1))"
    "wm_num_threads (prepare_mem_lat_bw_thread_packet wm c (- 1)) = 0" for c
    unfolding prepare_mem_lat_bw_thread_packet_def using no_packets_stay(1,2) [OF new] by blast+
  have frag: "cf_num_threads config' = 0" "cf_numa_config config' = cf_numa_config config"
    "cf_no_binding config' = cf_no_binding config" "cf_verbose config' = cf_verbose config"
    using fragment zero by (auto simp: memcpy_config_def Let_def split: if_splits)
  have ne: "items \<noteq> []" using kernels by (auto simp: build_delays_and_kernels_def Let_def split: list.splits)
  show ?thesis
  proof (cases t)
    case LATENCY
    obtain wm1 where "setup_memory_regions_idle_latency (envs 0 0 0) wm config (- 1) = ret wm1"
      "manager_wf wm1" "wm_num_threads wm1 = 0"
      using run_no_threads(2) [OF prep] unfolding setup_memory_regions_idle_latency_def by blast
    with measure_no_threads(1) LATENCY parsed zero wm mode show ?thesis
      by (simp add: main_idle_latency_def setup_and_run_idle_latency_def run_idle_latency_def)
  next
    case BANDWIDTH
    obtain wm1 where "setup_memory_regions_peak_bandwidth (envs 0 0 0) wm config (- 1) = ret wm1"
      "manager_wf wm1" "wm_num_threads wm1 = 0"
      using run_no_threads(2) [OF prep] unfolding setup_memory_regions_peak_bandwidth_def by blast
    moreover have "get_kernels_with_wrmix (cf_read_write_mix config) \<noteq> []" by (simp add: get_kernels_with_wrmix_def)
    then obtain mix k rest where "get_kernels_with_wrmix (cf_read_write_mix config) = (mix, k) # rest"
      by (metis list.exhaust prod.exhaust)
    ultimately show ?thesis
      using measure_no_threads(2) BANDWIDTH parsed zero wm mode
      by (simp add: main_peak_bandwidth_def setup_and_run_peak_bandwidth_def run_peak_bandwidth_def Let_def)
  next
    case MEMCPY
    obtain wm1 where "setup_memory_regions_memcpy (envs 0 0 0) wm config' = ret wm1"
      "manager_wf wm1" "wm_num_threads wm1 = 0"
      using run_no_threads(2) [OF prep] unfolding setup_memory_regions_memcpy_def by blast
    with measure_no_threads(3) MEMCPY parsed zero wm fragment frag show ?thesis by (simp add: main_memcpy_def)
  next
    case LATENCY_BANDWIDTH
    obtain wm1 where "setup_memory_regions_loaded_latency (envs 0 0 0) wm config = ret wm1"
      "manager_wf wm1" "wm_num_threads wm1 = 0"
      using run_no_threads(1) [OF no_packets_stay(3,4) [OF no_packets_stay(3,4) [OF prep]]]
      unfolding setup_memory_regions_loaded_latency_def by blast
    with measure_no_threads(4) LATENCY_BANDWIDTH parsed zero wm kernels ne show ?thesis
      by (cases items) (auto simp: main_loaded_latency_def)
  next
    case BRANCH_THROUGHPUT
    with parsed zero show ?thesis by (simp add: main_branch_throughput_def branch_arguments_ok_def)
  qed
qed

lemma zero_threads_undefined_witness:
  "main_idle_latency (\<lambda>_ _ _. example_run_env) 4 example_machine
     (config_args ((default_configuration example_machine LATENCY)\<lparr>cf_num_threads := 0\<rparr>)) = fail no_number"
proof -
  define config where "config = (default_configuration example_machine LATENCY)\<lparr>cf_num_threads := 0\<rparr>"
  have cf: "cf_num_threads config = 0" "\<not> cf_latency_matrix config" "\<not> cf_bandwidth_matrix config"
    "cf_use_hugepage config = 0" "cf_load_gen_delay config = 0" "cf_fragment_size_b config = 4096"
    "cf_region_size_kb config = 524288" "\<not> cf_help config"
    by (simp_all add: config_def default_configuration_def)
  have frame: "config_frame example_machine LATENCY config"
    by (simp add: config_frame_def config_def default_configuration_def)
  have parsed: "parse_options (Configuration example_machine LATENCY) (config_args config) = Inr config"
    using config_args_parse [OF frame cf(8)] by (simp add: parse_options_def auto_correct_def case_prod_unfold cf)
  obtain items where items: "build_delays_and_kernels config = Inr items"
    using delay_table_not_Nil [of "cf_read_write_mix config"] by (cases "get_kernels_with_delays (cf_read_write_mix config)")
      (simp_all add: build_delays_and_kernels_def cf)
  have fragment: "memcpy_config config = Inr config" by (simp add: memcpy_config_def cf)
  from zero_threads_undefined [where envs = "\<lambda>_ _ _. example_run_env" and hw = 4, OF parsed cf(1-3) items fragment]
  show ?thesis by (simp add: config_def)
qed

end
