(* ===== verification/Worker_Warnings.thy ===== *)
theory Worker_Warnings
  imports Loaded_Run Memcpy_Run
begin

text \<open>
  The warnings the memory workers write to the standard error stream when a measurement has
  taken too long (\<open>src/cpu_micro/worker_latency.h\<close>, \<open>worker_bandwidth.h\<close>,
  \<open>worker_memcpy.h\<close>), and the workers together with their warnings.
\<close>

section \<open>The warnings\<close>

definition TIMER_THRESHOLD :: rat where
  "TIMER_THRESHOLD = double (102 / 100)"

text \<open>The elapsed time against the target duration, an unsigned integer, times a \<open>double\<close>.\<close>

definition overrun :: "rat \<Rightarrow> mem_packet \<Rightarrow> bool" where
  "overrun factor q \<longleftrightarrow> pk_exec_time q > double (of_nat (unat (pk_target_duration q)) * factor)"

definition times_and_thread :: "mem_packet \<Rightarrow> event list" where
  "times_and_thread q =
     [Text ''elapsed time (s) exec='', Number (pk_exec_time q),
      Text '' target='', Number (of_nat (unat (pk_target_duration q))),
      Text '' thread_id='', Number (of_nat (unat (bp_thread_id q)))]"

definition lat_warning :: "kernel_state loop_state \<Rightarrow> mem_packet \<Rightarrow> event list" where
  "lat_warning s q =
     (if pk_ref_latency_ps q > 0 \<and> overrun TIMER_THRESHOLD q
      then times_and_thread q @
        [Text '' latency num_chkpts='', Number (of_nat (unat (ls_num_chkpts s))),
         Text '' finished_chases='', Number (of_nat (unat (pk_finished_chases q))),
         Text '' ret='', Number (of_nat (unat (fst (snd (ls_body s))))), Text newline]
      else [])"

definition bw_warning :: "kernel_state loop_state \<Rightarrow> mem_packet \<Rightarrow> event list" where
  "bw_warning s q =
     (if pk_ref_total_bw_gbps q > 0 \<and> overrun TIMER_THRESHOLD q
      then times_and_thread q @
        [Text '' bandwidth num_chkpts='', Number (of_nat (unat (ls_num_chkpts s))),
         Text '' finished_bytes='', Number (of_nat (unat (pk_finished_bytes q))),
         Text '' ret='', Number (of_nat (unat (fst (snd (ls_body s))))), Text newline]
      else [])"

definition copy_warning :: "mem_region loop_state \<Rightarrow> mem_packet \<Rightarrow> event list" where
  "copy_warning s q =
     (if pk_ref_one_exec_time_ns q > 0 \<and>
         ((chkpt_calls (pk_ref_one_exec_time_ns q) > 1 \<and> overrun TIMER_THRESHOLD q) \<or>
          overrun (double (105 / 100)) q)
      then times_and_thread q @
        [Text '' memcpy num_chkpts='', Number (of_nat (unat (ls_num_chkpts s))),
         Text '' finished_bytes='', Number (of_nat (unat (pk_finished_bytes q))), Text newline]
      else [])"

section \<open>The workers with their warnings\<close>

definition lat_ptr_warning :: "thread_env \<Rightarrow> mem_packet \<Rightarrow> (mem_packet \<times> event list) run" where
  "lat_ptr_warning te p =
     andthen (lift_run (lat_setup te p))
       (\<lambda>(c, s). andthen (run_loop c s)
         (\<lambda>s'. let q = lat_finish s' p in ret (q, lat_warning s' q)))"

definition bw_sequential_warning :: "thread_env \<Rightarrow> mem_packet \<Rightarrow> (mem_packet \<times> event list) run" where
  "bw_sequential_warning te p =
     andthen (lift_run (bw_setup te p))
       (\<lambda>(c, s). andthen (run_loop c s)
         (\<lambda>s'. andthen (lift_run (bw_finish s' p)) (\<lambda>q. ret (q, bw_warning s' q))))"

definition copy_fragment_warning :: "thread_env \<Rightarrow> mem_packet \<Rightarrow> (mem_packet \<times> event list) run" where
  "copy_fragment_warning te p =
     andthen (lift_run (copy_setup te p))
       (\<lambda>(c, s). andthen (run_loop c s)
         (\<lambda>s'. let q = copy_finish s' p in ret (q, copy_warning s' q)))"

text \<open>The warnings change nothing else.\<close>

lemma warnings_only_write:
  "andthen (lat_ptr_warning te p) (\<lambda>(q, w). ret q) = lat_ptr te p"
  "andthen (bw_sequential_warning te p) (\<lambda>(q, w). ret q) = bw_sequential te p"
  "andthen (copy_fragment_warning te p) (\<lambda>(q, w). ret q) = copy_fragment te p"
  by (simp_all add: lat_ptr_warning_def bw_sequential_warning_def copy_fragment_warning_def lat_ptr_def
      bw_sequential_def copy_fragment_def andthen_assoc case_prod_unfold Let_def)

section \<open>When they are written\<close>

text \<open>
  Both sides are rounded, so the test is exact only away from equality, by a nanosecond.
\<close>

lemma nanosecond_apart:
  fixes a x e m :: rat
  assumes "x * (1 - 2 * eps) \<le> e" and "e \<le> x * (1 + 3 * eps)"
    and "a * (1 - 2 * eps) \<le> m" and "m \<le> a * (1 + 3 * eps)" and "a \<le> 2 ^ 17"
  shows "a + 1 / 10 ^ 9 \<le> x \<Longrightarrow> m < e" and "x \<le> a - 1 / 10 ^ 9 \<Longrightarrow> e < m"
  using assms by (simp_all add: eps_def)

lemma overrun_exact:
  fixes num :: nat
  assumes exec: "pk_exec_time q = double (double (of_int t) / of_nat (10 ^ 9))" and t: "0 \<le> t" "t < 2 ^ 53"
    and target: "unat (pk_target_duration q) \<le> 2 ^ 16" and num: "100 \<le> num" "num \<le> 200"
  defines "limit \<equiv> int (unat (pk_target_duration q)) * (int num * 10000000)"
  shows "limit < t \<Longrightarrow> overrun (double (of_nat num / 100)) q"
    and "t < limit \<Longrightarrow> \<not> overrun (double (of_nat num / 100)) q"
proof -
  let ?d = "of_nat (unat (pk_target_duration q)) :: rat" and ?n = "of_nat num / 100 :: rat"
  let ?e = "double (double (of_int t) / of_nat (10 ^ 9))" and ?m = "double (?d * double ?n)"
  have e: "near 1 (of_int t / of_nat (10 ^ 9)) ?e" by (rule near_elapsed [OF t]) simp
  have n: "0 \<le> ?n" "?n \<le> 2" using num by simp_all
  have "near (Suc 0) ?n (double ?n)" using n by (intro near_double near_refl) simp
  then have "near (Suc 0) (?d * ?n) (?d * double ?n)" by (rule near_scale) (rule of_nat_0_le_iff)
  then have m: "near (Suc (Suc 0)) (?d * ?n) ?m" by (rule near_double)
  have bounds: "x * (1 - 2 * eps) \<le> y \<and> y \<le> x * (1 + 3 * eps)" if "near k x y" "k \<le> 2" for k x y
  proof -
    have x: "0 \<le> x" and y: "x * (1 - eps) ^ 2 \<le> y" "y \<le> x * (1 + eps) ^ 2"
      using near_mono [OF that] by (simp_all add: near_def)
    have "(1 - 2 * eps) \<le> (1 - eps) ^ 2" "(1 + eps) ^ 2 \<le> 1 + 3 * eps"
      by (simp_all add: eps_def power2_eq_square)
    from mult_left_mono [OF this(1) x] mult_left_mono [OF this(2) x] y show ?thesis by linarith
  qed
  have k: "(1 :: nat) \<le> 2" "Suc (Suc 0) \<le> 2" by simp_all
  note eb = conjunct1 [OF bounds [OF e k(1)]] conjunct2 [OF bounds [OF e k(1)]]
    and mb = conjunct1 [OF bounds [OF m k(2)]] conjunct2 [OF bounds [OF m k(2)]]
  have d: "?d \<le> 2 ^ 16" using target by (metis of_nat_le_iff of_nat_numeral of_nat_power)
  have dn: "?d * ?n \<le> 2 ^ 17" using mult_mono [OF d n(2)] n(1) by simp
  have l: "of_int limit = ?d * ?n * 10 ^ 9" by (simp only: limit_def of_int_mult of_int_of_nat_eq of_int_numeral) simp
  show "overrun (double ?n) q" if "limit < t"
  proof -
    have "(of_int (limit + 1) :: rat) \<le> of_int t" using that by (simp only: of_int_le_iff)
    then have "?d * ?n + 1 / 10 ^ 9 \<le> of_int t / of_nat (10 ^ 9)"
      unfolding of_int_add l by (simp add: field_simps)
    then have "?m < ?e" by (rule nanosecond_apart(1) [OF eb mb dn])
    then show ?thesis by (simp only: overrun_def exec)
  qed
  show "\<not> overrun (double ?n) q" if "t < limit"
  proof -
    have "(of_int t :: rat) \<le> of_int (limit - 1)" using that by (simp only: of_int_le_iff)
    then have "of_int t / of_nat (10 ^ 9) \<le> ?d * ?n - 1 / 10 ^ 9"
      unfolding of_int_diff l by (simp add: field_simps)
    then have "?e < ?m" by (rule nanosecond_apart(2) [OF eb mb dn])
    then show ?thesis by (simp only: overrun_def exec not_less order_less_imp_le)
  qed
qed

section \<open>A measurement and its warning\<close>

fun routine_warning :: "mem_routine \<Rightarrow> thread_env \<Rightarrow> mem_packet \<Rightarrow> (mem_packet \<times> event list) run" where
  "routine_warning Lat_Ptr te p = lat_ptr_warning te p"
| "routine_warning Bw_Sequential te p = bw_sequential_warning te p"
| "routine_warning Copy_Fragment te p = copy_fragment_warning te p"
| "routine_warning r te p = andthen (routine r te p) (\<lambda>q. ret (q, []))"

text \<open>Whether a run is the measured one, after a calibrating one.\<close>

fun calibrated :: "mem_routine \<Rightarrow> mem_packet \<Rightarrow> bool" where
  "calibrated Lat_Ptr p \<longleftrightarrow> pk_ref_latency_ps p > 0"
| "calibrated Bw_Sequential p \<longleftrightarrow> pk_ref_total_bw_gbps p > 0"
| "calibrated Copy_Fragment p \<longleftrightarrow> pk_ref_one_exec_time_ns p > 0"
| "calibrated r p \<longleftrightarrow> False"

text \<open>The tolerance in hundredths of the target.\<close>

definition tolerance :: "mem_routine \<Rightarrow> mem_packet \<Rightarrow> nat" where
  "tolerance r p = (if r = Copy_Fragment \<and> chkpt_calls (pk_ref_one_exec_time_ns p) \<le> 1 then 105 else 102)"

text \<open>What the workers' own warnings depend on of the loop is in the packet.\<close>

lemma warning_of_result:
  "lat_ptr te p = ret q \<Longrightarrow> \<exists>w. lat_ptr_warning te p = ret (q, w) \<and>
     (w \<noteq> [] \<longleftrightarrow> pk_ref_latency_ps q > 0 \<and> overrun TIMER_THRESHOLD q)"
  "bw_sequential te p = ret q \<Longrightarrow> \<exists>w. bw_sequential_warning te p = ret (q, w) \<and>
     (w \<noteq> [] \<longleftrightarrow> pk_ref_total_bw_gbps q > 0 \<and> overrun TIMER_THRESHOLD q)"
  "copy_fragment te p = ret q \<Longrightarrow> \<exists>w. copy_fragment_warning te p = ret (q, w) \<and>
     (w \<noteq> [] \<longleftrightarrow> pk_ref_one_exec_time_ns q > 0 \<and>
       ((chkpt_calls (pk_ref_one_exec_time_ns q) > 1 \<and> overrun TIMER_THRESHOLD q) \<or> overrun (double (105 / 100)) q))"
  by (auto simp: lat_ptr_def lat_ptr_warning_def lat_warning_def bw_sequential_def bw_sequential_warning_def
      bw_warning_def copy_fragment_def copy_fragment_warning_def copy_warning_def times_and_thread_def Let_def
      elim!: andthen_eq_retE)

text \<open>A packet that its routine can measure with.\<close>

fun measurable :: "mem_routine \<Rightarrow> u64 \<Rightarrow> mem_packet \<Rightarrow> nat \<Rightarrow> bool" where
  "measurable Lat_Ptr sz p K \<longleftrightarrow> region_ready sz (pk_mem_region p) \<and> pk_kernel_lat p = Some kernel_lat"
| "measurable Bw_Sequential sz p K \<longleftrightarrow> stream_ready (bp_num_threads p) sz p \<and> 0 < unat (bp_num_threads p) \<and>
     (\<exists>k. pk_kernel_bw p = Some k \<and> bandwidth_like k)"
| "measurable Copy_Fragment sz p K \<longleftrightarrow> copy_ready sz p \<and> pk_kernel_memcpy p = Some glibc_memcpy \<and>
     0 < unat (pk_fragment_size p) \<and> pk_fragment_size p \<le> sz \<and>
     unat (pk_fragment_size p) * (K * Suc (most_calls (pk_ref_one_exec_time_ns p))) < 2 ^ 64"
| "measurable r sz p K \<longleftrightarrow> False"

lemma map_sum_eq_Inr: "map_sum id f m = Inr y \<longleftrightarrow> (\<exists>x. m = Inr x \<and> y = f x)"
  by (cases m) auto

lemma measurement_keeps:
  assumes "lat_ptr te p = ret q \<or> bw_sequential te p = ret q \<or> copy_fragment te p = ret q"
  shows "pk_target_duration q = pk_target_duration p" and "pk_ref_latency_ps q = pk_ref_latency_ps p"
    and "pk_ref_total_bw_gbps q = pk_ref_total_bw_gbps p" and "pk_ref_one_exec_time_ns q = pk_ref_one_exec_time_ns p"
  using assms
  by (auto simp: lat_ptr_def lat_finish_def bw_sequential_def bw_finish_def copy_fragment_def copy_finish_def
      map_sum_eq_Inr elim!: andthen_eq_retE)

lemma measurable_returns:
  assumes "measurable r sz p K" and clock: "steady_clock te (pk_target_duration p) K" "K \<le> 2 ^ 12"
  shows "\<exists>q. routine r te p = ret q \<and>
    pk_exec_time q = double (double (of_int (lat_time te K)) / of_nat (10 ^ 9))"
proof (cases r)
  case Lat_Ptr
  have "K \<le> 2 ^ 20" using clock(2) by simp
  with lat_routine [of sz p te K] assms Lat_Ptr show ?thesis by simp
next
  case Bw_Sequential
  then obtain k where "stream_ready (bp_num_threads p) sz p" "0 < unat (bp_num_threads p)"
    "pk_kernel_bw p = Some k" "bandwidth_like k" using assms(1) by auto
  with stream_thread [OF _ _ disjI2 _ steady_clock_bounds(1,2) [OF clock(1)] clock(2)] Bw_Sequential show ?thesis
    by fastforce
next
  case Copy_Fragment
  let ?env = "example_run_env\<lparr>rn_threads := \<lambda>_. te\<rparr>"
  have "clock_reaches te (pk_target_duration p) K" by (rule steady_clock_bounds(1) [OF clock(1)])
  with copy_routine [of sz p ?env 0 "\<lambda>_. K"] assms(1) Copy_Fragment show ?thesis
    by (auto simp: copied_def)
qed (use assms(1) in simp_all)

text \<open>
  C29. The warnings. When a worker's measurement ends after \<open>lat_time te K\<close> nanoseconds, the
  worker with its warning leaves the same packet, and writes the warning exactly when the run
  was not the calibrating one and took longer than the target by more than its tolerance: 2
  percent, or 5 percent for copies timed one by one. A time within a nanosecond of the limit
  may go either way.
\<close>

theorem overrun_reported:
  fixes p :: mem_packet
  assumes ready: "measurable r sz p K" and clock: "steady_clock te (pk_target_duration p) K" "K \<le> 2 ^ 12"
  defines "t \<equiv> lat_time te K" and "target \<equiv> int (unat (pk_target_duration p))"
  assumes range: "target \<le> 2 ^ 16" and apart: "t \<noteq> target * 1020000000" "t \<noteq> target * 1050000000"
  shows "\<exists>q w. routine r te p = ret q \<and> routine_warning r te p = ret (q, w) \<and>
    (w \<noteq> [] \<longleftrightarrow> calibrated r p \<and> t > target * (int (tolerance r p) * 10000000))"
proof -
  obtain q where q: "routine r te p = ret q"
      "pk_exec_time q = double (double (of_int (lat_time te K)) / of_nat (10 ^ 9))"
    using measurable_returns [OF ready clock] by blast
  have kinds: "r = Lat_Ptr \<or> r = Bw_Sequential \<or> r = Copy_Fragment" using ready by (cases r) simp_all
  then have "lat_ptr te p = ret q \<or> bw_sequential te p = ret q \<or> copy_fragment te p = ret q" using q(1) by auto
  note keeps = measurement_keeps [OF this]
  have t: "0 \<le> lat_time te K" "lat_time te K < 2 ^ 53"
    using steady_clock_bounds(3,5) [OF clock(1)] clock(2) by simp_all
  have "int (unat (pk_target_duration q)) \<le> int (2 ^ 16)" using range unfolding target_def keeps(1) by (simp only: of_nat_power of_nat_numeral)
  then have target: "unat (pk_target_duration q) \<le> 2 ^ 16" by (simp only: of_nat_le_iff)
  have o: "overrun TIMER_THRESHOLD q \<longleftrightarrow> t > target * 1020000000"
    "overrun (double (105 / 100)) q \<longleftrightarrow> t > target * 1050000000"
    using overrun_exact [OF q(2) t target, of 102] overrun_exact [OF q(2) t target, of 105] apart
    unfolding TIMER_THRESHOLD_def t_def target_def keeps(1) by (simp_all add: linorder_neq_iff) blast+
  have "target * 1020000000 \<le> target * 1050000000" unfolding target_def by simp
  with kinds q(1) warning_of_result [of te p q] o show ?thesis
    unfolding keeps by (auto simp: tolerance_def not_le)
qed

definition late_env :: thread_env where
  "late_env = \<lparr>te_alloc = small_env, te_rand = (\<lambda>_. 5),
     te_clock = (\<lambda>k. if k = 0 then 0 else if k = 1 then 1000000000 else 2120000000)\<rparr>"

lemma overrun_reported_witness:
  "\<exists>p q w. bw_sequential late_env p = ret q \<and> bw_sequential_warning late_env p = ret (q, w) \<and> w \<noteq> []"
proof -
  obtain r where r: "MemRegion small_env 16384 16384 4096 64 NATIVE NONE = Inr r"
    using small_region [of 16384 4096 64] by auto
  note f = MemRegion_fields [OF r]
  define p where "p = MemLatBwThreadPacket\<lparr>bp_num_threads := 1, pk_mem_region := Some r,
    pk_kernel_bw := Some kernel_bw_r1w0_sequential, pk_ref_total_bw_gbps := 1, pk_target_duration := 2\<rparr>"
  have sel: "bp_num_threads p = 1" "pk_mem_region p = Some r" "pk_kernel_bw p = Some kernel_bw_r1w0_sequential"
    "pk_ref_total_bw_gbps p = 1" "pk_target_duration p = 2"
    by (simp_all add: p_def)
  have "bandwidth_like kernel_bw_r1w0_sequential"
    using bandwidth_like_wrmix [of 0] by (simp add: get_kernels_with_wrmix_def)
  then have ready: "measurable Bw_Sequential 16384 p 2"
    using f by (simp add: sel stream_ready_def)
  have "k = 1" if "1 \<le> k" "k < 2" for k :: nat using that by simp
  then have clock: "steady_clock late_env (pk_target_duration p) 2"
    by (simp add: steady_clock_def clock_reaches_def lat_time_def late_env_def sel)
  have t: "lat_time late_env 2 = 2120000000" by (simp add: lat_time_def late_env_def)
  from overrun_reported [OF ready clock] show ?thesis
    by (auto simp: t sel tolerance_def)
qed

end
