(* ===== verification/Region_Dump.thy ===== *)
theory Region_Dump
  imports Program_Common Region_Props
begin

text \<open>
  The debugging printout \<open>MemRegion::dump\<close> of \<open>src/common/mem_region.cc\<close>: for every line its
  address and the word stored there, and both as line numbers. The bases and widths in which
  the numbers are printed are not modelled.
\<close>

section \<open>The printout\<close>

type_synonym dump_entry = "u64 \<times> u64 \<times> u64 \<times> u64"

definition dump_entry :: "mem_region \<Rightarrow> u64 \<Rightarrow> fault + dump_entry" where
  "dump_entry r i =
     (if unat i + 8 \<le> unat (mr_size r)
      then let start_addr = mr_addr1 r;
               here = getOffsetAddr r i;
               nxt = read64 (mr_bytes r) (unat i)
           in if mr_line_size r = 0 then Inl Div_By_Zero
              else Inr (here, nxt, (here - start_addr) div mr_line_size r, (nxt - start_addr) div mr_line_size r)
      else Inl Out_Of_Bounds)"

fun dump_row :: "dump_entry \<Rightarrow> event list" where
  "dump_row (here, nxt, curr_offset, next_offset) =
     [Text ''[0x'', Number (of_nat (unat here)), Text '']: 0x'', Number (of_nat (unat nxt)), Text ''  '',
      Number (of_nat (unat curr_offset)), Text '': '', Number (of_nat (unat next_offset)), endl]"

partial_function (option) dump_loop :: "mem_region \<Rightarrow> u64 \<Rightarrow> event list \<Rightarrow> event list run" where
  "dump_loop r i out =
     (if i < mr_size r
      then (case dump_entry r i of
              Inl e \<Rightarrow> fail e
            | Inr x \<Rightarrow> dump_loop r (i + mr_line_size r) (out @ dump_row x))
      else ret out)"

definition dump_rule :: "event list" where
  "dump_rule = [Text ''================================'', endl]"

definition dump_header :: "mem_region \<Rightarrow> event list" where
  "dump_header r =
     [Text ''size='', Number (of_nat (unat (mr_size r))), Text '', page='', Number (of_nat (unat (mr_page_size r))),
      Text '', line='', Number (of_nat (unat (mr_line_size r))),
      Text '', numPage='', Number (of_nat (unat (mr_num_active_pages r))), Text ''/'',
      Number (of_nat (unat (mr_num_all_pages r))),
      Text '', numLinesInPage='', Number (of_nat (unat (mr_num_lines_in_page r))), endl]"

definition MemRegion_dump :: "mem_region \<Rightarrow> event list run" where
  "MemRegion_dump r =
     andthen (dump_loop r 0 (dump_rule @ dump_header r)) (\<lambda>out. ret (out @ dump_rule))"

section \<open>It shows the ring\<close>

text \<open>A region that its lines divide.\<close>

definition lines_divide :: "mem_region \<Rightarrow> nat \<Rightarrow> bool" where
  "lines_divide r n \<longleftrightarrow>
     8 \<le> unat (mr_line_size r) \<and> unat (mr_size r) = n * unat (mr_line_size r)"

definition line_entry :: "mem_region \<Rightarrow> nat \<Rightarrow> dump_entry" where
  "line_entry r k =
     (let i = k * unat (mr_line_size r); nxt = read64 (mr_bytes r) i
      in (addr_of (mr_addr1 r) i, nxt, of_nat k, (nxt - mr_addr1 r) div mr_line_size r))"

lemma dump_entry_line:
  assumes "lines_divide r n" and "k < n"
  defines "i \<equiv> of_nat (k * unat (mr_line_size r)) :: u64"
  shows "i < mr_size r" and "dump_entry r i = Inr (line_entry r k)"
    and "i + mr_line_size r = of_nat (Suc k * unat (mr_line_size r))"
proof -
  let ?l = "unat (mr_line_size r)"
  have l: "8 \<le> ?l" "unat (mr_size r) = n * ?l" using assms(1) by (simp_all add: lines_divide_def)
  have "Suc k * ?l \<le> n * ?l" using assms(2) by (intro mult_le_mono1) simp
  then have fit: "k * ?l + ?l \<le> unat (mr_size r)" using l(2) by simp
  then have "k * ?l < 2 ^ 64" using unat_lt_64 [of "mr_size r"] l(1) by simp
  then have u: "unat i = k * ?l" unfolding i_def by (intro unat_of_nat_64) simp
  show "i < mr_size r" using fit l(1) unfolding word_less_nat_alt u by linarith
  have "of_nat (Suc k * ?l) = i + (of_nat ?l :: u64)" unfolding i_def by (simp only: mult_Suc of_nat_add add.commute)
  then show "i + mr_line_size r = of_nat (Suc k * ?l)" by (simp only: of_nat_unat_64)
  have "unat (i div mr_line_size r) = k" unfolding unat_div u using l(1) by simp
  then have "i div mr_line_size r = of_nat k" using of_nat_unat_64 [of "i div mr_line_size r"] by (simp only:)
  moreover have "mr_line_size r \<noteq> 0" using l(1) by auto
  ultimately show "dump_entry r i = Inr (line_entry r k)"
    using fit l(1) by (simp add: dump_entry_def line_entry_def Let_def u getOffsetAddr_def addr_of_def) (simp add: i_def)
qed

lemma dump_loop_lines:
  assumes "lines_divide r n" and "k \<le> n"
  shows "dump_loop r (of_nat (k * unat (mr_line_size r))) out =
    ret (out @ concat (map (dump_row \<circ> line_entry r) [k..<n]))"
  using assms(2)
proof (induction "n - k" arbitrary: k out)
  case 0
  then have k: "k = n" by simp
  have "\<not> of_nat (n * unat (mr_line_size r)) < mr_size r"
    using assms(1) by (metis lines_divide_def of_nat_unat_64 order_less_irrefl)
  then show ?case by (subst dump_loop.simps) (simp add: k)
next
  case (Suc d)
  then have k: "k < n" by simp
  note e = dump_entry_line [OF assms(1) k]
  have "dump_loop r (of_nat (Suc k * unat (mr_line_size r))) (out @ dump_row (line_entry r k)) =
      ret ((out @ dump_row (line_entry r k)) @ concat (map (dump_row \<circ> line_entry r) [Suc k..<n]))"
    using Suc(2) k by (intro Suc(1)) simp_all
  then show ?case
    using e k by (subst dump_loop.simps) (simp add: upt_conv_Cons add.commute)
qed

text \<open>
  C40. The debugging printout. Of a region that its lines of at least 8 bytes divide, \<open>dump\<close> prints one row
  for every line, in order: the line's address and number, the word stored there, and that
  word's line number. When the lines hold a circular list, the row of each of its lines shows
  the number of the line that follows it in the list.
\<close>

theorem dump_shows_ring:
  assumes "lines_divide r n" and ring: "ring_in r (map (\<lambda>k. k * unat (mr_line_size r)) ks)" and "set ks \<subseteq> {..<n}"
  shows "\<exists>rows. MemRegion_dump r = ret (dump_rule @ dump_header r @ concat (map dump_row rows) @ dump_rule) \<and>
    length rows = n \<and>
    (\<forall>j < length ks. let k = ks ! j; succ = ks ! (Suc j mod length ks); l = unat (mr_line_size r) in
       rows ! k = (addr_of (mr_addr1 r) (k * l), addr_of (mr_addr1 r) (succ * l), of_nat k, of_nat succ))"
proof -
  let ?l = "unat (mr_line_size r)"
  have run: "MemRegion_dump r =
      ret (dump_rule @ dump_header r @ concat (map dump_row (map (line_entry r) [0..<n])) @ dump_rule)"
    using dump_loop_lines [OF assms(1), of 0 "dump_rule @ dump_header r"] by (simp add: MemRegion_dump_def comp_def)
  have "line_entry r (ks ! j) = (addr_of (mr_addr1 r) (ks ! j * ?l),
      addr_of (mr_addr1 r) (ks ! (Suc j mod length ks) * ?l), of_nat (ks ! j), of_nat (ks ! (Suc j mod length ks)))"
    if j: "j < length ks" for j
  proof -
    have m: "Suc j mod length ks < length ks" using order_le_less_trans [OF le0 j] by (rule mod_less_divisor)
    have "read64 (mr_bytes r) (ks ! j * ?l) = addr_of (mr_addr1 r) (ks ! (Suc j mod length ks) * ?l)"
      using ring j m by (simp add: ring_in_def is_ring_def)
    moreover have "ks ! (Suc j mod length ks) < n" using assms(3) m nth_mem by blast
    from dump_entry_line(2) [OF assms(1) this]
    have "of_nat (ks ! (Suc j mod length ks) * ?l) div mr_line_size r = (of_nat (ks ! (Suc j mod length ks)) :: u64)"
      by (auto simp: dump_entry_def line_entry_def Let_def getOffsetAddr_def split: if_splits)
    ultimately show ?thesis by (simp add: line_entry_def Let_def addr_of_def)
  qed
  moreover have "map (line_entry r) [0..<n] ! (ks ! j) = line_entry r (ks ! j)" if "j < length ks" for j
  proof -
    have "ks ! j < n" using assms(3) nth_mem [OF that] by blast
    then show ?thesis by simp
  qed
  ultimately show ?thesis
    using run by (intro exI [of _ "map (line_entry r) [0..<n]"]) (simp add: Let_def)
qed

lemma dump_shows_ring_witness:
  "\<exists>r r' out. MemRegion small_env 512 512 512 64 NATIVE NONE = Inr r \<and> stride_init r = ret r' \<and>
     MemRegion_dump r' = ret out \<and>
     set (dump_row (addr_of (mr_addr1 r') 448, mr_addr1 r', 7, 0)) \<subseteq> set out"
proof -
  obtain r where r: "MemRegion small_env 512 512 512 64 NATIVE NONE = Inr r"
    using small_region [of 512 512 64] by auto
  note f = MemRegion_fields [OF r]
  let ?ks = "[0, 1, 2, 3, 4, 5, 6, 7] :: nat list"
  define r' where "r' = link_writes r (ring_links (addr_of (mr_addr1 r)) (line_grid 8 64))"
  have n: "stride_lines r = 8" using f by (simp add: stride_lines_def)
  have run: "stride_init r = ret r'"
    using stride_init_eq [of r] f n by (simp add: word_less_nat_alt r'_def)
  have f': "unat (mr_line_size r') = 64" "unat (mr_size r') = 512" using f by (simp_all add: r'_def)
  have os: "line_grid 8 64 = map (\<lambda>k. k * 64) ?ks" by code_simp
  have "ring_in r' (line_grid 8 64)"
    unfolding r'_def by (rule ring_in_link_writes [OF _ cells_apart_line_grid]) (simp_all add: os)
  then have ring: "ring_in r' (map (\<lambda>k. k * unat (mr_line_size r')) ?ks)" unfolding f' os .
  have lines: "lines_divide r' 8" by (simp add: lines_divide_def f')
  have "set ?ks \<subseteq> {..<8}" by simp
  from dump_shows_ring [OF lines ring this]
  obtain rows where rows: "MemRegion_dump r' = ret (dump_rule @ dump_header r' @ concat (map dump_row rows) @ dump_rule)"
    "length rows = 8" and all: "\<forall>j < length ?ks. let k = ?ks ! j; succ = ?ks ! (Suc j mod length ?ks);
        l = unat (mr_line_size r') in
      rows ! k = (addr_of (mr_addr1 r') (k * l), addr_of (mr_addr1 r') (succ * l), of_nat k, of_nat succ)"
    by blast
  have "rows ! 7 = (addr_of (mr_addr1 r') 448, mr_addr1 r', 7, 0)"
    using all [THEN spec, of 7] unfolding Let_def f' by (simp add: addr_of_def)
  then have "(addr_of (mr_addr1 r') 448, mr_addr1 r', 7, 0) \<in> set rows" using nth_mem [of 7 rows] rows(2) by simp
  then have "set (dump_row (addr_of (mr_addr1 r') 448, mr_addr1 r', 7, 0)) \<subseteq> set (concat (map dump_row rows))"
    unfolding set_concat set_map by blast
  then have "set (dump_row (addr_of (mr_addr1 r') 448, mr_addr1 r', 7, 0)) \<subseteq>
      set (dump_rule @ dump_header r' @ concat (map dump_row rows) @ dump_rule)"
    unfolding set_append by blast
  with r run rows(1) show ?thesis by blast
qed

end
