(* ===== verification/Matrix_Run.thy ===== *)
theory Matrix_Run
  imports Bandwidth_Run Region_Outcomes
begin

text \<open>
  The programs \<open>cpu_idle_latency\<close> and \<open>cpu_peak_bandwidth\<close> with their options for the
  matrix of NUMA nodes, from the arguments to the output: each pair of a node with CPUs and
  a node with memory gets a manager of its own, whose threads are bound to the CPUs of the
  one and whose regions lie on the other.
\<close>

section \<open>Cells\<close>

text \<open>The pairs of nodes that are measured.\<close>

definition measured_cell :: "numa_env \<Rightarrow> int \<Rightarrow> u32 \<Rightarrow> u32 \<Rightarrow> bool" where
  "measured_cell nenv limit i j \<longleftrightarrow>
     i < num_numa_nodes (NumaConfig nenv) \<and> j < num_numa_nodes (NumaConfig nenv) \<and>
     limit \<le> ne_node_size64 nenv j \<and>
     allowed_cpus_of_node nenv (num_cpus_possible (NumaConfig nenv)) i \<noteq> []"

text \<open>At most one thread for each CPU of the node.\<close>

definition cell_threads :: "numa_env \<Rightarrow> configuration \<Rightarrow> u32 \<Rightarrow> u32" where
  "cell_threads nenv config i =
     min (cf_num_threads config)
       (of_nat (length (allowed_cpus_of_node nenv (num_cpus_possible (NumaConfig nenv)) i)))"

lemma length_allowed_cpus: "length (allowed_cpus_of_node nenv possible i) < 2 ^ 32"
proof -
  have "length (allowed_cpus_of_node nenv possible i) \<le> length (below possible)"
    by (simp add: allowed_cpus_of_node_def del: length_below split: option.split)
  also have "\<dots> < 2 ^ 32" using unat_lt_32 [of possible] by simp
  finally show ?thesis .
qed

lemma cell_threads_bounds:
  "unat (cell_threads nenv config i) \<le>
     length (allowed_cpus_of_node nenv (num_cpus_possible (NumaConfig nenv)) i)"
  "measured_cell nenv limit i j \<Longrightarrow> cf_num_threads config \<noteq> 0 \<Longrightarrow> 0 < unat (cell_threads nenv config i)"
proof -
  let ?cpus = "allowed_cpus_of_node nenv (num_cpus_possible (NumaConfig nenv)) i"
  have u: "unat (of_nat (length ?cpus) :: u32) = length ?cpus"
    using length_allowed_cpus [of nenv] by (simp add: unat_of_nat)
  show "unat (cell_threads nenv config i) \<le> length ?cpus"
    unfolding cell_threads_def using u by (simp add: min_def word_le_nat_alt)
  assume "measured_cell nenv limit i j" "cf_num_threads config \<noteq> 0"
  then show "0 < unat (cell_threads nenv config i)"
    using u by (auto simp: cell_threads_def measured_cell_def min_def unat_gt_0)
qed

text \<open>The table when every measured cell shows the events \<open>f i j\<close>.\<close>

definition node_table :: "string \<Rightarrow> numa_env \<Rightarrow> int \<Rightarrow> (u32 \<Rightarrow> u32 \<Rightarrow> event list) \<Rightarrow> event list" where
  "node_table title nenv limit f =
     (let nodes = below (num_numa_nodes (NumaConfig nenv))
      in Text title # map node_name nodes @ concat (map (matrix_row nenv limit f) nodes) @ [endl])"

lemma node_matrix_table:
  assumes "\<And>i j. measured_cell nenv limit i j \<Longrightarrow>
      cell i j (allowed_cpus_of_node nenv (num_cpus_possible (NumaConfig nenv)) i) = ret (f i j)"
  shows "node_matrix title limit cell (NumaConfig nenv) = ret (node_table title nenv limit f)"
  using node_matrix_returns [of nenv limit cell f title] assms
  by (auto simp: node_table_def measured_cell_def Let_def)

lemma matrix_limits: "push_bit 30 1 = (2 ^ 30 :: int)" "push_bit 30 2 = (2 ^ 31 :: int)"
  by (simp_all add: push_bit_eq_mult)

text \<open>A cell whose result is specified has it in the table.\<close>

lemma node_matrix_meets:
  assumes "\<And>i j. measured_cell nenv limit i j \<Longrightarrow>
      \<exists>out. cell i j (allowed_cpus_of_node nenv (num_cpus_possible (NumaConfig nenv)) i) = ret out \<and> P i j out"
  shows "\<exists>f. node_matrix title limit cell (NumaConfig nenv) = ret (node_table title nenv limit f) \<and>
    (\<forall>i j. measured_cell nenv limit i j \<longrightarrow> P i j (f i j))"
proof -
  have "\<forall>i j. \<exists>out. measured_cell nenv limit i j \<longrightarrow>
      cell i j (allowed_cpus_of_node nenv (num_cpus_possible (NumaConfig nenv)) i) = ret out \<and> P i j out"
    using assms by blast
  then obtain f where f: "\<And>i j. measured_cell nenv limit i j \<Longrightarrow>
      cell i j (allowed_cpus_of_node nenv (num_cpus_possible (NumaConfig nenv)) i) = ret (f i j) \<and> P i j (f i j)"
    by metis
  with node_matrix_table [of nenv limit cell f title] show ?thesis by blast
qed

lemma parsed_machine: "parse_options (Configuration nc t) args = Inr config \<Longrightarrow> cf_numa_config config = nc"
  using parse_options_frame by (auto simp: config_frame_def)

section \<open>Idle latency\<close>

text \<open>What a cell of the latency table needs: memory, threads, and clocks that run.\<close>

definition latency_cell_ok ::
    "(nat \<Rightarrow> run_env) \<Rightarrow> nat \<Rightarrow> configuration \<Rightarrow> u32 \<Rightarrow> (nat \<Rightarrow> nat) \<Rightarrow> (nat \<Rightarrow> nat) \<Rightarrow> bool" where
  "latency_cell_ok envs n config j K1 K2 \<longleftrightarrow>
     alloc_succeeds (envs 0) n config j \<and>
     run_succeeds (envs 0) n \<and> run_succeeds (envs 1) n \<and> run_succeeds (envs 2) n \<and>
     clocks_steady (envs 1) n 1 K1 \<and> clocks_steady (envs 2) n (cf_target_duration_s config) K2 \<and>
     2 \<le> 1000 * mean_latency (envs 1) n K1 0 (cf_region_size_kb config * 1024)"

definition latency_cell_shows ::
    "(nat \<Rightarrow> run_env) \<Rightarrow> nat \<Rightarrow> configuration \<Rightarrow> (nat \<Rightarrow> nat) \<Rightarrow> (nat \<Rightarrow> nat) \<Rightarrow> event list \<Rightarrow> bool" where
  "latency_cell_shows envs n config K1 K2 out \<longleftrightarrow>
     (let sz = cf_region_size_kb config * 1024; m = 1000 * mean_latency (envs 1) n K1 0 sz
      in \<exists>bound L ps. out = [Text bound, Number L] \<and> \<bar>of_nat (unat ps) - m\<bar> \<le> m / 2 ^ 18 + 1 \<and>
           \<bar>L - mean_latency (envs 2) n K2 ps sz\<bar> \<le> mean_latency (envs 2) n K2 ps sz / 2 ^ 18)"

lemma idle_latency_cell_returns:
  assumes cell: "measured_cell nenv limit i j" and num: "cf_num_threads config \<noteq> 0"
    and sizes: "latency_sizes_ok config"
    and ok: "latency_cell_ok envs (unat (cell_threads nenv config i)) config j K1 K2"
  shows "\<exists>out. idle_latency_cell envs hw config j
      (allowed_cpus_of_node nenv (num_cpus_possible (NumaConfig nenv)) i) = ret out \<and>
    latency_cell_shows envs (unat (cell_threads nenv config i)) config K1 K2 out"
proof -
  let ?cpus = "allowed_cpus_of_node nenv (num_cpus_possible (NumaConfig nenv)) i"
  let ?n = "unat (cell_threads nenv config i)" and ?sz = "cf_region_size_kb config * 1024"
  obtain shown err and wm :: mem_manager where wm: "WorkerThreadManager hw MemLatBwThreadPacket
      (cell_threads nenv config i) ?cpus True (cf_verbose config) = (shown, err, wm)"
    by (metis prod_cases3)
  note new = new_manager [OF wm]
  have n: "?n = unat (wm_num_threads wm)" "0 < ?n"
    using new(2) cell_threads_bounds(2) [OF cell num] by simp_all
  obtain wm1 where w1: "setup_memory_regions_idle_latency (envs 0) wm config j = ret wm1"
      "manager_wf wm1" "wm_num_threads wm1 = wm_num_threads wm" "regions_ready ?sz wm1"
    using setup_idle_latency_returns [OF new(1) n(1) _ sizes] ok unfolding latency_cell_ok_def by blast
  obtain L ps where run: "run_idle_latency envs wm1 config = ret [Number L]"
    "\<bar>of_nat (unat ps) - 1000 * mean_latency (envs 1) ?n K1 0 ?sz\<bar> \<le> 1000 * mean_latency (envs 1) ?n K1 0 ?sz / 2 ^ 18 + 1"
    "\<bar>L - mean_latency (envs 2) ?n K2 ps ?sz\<bar> \<le> mean_latency (envs 2) ?n K2 ps ?sz / 2 ^ 18"
    using run_idle_latency_returns [OF w1(2) n(1) [folded w1(3)] n(2) w1(4), of envs] ok
    unfolding latency_cell_ok_def by blast
  have "idle_latency_cell envs hw config j ?cpus = ret [Text shown, Number L]"
    using wm w1(1) run(1) by (simp add: idle_latency_cell_def cell_threads_def [symmetric])
  with run(2,3) show ?thesis by (auto simp: latency_cell_shows_def Let_def)
qed

definition latency_title :: "configuration \<Rightarrow> string" where
  "latency_title config = ''Idle Latency (ns) - '' @ get_str_access_pattern_short (cf_access_pattern config)"

text \<open>
  C6. The latency matrix, end to end. With \<open>--latency_matrix\<close> the program ends with status 0
  and prints a table with a heading for each node and a line for each node with CPUs the
  process may use. A line has a value for each node with at least a gigabyte of memory: the
  time per pointer hop of as many threads as the node has CPUs, at most the number asked
  for, to within one part in \<open>2 ^ 18\<close>, after a calibrating run of their own. A node with
  less memory leaves no value in the line, so that the values after it stand under the
  headings of the nodes before theirs.
\<close>

theorem latency_matrix_program:
  fixes envs :: "u32 \<Rightarrow> u32 \<Rightarrow> nat \<Rightarrow> run_env" and config :: configuration
  assumes parsed: "parse_options (Configuration (NumaConfig nenv) LATENCY) args = Inr config"
    and mode: "cf_latency_matrix config" "cf_num_threads config \<noteq> 0"
    and sizes: "latency_sizes_ok config"
    and cells: "\<forall>i j. measured_cell nenv (2 ^ 30) i j \<longrightarrow>
      latency_cell_ok (envs i j) (unat (cell_threads nenv config i)) config j (K1 i j) (K2 i j)"
  shows "\<exists>f. main_idle_latency envs hw (NumaConfig nenv) args =
      ret (0, Text (cf_dump config) # node_table (latency_title config) nenv (2 ^ 30) f @ [endl]) \<and>
    (\<forall>i j. measured_cell nenv (2 ^ 30) i j \<longrightarrow>
      latency_cell_shows (envs i j) (unat (cell_threads nenv config i)) config (K1 i j) (K2 i j) (f i j))"
proof -
  have "\<exists>out. idle_latency_cell (envs i j) hw config j
      (allowed_cpus_of_node nenv (num_cpus_possible (NumaConfig nenv)) i) = ret out \<and>
    latency_cell_shows (envs i j) (unat (cell_threads nenv config i)) config (K1 i j) (K2 i j) out"
    if "measured_cell nenv (2 ^ 30) i j" for i j
    using idle_latency_cell_returns [OF that mode(2) sizes] cells that by blast
  note each = this
  obtain f where f: "node_matrix (latency_title config) (2 ^ 30) (\<lambda>i j. idle_latency_cell (envs i j) hw config j)
        (NumaConfig nenv) = ret (node_table (latency_title config) nenv (2 ^ 30) f)"
    "\<forall>i j. measured_cell nenv (2 ^ 30) i j \<longrightarrow>
      latency_cell_shows (envs i j) (unat (cell_threads nenv config i)) config (K1 i j) (K2 i j) (f i j)"
    using node_matrix_meets [where cell = "\<lambda>i j. idle_latency_cell (envs i j) hw config j", OF each] by blast
  with f(1) matrix_limits(1) parsed parsed_machine [OF parsed] mode(1)
  have "main_idle_latency envs hw (NumaConfig nenv) args =
      ret (0, Text (cf_dump config) # node_table (latency_title config) nenv (2 ^ 30) f @ [endl])"
    by (simp add: main_idle_latency_def setup_and_run_idle_latency_def latency_title_def)
  with f(2) show ?thesis by blast
qed

text \<open>The example machine has two nodes; here the first one has no memory.\<close>

lemma memoryless_machine:
  "num_numa_nodes (NumaConfig memoryless_env) = 2"
  "allowed_cpus_of_node memoryless_env (num_cpus_possible (NumaConfig memoryless_env)) 0 = [0, 1]"
  "allowed_cpus_of_node memoryless_env (num_cpus_possible (NumaConfig memoryless_env)) 1 = [2]"
  "ne_node_size64 memoryless_env i = (if i = 0 then 0 else 8589934592)"
  by (simp_all add: memoryless_env_def example_env_def NumaConfig_def Let_def allowed_cpus_of_node_def below_numeral)

lemma memoryless_table:
  assumes "0 < limit" and "limit \<le> 8589934592"
  shows "node_table title memoryless_env limit f =
    [Text title, Text ''Node-0'', Text ''Node-1'', endl, Text ''Node-0''] @ f 0 1 @
      [endl, Text ''Node-1''] @ f 1 1 @ [endl]"
    and "measured_cell memoryless_env limit i j \<longleftrightarrow> i < 2 \<and> j = 1"
proof -
  have names: "node_name 0 = Text ''Node-0''" "node_name 1 = Text ''Node-1''"
    by (simp_all add: node_name_def show_eval)
  show "node_table title memoryless_env limit f =
    [Text title, Text ''Node-0'', Text ''Node-1'', endl, Text ''Node-0''] @ f 0 1 @
      [endl, Text ''Node-1''] @ f 1 1 @ [endl]"
    using assms by (simp add: node_table_def matrix_row_def memoryless_machine below_numeral names)
  have two: "k < 2 \<longleftrightarrow> k = 0 \<or> k = 1" for k :: u32
    by (auto simp: word_less_nat_alt word_unat_eq_iff)
  show "measured_cell memoryless_env limit i j \<longleftrightarrow> i < 2 \<and> j = 1"
    using assms by (auto simp: measured_cell_def memoryless_machine two)
qed

lemma small_region_on:
  assumes "0 < sz" and "0 < page" and "0 < line"
  shows "\<exists>r. MemRegion small_env sz sz page line NODE1 NONE = Inr r"
  using assms
  by (simp add: MemRegion_def allocNative_def set_placement_def shift_one_def small_env_def Let_def word_greater_zero_iff)

lemma parse_config_args:
  assumes "config_frame nc t config" and "\<not> cf_help config" and "auto_correct config = config"
  shows "parse_options (Configuration nc t) (config_args config) = Inr config"
  using config_args_parse [OF assms(1,2)] assms(2,3) by (simp add: parse_options_def)

lemma latency_matrix_program_witness:
  "\<exists>args text bound0 bound1 L0 L1. main_idle_latency (\<lambda>_ _ _. example_run_env) 4 (NumaConfig memoryless_env) args =
     ret (0, [Text text, Text (''Idle Latency (ns) - '' @ get_str_access_pattern_short 1),
       Text ''Node-0'', Text ''Node-1'', endl, Text ''Node-0'', Text bound0, Number L0,
       endl, Text ''Node-1'', Text bound1, Number L1, endl, endl])"
proof -
  define config where "config = (default_configuration (NumaConfig memoryless_env) LATENCY)\<lparr>cf_latency_matrix := True\<rparr>"
  have cf: "cf_num_threads config = 1" "cf_region_size_kb config = 524288" "cf_chunk_size_kb config = 128"
    "cf_stride_size_b config = 128" "cf_target_duration_s config = 10" "cf_use_hugepage config = 0"
    "cf_latency_matrix config" "cf_access_pattern config = 1"
    by (simp_all add: config_def default_configuration_def)
  have p: "parse_options (Configuration (NumaConfig memoryless_env) LATENCY) (config_args config) = Inr config"
    by (rule parse_config_args) (simp_all add: config_def config_frame_def default_configuration_def auto_correct_def)
  have sizes: "latency_sizes_ok config" by (simp add: latency_sizes_ok_def latency_sizes_def cf)
  have cells: "\<forall>i j. measured_cell memoryless_env (2 ^ 30) i j \<longrightarrow>
      latency_cell_ok (\<lambda>_. example_run_env) (unat (cell_threads memoryless_env config i)) config j (\<lambda>_. 1) (\<lambda>_. 10)"
  proof (intro allI impI)
    fix i j assume "measured_cell memoryless_env (2 ^ 30) i j"
    then have ij: "i = 0 \<or> i = 1" "j = 1"
      using memoryless_table(2) [of "2 ^ 30" i j] by (auto simp: word_less_nat_alt word_unat_eq_iff)
    have one: "unat (cell_threads memoryless_env config i) = 1"
      using ij(1) by (auto simp: cell_threads_def memoryless_machine cf)
    have "\<exists>r. MemRegion small_env 536870912 536870912 131072 128 NODE1 NONE = Inr r"
      by (rule small_region_on) simp_all
    then have alloc: "alloc_succeeds example_run_env 1 config j"
      by (simp add: alloc_succeeds_def cf ij(2) example_run_env_def example_thread_env_def mem_type_of_def hugepage_type_of_def)
    have "clocks_steady example_run_env 1 1 (\<lambda>_. 1)" "clocks_steady example_run_env 1 10 (\<lambda>_. 10)"
      by (rule example_clocks; simp)+
    moreover have "run_succeeds example_run_env 1" by (simp add: run_succeeds_def example_run_env_def)
    ultimately show "latency_cell_ok (\<lambda>_. example_run_env) (unat (cell_threads memoryless_env config i)) config j (\<lambda>_. 1) (\<lambda>_. 10)"
      unfolding one using alloc example_slow by (simp add: latency_cell_ok_def cf)
  qed
  obtain f where f: "main_idle_latency (\<lambda>_ _ _. example_run_env) 4 (NumaConfig memoryless_env) (config_args config) =
      ret (0, Text (cf_dump config) # node_table (latency_title config) memoryless_env (2 ^ 30) f @ [endl])"
    "\<And>i j. measured_cell memoryless_env (2 ^ 30) i j \<Longrightarrow> \<exists>bound L. f i j = [Text bound, Number L]"
    using latency_matrix_program [where envs = "\<lambda>_ _ _. example_run_env" and hw = 4, OF p cf(7) _ sizes cells]
    by (force simp: cf latency_cell_shows_def Let_def)
  have "measured_cell memoryless_env (2 ^ 30) 0 1" "measured_cell memoryless_env (2 ^ 30) 1 1"
    by (simp_all add: memoryless_table(2))
  then obtain bound0 L0 bound1 L1 where "f 0 1 = [Text bound0, Number L0]" "f 1 1 = [Text bound1, Number L1]"
    using f(2) by metis
  with f(1) memoryless_table(1) [of "2 ^ 30"]
  have "main_idle_latency (\<lambda>_ _ _. example_run_env) 4 (NumaConfig memoryless_env) (config_args config) =
     ret (0, [Text (cf_dump config), Text (''Idle Latency (ns) - '' @ get_str_access_pattern_short 1),
       Text ''Node-0'', Text ''Node-1'', endl, Text ''Node-0'', Text bound0, Number L0,
       endl, Text ''Node-1'', Text bound1, Number L1, endl, endl])"
    by (simp add: latency_title_def cf)
  then show ?thesis by blast
qed

section \<open>Peak bandwidth\<close>

definition bandwidth_cell_ok ::
    "(nat \<Rightarrow> run_env) \<Rightarrow> nat \<Rightarrow> configuration \<Rightarrow> u32 \<Rightarrow> (nat \<Rightarrow> u32 \<Rightarrow> nat \<Rightarrow> nat) \<Rightarrow> bool" where
  "bandwidth_cell_ok envs n config j K \<longleftrightarrow>
     alloc_bw_succeeds (envs 0) n config j \<and> (\<forall>k. run_succeeds (envs k) n) \<and> clocks_for_sweep envs n config K"

definition bandwidth_cell_shows ::
    "(nat \<Rightarrow> run_env) \<Rightarrow> u32 \<Rightarrow> configuration \<Rightarrow> (nat \<Rightarrow> u32 \<Rightarrow> nat \<Rightarrow> nat) \<Rightarrow> event list \<Rightarrow> bool" where
  "bandwidth_cell_shows envs num config K out \<longleftrightarrow>
     (let kernels = get_kernels_with_wrmix (cf_read_write_mix config)
      in \<exists>bound rows. out = Text bound # rows \<and>
           bandwidth_rows envs K config num 1 (hd kernels # kernels) 0 rows)"

lemma peak_bandwidth_cell_returns:
  assumes cell: "measured_cell nenv limit i j" and num: "cf_num_threads config \<noteq> 0"
    and size: "8192 \<le> unat (cf_region_size_kb config * 1024)" and secs: "0 < unat (cf_target_duration_s config)"
    and ok: "bandwidth_cell_ok envs (unat (cell_threads nenv config i)) config j K"
  shows "\<exists>out. peak_bandwidth_cell envs hw config j
      (allowed_cpus_of_node nenv (num_cpus_possible (NumaConfig nenv)) i) = ret out \<and>
    bandwidth_cell_shows envs (cell_threads nenv config i) config K out"
proof -
  let ?cpus = "allowed_cpus_of_node nenv (num_cpus_possible (NumaConfig nenv)) i"
  let ?n = "unat (cell_threads nenv config i)" and ?kernels = "get_kernels_with_wrmix (cf_read_write_mix config)"
  obtain shown err and wm :: mem_manager where wm: "WorkerThreadManager hw MemLatBwThreadPacket
      (cell_threads nenv config i) ?cpus True (cf_verbose config) = (shown, err, wm)"
    by (metis prod_cases3)
  note new = new_manager [OF wm]
  have n: "?n = unat (wm_num_threads wm)" "0 < ?n"
    using new(2) cell_threads_bounds(2) [OF cell num] by simp_all
  have calls: "\<And>k. run_succeeds (envs k) ?n" and alloc: "alloc_bw_succeeds (envs 0) ?n config j"
    and clocks: "clocks_for_sweep envs ?n config K"
    using ok unfolding bandwidth_cell_ok_def by blast+
  have pk: "\<And>k. k < ?n \<Longrightarrow> bp_num_threads (wm_packets wm ! k) = wm_num_threads wm"
    using new_manager_packets [OF wm] unfolding new(2) .
  obtain wm1 where w1: "setup_memory_regions_peak_bandwidth (envs 0) wm config j = ret wm1"
      "wm_num_threads wm1 = wm_num_threads wm" "streams_ready (cf_region_size_kb config * 1024) wm1"
    using setup_peak_bandwidth_returns [OF new(1) n(1) calls size alloc pk] by blast
  have num1: "cell_threads nenv config i = wm_num_threads wm1" using w1(2) new(2) by simp
  obtain out where out: "bandwidth_sweep envs 1 config (hd ?kernels # ?kernels) wm1 0 = ret out"
      "bandwidth_rows envs K config (cell_threads nenv config i) 1 (hd ?kernels # ?kernels) 0 out"
    using bandwidth_sweep_returns [OF w1(3) num1 n(2) calls sweep_kernels_like clocks secs] by blast
  have "peak_bandwidth_cell envs hw config j ?cpus = ret (Text shown # out)"
    using wm w1(1) out(1)
    by (simp add: peak_bandwidth_cell_def run_peak_bandwidth_def Let_def cell_threads_def [symmetric])
  with out(2) show ?thesis by (auto simp: bandwidth_cell_shows_def Let_def)
qed

text \<open>The sweep over all mixes is one of the reads alone in a matrix.\<close>

definition matrix_configuration :: "configuration \<Rightarrow> configuration" where
  "matrix_configuration config =
     (if cf_read_write_mix config = read_write_mix_sweep then config\<lparr>cf_read_write_mix := 0\<rparr> else config)"

text \<open>
  C7. The bandwidth matrix, end to end. With \<open>--bandwidth_matrix\<close> the program ends with
  status 0 and prints a table with a heading for each node and a line for each node with
  CPUs the process may use. A line has a value for each node with at least two gigabytes
  of memory: the rate in GB/s, within \<open>2 ^ -12\<close> of what the kernel of the mix has moved,
  measured after a run of its own that calibrates the checkpoints and prints nothing. The
  value is left out when that run came to less than 1 GB/s.
\<close>

theorem bandwidth_matrix_program:
  fixes envs :: "u32 \<Rightarrow> u32 \<Rightarrow> nat \<Rightarrow> run_env" and config :: configuration
  defines "used \<equiv> matrix_configuration config"
  assumes parsed: "parse_options (Configuration (NumaConfig nenv) BANDWIDTH) args = Inr config"
    and mode: "cf_bandwidth_matrix config" "cf_num_threads config \<noteq> 0" "cf_target_duration_s config \<noteq> 0"
    and size: "8192 \<le> unat (cf_region_size_kb config * 1024)"
    and cells: "\<forall>i j. measured_cell nenv (2 ^ 31) i j \<longrightarrow>
      bandwidth_cell_ok (envs i j) (unat (cell_threads nenv config i)) config j (K i j)"
  shows "\<exists>f. main_peak_bandwidth envs setup_time hw (NumaConfig nenv) args =
      ret (0, Text (cf_dump used) # node_table ''Peak Bandwidth (GB/s)'' nenv (2 ^ 31) f @ [endl]) \<and>
    (\<forall>i j. measured_cell nenv (2 ^ 31) i j \<longrightarrow>
      bandwidth_cell_shows (envs i j) (cell_threads nenv config i) used (K i j) (f i j))"
proof -
  have used: "cf_num_threads used = cf_num_threads config" "cf_bandwidth_matrix used" "cf_num_threads used \<noteq> 0"
    "0 < unat (cf_target_duration_s used)" "8192 \<le> unat (cf_region_size_kb used * 1024)"
    "cf_numa_config used = NumaConfig nenv"
    using mode size parsed_machine [OF parsed] by (simp_all add: used_def matrix_configuration_def unat_gt_0)
  have ct: "cell_threads nenv used = cell_threads nenv config"
    by (simp add: cell_threads_def used(1) fun_eq_iff)
  have ok: "bandwidth_cell_ok e n used j k = bandwidth_cell_ok e n config j k" for e n j k
    by (simp add: bandwidth_cell_ok_def alloc_bw_succeeds_def clocks_for_sweep_def used_def matrix_configuration_def)
  have "\<exists>out. peak_bandwidth_cell (envs i j) hw used j
      (allowed_cpus_of_node nenv (num_cpus_possible (NumaConfig nenv)) i) = ret out \<and>
    bandwidth_cell_shows (envs i j) (cell_threads nenv config i) used (K i j) out"
    if "measured_cell nenv (2 ^ 31) i j" for i j
    using peak_bandwidth_cell_returns [OF that used(3,5,4)] cells that unfolding ct ok by blast
  note each = this
  obtain f where f: "node_matrix ''Peak Bandwidth (GB/s)'' (2 ^ 31) (\<lambda>i j. peak_bandwidth_cell (envs i j) hw used j)
        (NumaConfig nenv) = ret (node_table ''Peak Bandwidth (GB/s)'' nenv (2 ^ 31) f)"
    "\<forall>i j. measured_cell nenv (2 ^ 31) i j \<longrightarrow>
      bandwidth_cell_shows (envs i j) (cell_threads nenv config i) used (K i j) (f i j)"
    using node_matrix_meets [where cell = "\<lambda>i j. peak_bandwidth_cell (envs i j) hw used j", OF each] by blast
  note matrix_limits(2)
  moreover have "(if cf_bandwidth_matrix config \<and> cf_read_write_mix config = read_write_mix_sweep
      then config\<lparr>cf_read_write_mix := 0\<rparr> else config) = used"
    using mode(1) by (simp add: used_def matrix_configuration_def)
  ultimately have "main_peak_bandwidth envs setup_time hw (NumaConfig nenv) args =
      ret (0, Text (cf_dump used) # node_table ''Peak Bandwidth (GB/s)'' nenv (2 ^ 31) f @ [endl])"
    using f(1) parsed used(2,6)
    by (simp add: main_peak_bandwidth_def setup_and_run_peak_bandwidth_def Let_def)
  with f(2) show ?thesis by blast
qed

lemma bandwidth_matrix_program_witness:
  "\<exists>args out. main_peak_bandwidth (\<lambda>_ _ _. example_run_env) '''' 4 (NumaConfig memoryless_env) args =
     ret (0, out) \<and> Text ''Peak Bandwidth (GB/s)'' \<in> set out"
proof -
  define config where "config = (default_configuration (NumaConfig memoryless_env) BANDWIDTH)\<lparr>cf_bandwidth_matrix := True\<rparr>"
  have cf: "cf_num_threads config \<noteq> 0" "cf_region_size_kb config = 131072" "cf_target_duration_s config = 10"
    "cf_bandwidth_matrix config"
    by (simp_all add: config_def default_configuration_def memoryless_env_def example_env_def NumaConfig_def Let_def below_numeral)
  have p: "parse_options (Configuration (NumaConfig memoryless_env) BANDWIDTH) (config_args config) = Inr config"
    by (rule parse_config_args) (simp_all add: config_def config_frame_def default_configuration_def auto_correct_def)
  have cells: "\<forall>i j. measured_cell memoryless_env (2 ^ 31) i j \<longrightarrow>
      bandwidth_cell_ok (\<lambda>_. example_run_env) (unat (cell_threads memoryless_env config i)) config j (\<lambda>_ secs _. unat secs)"
  proof (intro allI impI)
    fix i j assume "measured_cell memoryless_env (2 ^ 31) i j"
    then have j: "j = 1" using memoryless_table(2) [of "2 ^ 31" i j] by simp
    have "\<exists>r. MemRegion small_env 134217728 134217728 4096 64 NODE1 NONE = Inr r"
      by (rule small_region_on) simp_all
    then have "alloc_bw_succeeds example_run_env n config j" for n
      by (simp add: alloc_bw_succeeds_def cf j example_run_env_def example_thread_env_def mem_type_of_def)
    moreover have "run_succeeds example_run_env n" for n by (simp add: run_succeeds_def example_run_env_def)
    moreover have "clocks_for_sweep (\<lambda>_. example_run_env) n config (\<lambda>_ secs _. unat secs)" for n
      unfolding clocks_for_sweep_def cf by (intro allI conjI example_readings) simp_all
    ultimately show "bandwidth_cell_ok (\<lambda>_. example_run_env) (unat (cell_threads memoryless_env config i)) config j
        (\<lambda>_ secs _. unat secs)"
      by (simp add: bandwidth_cell_ok_def)
  qed
  have ne: "cf_target_duration_s config \<noteq> 0" "8192 \<le> unat (cf_region_size_kb config * 1024)" by (simp_all add: cf)
  from bandwidth_matrix_program [where envs = "\<lambda>_ _ _. example_run_env" and hw = 4 and setup_time = "''''",
      OF p cf(4,1) ne cells]
  obtain out where "main_peak_bandwidth (\<lambda>_ _ _. example_run_env) '''' 4 (NumaConfig memoryless_env) (config_args config) =
      ret (0, out)" "Text ''Peak Bandwidth (GB/s)'' \<in> set out"
    by (auto simp: node_table_def Let_def)
  then show ?thesis by blast
qed

section \<open>Placement\<close>

text \<open>An operating system that refuses every memory policy but one, or every policy.\<close>

definition only_policy :: "(mempolicy \<times> u64) option \<Rightarrow> alloc_env \<Rightarrow> alloc_env" where
  "only_policy allowed env =
     env\<lparr>env_set_mempolicy := \<lambda>mode nodemask maxnode.
           if allowed = Some (mode, nodemask) then env_set_mempolicy env mode nodemask maxnode else - 1\<rparr>"

definition node_policy :: "alloc_env \<Rightarrow> u32 \<Rightarrow> (mempolicy \<times> u64) option" where
  "node_policy env j =
     (if j < 8 then Some (MPOL_BIND, push_bit (unat j) 1)
      else if j = 8 then Some (MPOL_INTERLEAVE, push_bit (nat (env_numa_max_node env + 1)) 1 - 1)
      else None)"

lemma node_cases:
  fixes j :: u32
  obtains "j = 0" | "j = 1" | "j = 2" | "j = 3" | "j = 4" | "j = 5" | "j = 6" | "j = 7" | "j = 8" | "9 \<le> j"
proof (cases "9 \<le> j")
  case False
  then have "unat j \<in> {0, 1, 2, 3, 4, 5, 6, 7, 8}" by (auto simp: word_le_nat_alt)
  then show ?thesis using that by (auto simp: word_unat_eq_iff)
qed (rule that)

lemma small_code:
  assumes "1 \<le> v" and "v \<le> 9"
  shows "(word_of_int v :: u32) \<in> {1, 2, 3, 4, 5, 6, 7, 8, 9}"
proof -
  have "v = 1 \<or> v = 2 \<or> v = 3 \<or> v = 4 \<or> v = 5 \<or> v = 6 \<or> v = 7 \<or> v = 8 \<or> v = 9" using assms by arith
  then show ?thesis by (elim disjE) simp_all
qed

lemma far_node_type:
  assumes "9 \<le> (j :: u32)"
  shows "\<not> (1 \<le> mem_type_code (mem_type_of (1 + j)) \<and> mem_type_code (mem_type_of (1 + j)) \<le> 9)"
proof -
  let ?c = "1 + j"
  have "j \<notin> {0, 1, 2, 3, 4, 5, 6, 7, 8}" using assms by (auto simp: word_le_nat_alt)
  moreover have "?c = c \<longleftrightarrow> j = c - 1" for c by auto
  ultimately have "?c \<notin> {1, 2, 3, 4, 5, 6, 7, 8, 9}" by simp
  moreover have "?c \<in> {1, 2, 3, 4, 5, 6, 7, 8, 9}" if "1 \<le> sint ?c" "sint ?c \<le> 9"
    using small_code [of "sint ?c"] that by simp
  ultimately show ?thesis by (auto simp: mem_type_of_def)
qed

lemma set_placement_node:
  "set_placement (only_policy (node_policy env j) env) (mem_type_of (1 + j)) = set_placement env (mem_type_of (1 + j))"
proof (cases j rule: node_cases)
  case 10
  then show ?thesis using far_node_type [of j] by (auto simp: set_placement_def)
qed (auto simp: set_placement_def mem_type_of_def only_policy_def node_policy_def shift_one_def Let_def
       split: sum.splits)

lemma only_policy_fields:
  "env_numa_pagesize (only_policy p env) = env_numa_pagesize env"
  "env_getpagesize (only_policy p env) = env_getpagesize env" "env_mmap (only_policy p env) = env_mmap env"
  "env_aligned_alloc (only_policy p env) = env_aligned_alloc env"
  "env_strerror (only_policy p env) = env_strerror env"
  by (simp_all add: only_policy_def)

lemma MemRegion_node:
  "MemRegion (only_policy (node_policy env j) env) sz active page line (mem_type_of (1 + j)) ht =
   MemRegion env sz active page line (mem_type_of (1 + j)) ht"
  unfolding MemRegion_def allocNative_def set_placement_node only_policy_fields ..

text \<open>A run depends on what the threads meet only through what their routines make of it.\<close>

lemma run_routine_cong:
  assumes "\<And>i. i < unat (wm_num_threads wm) \<Longrightarrow>
      routine r (rn_threads env i) (wm_packets wm ! i) = routine r (rn_threads env' i) (wm_packets wm ! i)"
    and "rn_join env = rn_join env'"
  shows "run_routine env r wm = run_routine env' r wm"
proof -
  let ?wm = "setRoutine (Some r) wm" and ?x = "\<lambda>e i r p. routine r (rn_threads e i) p"
  have "thread_results (?x env) wm1 = thread_results (?x env') wm1"
    if "create rc st ?wm = (err, Inr wm1)" for rc st err wm1
  proof -
    have "wm_start_routines wm1 = wm_start_routines ?wm" "wm_packets wm1 = wm_packets wm"
      "wm_num_threads wm1 = wm_num_threads wm"
      using that by (auto simp: create_def Let_def setRoutine_def split: if_splits)
    then show ?thesis using assms(1) by (simp add: thread_results_def setRoutine_def)
  qed
  then show ?thesis
    unfolding run_routine_def run_workers_def run_threads_def assms(2)
    by (cases "create (je_create (rn_join env')) (je_strerror (rn_join env')) ?wm"; cases "snd (create (je_create (rn_join env')) (je_strerror (rn_join env')) ?wm)") simp_all
qed

text \<open>The same run on a system that refuses all memory policies but the one of node \<open>j\<close>.\<close>

definition only_node :: "u32 \<Rightarrow> run_env \<Rightarrow> run_env" where
  "only_node j env = env\<lparr>rn_threads := \<lambda>i. let te = rn_threads env i
     in te\<lparr>te_alloc := only_policy (node_policy (te_alloc te) j) (te_alloc te)\<rparr>\<rparr>"

lemma alloc_routine_node:
  assumes "r = Alloc_Lat \<or> r = Alloc_Bw" and "pk_mem_type p = 1 + j"
  shows "routine r (rn_threads (only_node j env) i) p = routine r (rn_threads env i) p"
  using assms
  by (auto simp: only_node_def Let_def mem_region_alloc_lat_def mem_region_alloc_bw_def alloc_lat_region_def
      init_region_def MemRegion_node cong: if_cong)

lemma setup_on_node:
  assumes wf: "manager_wf wm" and r: "r = Alloc_Lat \<or> r = Alloc_Bw"
  shows "run_routine (only_node j env) r (prepare_mem_lat_bw_thread_packet wm config j) =
    run_routine env r (prepare_mem_lat_bw_thread_packet wm config j)"
proof (rule run_routine_cong)
  note m = map_packets_wf [OF wf, where f = "\<lambda>_ p. (copy_mem_region_config config p)\<lparr>pk_mem_type := 1 + j\<rparr>",
      folded prepare_mem_lat_bw_thread_packet_def]
  fix i assume "i < unat (wm_num_threads (prepare_mem_lat_bw_thread_packet wm config j))"
  then have "pk_mem_type (wm_packets (prepare_mem_lat_bw_thread_packet wm config j) ! i) = 1 + j"
    using m(2,3) by simp
  from alloc_routine_node [OF r this]
  show "routine r (rn_threads (only_node j env) i) (wm_packets (prepare_mem_lat_bw_thread_packet wm config j) ! i) =
    routine r (rn_threads env i) (wm_packets (prepare_mem_lat_bw_thread_packet wm config j) ! i)" .
qed (simp add: only_node_def)

text \<open>What one thread of a setup makes of its packet, once the whole setup has returned.\<close>

lemma run_routine_results:
  assumes "run_routine env r wm = ret wm'" and wf: "manager_wf wm" and i: "i < unat (wm_num_threads wm)"
  shows "routine r (rn_threads env i) (wm_packets wm ! i) = ret (wm_packets wm' ! i)"
proof -
  let ?wm = "setRoutine (Some r) wm" and ?exec = "\<lambda>i r p. routine r (rn_threads env i) p"
  note s = setRoutine_wf [OF wf, where r = "Some r"]
  obtain wm1 ps where c: "snd (create (je_create (rn_join env)) (je_strerror (rn_join env)) ?wm) = Inr wm1"
    and ps: "collect (thread_results ?exec wm1) = ret ps" "wm' = wm1\<lparr>wm_packets := ps\<rparr>"
    using assms(1) unfolding run_routine_def run_workers_def run_threads_def by (auto elim!: andthen_eq_retE)
  have wm1: "wm_start_routines wm1 = wm_start_routines ?wm" "wm_packets wm1 = wm_packets wm"
    "wm_num_threads wm1 = wm_num_threads wm"
    using c s(2,3) by (auto simp: create_def Let_def split: if_splits)
  have "thread_results ?exec wm1 ! i = ret (ps ! i)"
    using collect_eq_ret [OF ps(1)] i wm1(3) by (simp add: thread_results_def)
  with i s(4) [of i] ps(2) wm1 show ?thesis by (simp add: thread_results_def)
qed

text \<open>
  What it means for a region to be on node \<open>j\<close>: the policy set before its memory was allocated
  is the one of the node, and the system has accepted it. An empty region has no memory.
\<close>

definition placed_on :: "alloc_env \<Rightarrow> u32 \<Rightarrow> mem_region \<Rightarrow> bool" where
  "placed_on env j r =
     (if mr_size r = 0 then mr_policy r = None
      else mr_policy r = node_policy env j \<and>
        (case node_policy env j of
           None \<Rightarrow> True
         | Some (mode, nodemask) \<Rightarrow>
             0 \<le> env_set_mempolicy env mode nodemask (word_of_int (env_numa_max_node env + 1 + 1))))"

lemma set_placement_policy:
  assumes "set_placement env (mem_type_of (1 + j)) = Inr policy"
  shows "policy = node_policy env j \<and> (case policy of
      None \<Rightarrow> True
    | Some (mode, nodemask) \<Rightarrow>
        0 \<le> env_set_mempolicy env mode nodemask (word_of_int (env_numa_max_node env + 1 + 1)))"
proof (cases j rule: node_cases)
  case 10
  then have "\<not> j < 8" "j \<noteq> 8" by (auto simp: word_le_nat_alt word_less_nat_alt)
  then show ?thesis using far_node_type [OF 10] assms by (auto simp: set_placement_def node_policy_def)
qed (use assms in \<open>auto simp: set_placement_def mem_type_of_def node_policy_def shift_one_def Let_def not_less
       split: sum.splits if_splits\<close>)

lemma MemRegion_placed:
  assumes "MemRegion env sz active page line (mem_type_of (1 + j)) ht = Inr r"
  shows "placed_on env j r"
  using assms set_placement_policy [of env j]
  by (auto simp: MemRegion_def allocNative_def placed_on_def Let_def word_greater_zero_iff
      split: if_splits sum.splits)

lemma alloc_routine_placed:
  assumes "routine r te p = ret q" and "r = Alloc_Lat \<or> r = Alloc_Bw" and "pk_mem_type p = 1 + j"
  shows "\<exists>r. pk_mem_region q = Some r \<and> placed_on (te_alloc te) j r"
proof -
  have keep: "placed_on (te_alloc te) j r'" if "placed_on (te_alloc te) j r" "init_region te pat r = ret r'" for pat r r'
  proof -
    have "mr_size r' = mr_size r" "mr_policy r' = mr_policy r"
      using arg_cong [OF init_region_keeps [OF that(2)], of mr_size] arg_cong [OF init_region_keeps [OF that(2)], of mr_policy]
      by simp_all
    with that(1) show ?thesis by (simp add: placed_on_def)
  qed
  show ?thesis
    using assms
    by (auto simp: mem_region_alloc_lat_def mem_region_alloc_bw_def alloc_lat_region_def
        dest!: MemRegion_placed elim!: andthen_eq_retE) (blast intro: keep)
qed

lemma setup_placed:
  assumes run: "run_routine env r (prepare_mem_lat_bw_thread_packet wm config j) = ret wm'"
    and wf: "manager_wf wm" and r: "r = Alloc_Lat \<or> r = Alloc_Bw" and k: "k < unat (wm_num_threads wm)"
  shows "\<exists>r. pk_mem_region (wm_packets wm' ! k) = Some r \<and> placed_on (te_alloc (rn_threads env k)) j r"
proof -
  note m = map_packets_wf [OF wf, where f = "\<lambda>_ p. (copy_mem_region_config config p)\<lparr>pk_mem_type := 1 + j\<rparr>",
      folded prepare_mem_lat_bw_thread_packet_def]
  have "pk_mem_type (wm_packets (prepare_mem_lat_bw_thread_packet wm config j) ! k) = 1 + j"
    using m(2,3) k by simp
  from alloc_routine_placed [OF run_routine_results [OF run m(1)] r this] k m(2) show ?thesis by simp
qed

text \<open>
  C22. Where a cell of the matrices runs. The threads of the cell of nodes \<open>i\<close> and \<open>j\<close> are
  pinned to CPUs of node \<open>i\<close> that the process may use, each to one of its own. When the setup
  returns, every thread has a region whose memory was allocated under the policy of node
  \<open>j\<close>, which the system has accepted: for the first eight nodes that is a binding to node
  \<open>j\<close> alone. For node 8 it is interleaving over all nodes, and for the nodes after it there is
  none. No other policy is asked for: refusing all others changes nothing.
\<close>

theorem cell_placement:
  fixes wm :: mem_manager
  assumes cell: "measured_cell nenv limit i j"
    and wm: "WorkerThreadManager hw p0 (cell_threads nenv config i)
      (allowed_cpus_of_node nenv (num_cpus_possible (NumaConfig nenv)) i) True verbose = (shown, err, wm)"
  shows "set (wm_bound_cpu wm) \<subseteq> set (cpus_of_node nenv (num_cpus_possible (NumaConfig nenv)) i) \<inter>
      set (all_allowed_cpus (NumaConfig nenv)) \<and> distinct (wm_bound_cpu wm) \<and>
    (\<forall>wm' k. setup_memory_regions_idle_latency env wm config j = ret wm' \<or>
        setup_memory_regions_peak_bandwidth env wm config j = ret wm' \<longrightarrow> k < unat (wm_num_threads wm) \<longrightarrow>
      (\<exists>r. pk_mem_region (wm_packets wm' ! k) = Some r \<and> placed_on (te_alloc (rn_threads env k)) j r)) \<and>
    setup_memory_regions_idle_latency (only_node j env) wm config j = setup_memory_regions_idle_latency env wm config j \<and>
    setup_memory_regions_peak_bandwidth (only_node j env) wm config j = setup_memory_regions_peak_bandwidth env wm config j"
proof -
  let ?cpus = "allowed_cpus_of_node nenv (num_cpus_possible (NumaConfig nenv)) i"
  note wf = new_manager(1) [OF wm]
  have bound: "wm_bound_cpu wm = map (bind_cpu (cell_threads nenv config i) ?cpus) (below (cell_threads nenv config i))"
    using wm cell by (auto simp: WorkerThreadManager_def Let_def measured_cell_def)
  have "?cpus \<noteq> []" using cell by (simp add: measured_cell_def)
  then have "set (wm_bound_cpu wm) \<subseteq> set ?cpus" unfolding bound using bind_cpu_in by fastforce
  moreover have "set ?cpus \<subseteq> set (cpus_of_node nenv (num_cpus_possible (NumaConfig nenv)) i)"
    by (auto simp: allowed_cpus_of_node_def cpus_of_node_def split: option.splits)
  moreover have "distinct (wm_bound_cpu wm)"
    unfolding bound by (intro distinct_bound cell_threads_bounds(1) distinct_allowed(2))
  moreover have "\<exists>r. pk_mem_region (wm_packets wm' ! k) = Some r \<and> placed_on (te_alloc (rn_threads env k)) j r"
    if "setup_memory_regions_idle_latency env wm config j = ret wm' \<or>
        setup_memory_regions_peak_bandwidth env wm config j = ret wm'" "k < unat (wm_num_threads wm)" for wm' k
    using that setup_placed [OF _ wf _ that(2)]
    unfolding setup_memory_regions_idle_latency_def setup_memory_regions_peak_bandwidth_def by blast
  ultimately show ?thesis
    using allowed_cpus_of_node_allowed [of nenv i] setup_on_node [OF wf]
    by (auto simp: setup_memory_regions_idle_latency_def setup_memory_regions_peak_bandwidth_def)
qed

definition cell_manager :: mem_manager where
  "cell_manager = snd (snd (WorkerThreadManager 4 MemLatBwThreadPacket 2 [0, 1] True False))"

lemma cell_placement_witness:
  "set (wm_bound_cpu cell_manager) \<subseteq> {0, 1} \<and> distinct (wm_bound_cpu cell_manager) \<and>
   (\<exists>wm' r. setup_memory_regions_peak_bandwidth example_run_env cell_manager
       (default_configuration (NumaConfig memoryless_env) BANDWIDTH) 1 = ret wm' \<and>
     pk_mem_region (wm_packets wm' ! 1) = Some r \<and> mr_size r = 134217728 \<and> mr_policy r = Some (MPOL_BIND, 2))"
proof -
  let ?config = "default_configuration (NumaConfig memoryless_env) BANDWIDTH"
  have cell: "measured_cell memoryless_env (2 ^ 31) 0 1" by (simp add: memoryless_table(2))
  have three: "all_allowed_cpus (NumaConfig memoryless_env) = [0, 1, 2]"
    by (simp add: memoryless_env_def example_env_def NumaConfig_def Let_def below_numeral)
  then have two: "cell_threads memoryless_env ?config 0 = 2"
    by (simp add: cell_threads_def memoryless_machine default_configuration_def)
  then obtain shown err where wm: "WorkerThreadManager 4 MemLatBwThreadPacket (cell_threads memoryless_env ?config 0)
      (allowed_cpus_of_node memoryless_env (num_cpus_possible (NumaConfig memoryless_env)) 0) True False =
      (shown, err, cell_manager)"
    unfolding cell_manager_def memoryless_machine(2) by (metis prod.collapse)
  have nodes: "cpus_of_node memoryless_env (num_cpus_possible (NumaConfig memoryless_env)) 0 = [0, 1]"
    by (simp add: memoryless_env_def example_env_def NumaConfig_def Let_def cpus_of_node_def below_numeral)
  have "\<exists>wm'. setup_memory_regions_peak_bandwidth example_run_env cell_manager ?config 1 = ret wm' \<and>
      wm_num_threads wm' = 2 \<and> streams_ready 134217728 wm'"
  proof -
    have "\<exists>r. MemRegion small_env 134217728 134217728 4096 64 NODE1 NONE = Inr r"
      by (rule small_region_on) simp_all
    then have "alloc_bw_succeeds example_run_env 2 ?config 1"
      by (simp add: alloc_bw_succeeds_def example_run_env_def example_thread_env_def mem_type_of_def default_configuration_def)
    moreover have "run_succeeds example_run_env 2" by (simp add: run_succeeds_def example_run_env_def)
    ultimately show ?thesis
      using setup_peak_bandwidth_returns [OF new_manager(1) [OF wm], of 2 example_run_env ?config 1]
        new_manager_packets [OF wm] new_manager(2) [OF wm] two
      by (auto simp: default_configuration_def)
  qed
  then obtain wm' where wm': "setup_memory_regions_peak_bandwidth example_run_env cell_manager ?config 1 = ret wm'"
    "wm_num_threads wm' = 2" "streams_ready 134217728 wm'" by blast
  note place = cell_placement [OF cell wm, of example_run_env]
  obtain r where r: "pk_mem_region (wm_packets wm' ! 1) = Some r" "placed_on small_env 1 r"
  proof -
    have "1 < unat (wm_num_threads cell_manager)" using new_manager(2) [OF wm] two by simp
    then have "\<exists>r. pk_mem_region (wm_packets wm' ! 1) = Some r \<and> placed_on (te_alloc (rn_threads example_run_env 1)) 1 r"
      using place wm'(1) by blast
    with that show thesis by (auto simp: example_run_env_def example_thread_env_def)
  qed
  have "length (wm_packets wm') = 2" using wm'(2,3) by (simp add: streams_ready_def manager_wf_def)
  then have "wm_packets wm' ! 1 \<in> set (wm_packets wm')" by simp
  then have "stream_ready (wm_num_threads wm') 134217728 (wm_packets wm' ! 1)"
    using wm'(3) by (auto simp: streams_ready_def list_all_iff)
  then have "mr_size r = 134217728" using r(1) by (auto simp: stream_ready_def)
  with r place wm'(1) nodes show ?thesis by (auto simp: placed_on_def node_policy_def)
qed

end
