(* ===== verification/Clean_Exit.thy ===== *)
theory Clean_Exit
  imports Loaded_Run Memcpy_Run Matrix_Run Branch_Program
begin

text \<open>
  What a thread that cannot be started, or is not joined, does to a program: it never ends
  with status 0, with or without a matrix. Read backwards, status 0 shows that every call for every thread of every
  run has succeeded.
\<close>

section \<open>One run\<close>

text \<open>The calls for the first \<open>n\<close> threads succeed; without a timeout \<open>join\<close> ignores its result.\<close>

definition calls_succeed :: "join_env \<Rightarrow> nat \<Rightarrow> bool" where
  "calls_succeed env n \<longleftrightarrow>
     (\<forall>i < n. je_create env i = 0 \<and> (0 < je_timeout env \<longrightarrow> je_join env i = 0))"

definition all_have_routines :: "('p, 'r) worker_manager \<Rightarrow> bool" where
  "all_have_routines wm \<longleftrightarrow> (\<forall>i < unat (wm_num_threads wm). wm_start_routines wm ! i \<noteq> None)"

lemma create_eq_retD:
  assumes "snd (create rc st wm) = Inr wm1"
  shows "wm1 = wm\<lparr>wm_created := map (starts rc wm) [0..<unat (wm_num_threads wm)]\<rparr>"
    and "i < unat (wm_num_threads wm) \<Longrightarrow> wm_start_routines wm ! i \<noteq> None \<Longrightarrow> rc i = 0"
proof -
  let ?n = "unat (wm_num_threads wm)"
  have none: "\<forall>i < ?n. \<not> fails_to_start rc wm i"
    using assms by (auto simp: create_def Let_def filter_empty_conv split: if_splits)
  then show "i < ?n \<Longrightarrow> wm_start_routines wm ! i \<noteq> None \<Longrightarrow> rc i = 0" by (auto simp: fails_to_start_def)
  show "wm1 = wm\<lparr>wm_created := map (starts rc wm) [0..<?n]\<rparr>"
    using assms by (auto simp: create_def Let_def split: if_splits)
qed

lemma join_eq_retD:
  assumes "snd (join timeout_s rc ends st wm) = ret ()" and "0 < timeout_s"
    and "i < unat (wm_num_threads wm)" and "wm_created wm ! i"
  shows "rc i = 0"
  using assms by (auto simp: join_def Let_def filter_empty_conv split: if_splits)

lemma run_threads_eq_retD:
  assumes run: "run_threads exec env wm = ret wm'" and wf: "manager_wf wm" and all: "all_have_routines wm"
  shows "calls_succeed env (unat (wm_num_threads wm))" and "manager_wf wm'"
    and "wm_num_threads wm' = wm_num_threads wm"
proof -
  obtain wm1 ps where c: "snd (create (je_create env) (je_strerror env) wm) = Inr wm1"
    and j: "snd (join (je_timeout env) (je_join env) (\<lambda>_. True) (je_strerror env) wm1) = ret ()"
    and ps: "collect (thread_results exec wm1) = ret ps" "wm' = wm1\<lparr>wm_packets := ps\<rparr>"
    using run unfolding run_threads_def
    by (auto elim!: andthen_eq_retE)
  note wm1 = create_eq_retD [OF c]
  have started: "je_create env i = 0" "wm_created wm1 ! i" if "i < unat (wm_num_threads wm)" for i
    using wm1(2) [OF that] all that by (auto simp: all_have_routines_def wm1(1) starts_def)
  then show "calls_succeed env (unat (wm_num_threads wm))"
    using join_eq_retD [OF j] by (auto simp: calls_succeed_def wm1(1))
  have "length ps = unat (wm_num_threads wm)"
    using collect_eq_ret [OF ps(1)] by (simp add: thread_results_def wm1(1))
  then show "manager_wf wm'" "wm_num_threads wm' = wm_num_threads wm"
    using wf by (simp_all add: ps(2) wm1(1) manager_wf_def)
qed

lemma run_threads_routines:
  assumes "run_threads exec env wm = ret wm'"
  shows "wm_start_routines wm' = wm_start_routines wm"
proof -
  obtain wm1 ps where "snd (create (je_create env) (je_strerror env) wm) = Inr wm1" "wm' = wm1\<lparr>wm_packets := ps\<rparr>"
    using assms unfolding run_threads_def by (auto elim!: andthen_eq_retE)
  then show ?thesis using create_eq_retD(1) by fastforce
qed

lemma all_have_routines_set:
  assumes "manager_wf wm"
  shows "all_have_routines (setRoutine (Some r) wm)"
  using setRoutine_wf [OF assms, where r = "Some r"] by (simp add: all_have_routines_def)

lemma all_have_routines_split:
  assumes "manager_wf wm"
  shows "all_have_routines (split_routines a b wm)"
  using split_routines_wf [OF assms, where a = a and b = b] by (simp add: all_have_routines_def)

lemma run_routine_eq_retD:
  assumes "run_routine env r wm = ret wm'" and wf: "manager_wf wm"
  shows "calls_succeed (rn_join env) (unat (wm_num_threads wm))" and "manager_wf wm'"
    and "wm_num_threads wm' = wm_num_threads wm"
  using run_threads_eq_retD [OF assms(1) [unfolded run_routine_def run_workers_def] setRoutine_wf(1) [OF wf]
      all_have_routines_set [OF wf]] setRoutine_wf(2) [OF wf, where r = "Some r"] by simp_all

lemma run_split_eq_retD:
  assumes "run_workers env (split_routines a b wm) = ret wm'" and wf: "manager_wf wm"
  shows "calls_succeed (rn_join env) (unat (wm_num_threads wm))" and "manager_wf wm'"
    and "wm_num_threads wm' = wm_num_threads wm"
  using run_threads_eq_retD [OF assms(1) [unfolded run_workers_def] split_routines_wf(1) [OF wf]
      all_have_routines_split [OF wf]] split_routines_wf(2) [OF wf, where a = a and b = b] by simp_all

section \<open>Setups and measurements\<close>

lemma prepare_wf:
  assumes "manager_wf wm"
  shows "manager_wf (prepare_mem_lat_bw_thread_packet wm config node)"
    and "wm_num_threads (prepare_mem_lat_bw_thread_packet wm config node) = wm_num_threads wm"
  unfolding prepare_mem_lat_bw_thread_packet_def using map_packets_wf(1,2) [OF assms] by blast+

lemma setups_need_calls:
  assumes wf: "manager_wf wm"
    and "setup_memory_regions_idle_latency env wm config node = ret wm' \<or>
      setup_memory_regions_peak_bandwidth env wm config node = ret wm' \<or>
      setup_memory_regions_memcpy env wm config = ret wm' \<or>
      setup_memory_regions_loaded_latency env wm config = ret wm'"
  shows "calls_succeed (rn_join env) (unat (wm_num_threads wm)) \<and> manager_wf wm' \<and>
    wm_num_threads wm' = wm_num_threads wm"
proof -
  note p = prepare_wf [OF wf]
  consider r where "run_routine env r (prepare_mem_lat_bw_thread_packet wm config node) = ret wm'"
    | "run_routine env Alloc_Memcpy (prepare_mem_lat_bw_thread_packet wm config (- 1)) = ret wm'"
    | "run_workers env (split_routines Alloc_Lat Alloc_Bw (prepare_mem_lat_bw_thread_packet wm config (- 1))) = ret wm'"
    using assms(2)
    unfolding setup_memory_regions_idle_latency_def setup_memory_regions_peak_bandwidth_def
      setup_memory_regions_memcpy_def setup_memory_regions_loaded_latency_def split_routines_def by blast
  then show ?thesis
    using run_routine_eq_retD [OF _ p(1)] run_split_eq_retD [OF _ p(1)] p(2) by cases metis+
qed

lemma measurements_need_calls:
  assumes wf: "manager_wf wm"
    and "measure_idle_latency env wm config ps = ret (out, wm', x) \<or>
      measure_peak_bandwidth env wm k config mix gbps = ret (out, wm', x) \<or>
      measure_memcpy_bandwidth env wm copy config ns = ret (out, wm', y) \<or>
      measure_loaded_latency env wm k config ps gbps delay = ret (out, wm', z)"
  shows "calls_succeed (rn_join env) (unat (wm_num_threads wm)) \<and> manager_wf wm' \<and>
    wm_num_threads wm' = wm_num_threads wm"
proof -
  note p = map_packets_wf [OF wf]
  consider r f where "run_routine env r (map_packets f wm) = ret wm'"
    | f where "run_workers env (split_routines Lat_Ptr Bw_Sequential (map_packets f wm)) = ret wm'"
    using assms(2)
    unfolding measure_idle_latency_def measure_peak_bandwidth_def measure_memcpy_bandwidth_def
      measure_loaded_latency_def split_routines_def
    by (auto elim!: andthen_eq_retE simp: Let_def split: list.splits)
  then show ?thesis
    using run_routine_eq_retD [OF _ p(1)] run_split_eq_retD [OF _ p(1)] p(2) by cases metis+
qed

section \<open>Sweeps\<close>

lemma bandwidth_sweep_needs_calls:
  assumes "bandwidth_sweep envs k config items wm gbps = ret out" and "manager_wf wm"
    and "j < length items"
  shows "calls_succeed (rn_join (envs (k + j))) (unat (wm_num_threads wm))"
  using assms
proof (induction items arbitrary: k wm gbps out j)
  case (Cons item items)
  obtain mix kernel where item: "item = (mix, kernel)" by (cases item)
  obtain o1 wm' bw o2 where one: "measure_peak_bandwidth (envs k) wm kernel config mix gbps = ret (o1, wm', bw)"
    and rest: "bandwidth_sweep envs (Suc k) config items wm' bw = ret o2"
    using Cons.prems(1) unfolding item by (auto elim!: andthen_eq_retE)
  have m: "calls_succeed (rn_join (envs k)) (unat (wm_num_threads wm)) \<and> manager_wf wm' \<and>
      wm_num_threads wm' = wm_num_threads wm"
    by (rule measurements_need_calls [OF Cons.prems(2)]) (use one in blast)
  then show ?case using Cons.IH [OF rest, of "j - 1"] Cons.prems(3) by (cases j) simp_all
qed simp

lemma delay_sweep_needs_calls:
  assumes "delay_sweep envs k config items wm ps gbps = ret out" and "manager_wf wm"
    and "j < length items"
  shows "calls_succeed (rn_join (envs (k + j))) (unat (wm_num_threads wm))"
  using assms
proof (induction items arbitrary: k wm ps gbps out j)
  case (Cons item items)
  obtain delay kernel where item: "item = (delay, kernel)" by (cases item)
  obtain o1 wm' lat bw o2 where one: "measure_loaded_latency (envs k) wm kernel config ps gbps delay = ret (o1, wm', lat, bw)"
    and rest: "delay_sweep envs (Suc k) config items wm' lat bw = ret o2"
    using Cons.prems(1) unfolding item by (auto elim!: andthen_eq_retE)
  have m: "calls_succeed (rn_join (envs k)) (unat (wm_num_threads wm)) \<and> manager_wf wm' \<and>
      wm_num_threads wm' = wm_num_threads wm"
    by (rule measurements_need_calls [OF Cons.prems(2)]) (use one in blast)
  then show ?case using Cons.IH [OF rest, of "j - 1"] Cons.prems(3) by (cases j) simp_all
qed simp

text \<open>The cases of the branch program: the routine is set once, before the first case.\<close>

lemma branch_cases_need_calls:
  fixes wm :: branch_manager
  assumes "for_each (branch_case_run envs d) cases (wm, out, pk) = ret s" and "manager_wf wm"
    and "all_have_routines wm" and "c \<in> set cases"
  shows "calls_succeed (bn_join (envs c)) (unat (wm_num_threads wm))"
  using assms
proof (induction cases arbitrary: wm out pk)
  case (Cons c' cases)
  let ?wm = "wm\<lparr>wm_packets := map (\<lambda>p. p\<lparr>br_case_index := c', br_sample_duration := d\<rparr>) (wm_packets wm)\<rparr>"
  obtain wm' out' pk' where one: "run_branch_workers (envs c') ?wm = ret wm'"
    and rest: "for_each (branch_case_run envs d) cases (wm', out', pk') = ret s"
  proof -
    obtain s1 where s1: "branch_case_run envs d c' (wm, out, pk) = ret s1"
      "for_each (branch_case_run envs d) cases s1 = ret s"
      using Cons.prems(1) by (auto elim!: andthen_eq_retE)
    obtain wm' out' pk' where "s1 = (wm', out', pk')" by (rule prod_cases3)
    with s1 that show thesis by (auto elim!: andthen_eq_retE simp: branch_case_run_def)
  qed
  have "manager_wf ?wm" "all_have_routines ?wm"
    using Cons.prems(2,3) by (simp_all add: manager_wf_def all_have_routines_def)
  note m = run_threads_eq_retD [OF one [unfolded run_branch_workers_def] this]
  have "wm_start_routines wm' = wm_start_routines wm"
    using run_threads_routines [OF one [unfolded run_branch_workers_def]] by simp
  then have "all_have_routines wm'" using m(3) Cons.prems(3) by (simp add: all_have_routines_def)
  from Cons.IH [OF rest m(2) this] m(1,3) Cons.prems(4) show ?case by auto
qed simp

section \<open>The programs\<close>

lemma less_three: "k < (3 :: nat) \<longleftrightarrow> k = 0 \<or> k = 1 \<or> k = 2"
  by auto

lemma idle_latency_needs_calls:
  fixes wm :: mem_manager
  assumes wm: "WorkerThreadManager hw p0 num cpus b v = (shown, err, wm)"
    and alloc: "setup_memory_regions_idle_latency (envs 0) wm config node = ret wm1"
    and run: "run_idle_latency envs wm1 config = ret out" and k: "k < 3"
  shows "calls_succeed (rn_join (envs k)) (unat num)"
proof -
  note new = new_manager [OF wm]
  obtain o1 wm2 p1 o2 wm3 p2 where one: "measure_idle_latency (envs 1) wm1 config 0 = ret (o1, wm2, p1)"
    and two: "measure_idle_latency (envs 2) wm2 config p1 = ret (o2, wm3, p2)"
    using run by (auto elim!: andthen_eq_retE simp: run_idle_latency_def)
  have s: "calls_succeed (rn_join (envs 0)) (unat (wm_num_threads wm)) \<and> manager_wf wm1 \<and>
      wm_num_threads wm1 = wm_num_threads wm"
    by (rule setups_need_calls [OF new(1)]) (use alloc in blast)
  then have one': "calls_succeed (rn_join (envs 1)) (unat (wm_num_threads wm1)) \<and> manager_wf wm2 \<and>
      wm_num_threads wm2 = wm_num_threads wm1"
    using measurements_need_calls [of wm1] one by blast
  then have "calls_succeed (rn_join (envs 2)) (unat (wm_num_threads wm2))"
    using measurements_need_calls [of wm2] two by blast
  with s one' new(2) k show ?thesis by (auto simp: less_three)
qed

lemma peak_bandwidth_needs_calls:
  fixes wm :: mem_manager
  assumes wm: "WorkerThreadManager hw p0 num cpus b v = (shown, err, wm)"
    and alloc: "setup_memory_regions_peak_bandwidth (envs 0) wm config node = ret wm1"
    and run: "run_peak_bandwidth envs wm1 config = ret out"
    and k: "k < length (get_kernels_with_wrmix (cf_read_write_mix config)) + 2"
  shows "calls_succeed (rn_join (envs k)) (unat num)"
proof -
  let ?kernels = "get_kernels_with_wrmix (cf_read_write_mix config)"
  note new = new_manager [OF wm]
  have sweep: "bandwidth_sweep envs 1 config (hd ?kernels # ?kernels) wm1 0 = ret out"
    using run by (simp only: run_peak_bandwidth_def Let_def)
  have "calls_succeed (rn_join (envs 0)) (unat (wm_num_threads wm)) \<and> manager_wf wm1 \<and>
      wm_num_threads wm1 = wm_num_threads wm"
    by (rule setups_need_calls [OF new(1)]) (use alloc in blast)
  then show ?thesis
    using bandwidth_sweep_needs_calls [OF sweep, of "k - 1"] k new(2) by (cases k) simp_all
qed

text \<open>A matrix is complete only when each of its cells is.\<close>

lemma for_each_eq_retD:
  assumes "for_each f xs s = ret t" and "x \<in> set xs"
  shows "\<exists>s' t'. f x s' = ret t'"
  using assms by (induction xs arbitrary: s) (auto elim!: andthen_eq_retE)

lemma node_matrix_eq_retD:
  assumes "node_matrix title limit cell (NumaConfig nenv) = ret out" and cell: "measured_cell nenv limit i j"
  shows "\<exists>o'. cell i j (allowed_cpus_of_node nenv (num_cpus_possible (NumaConfig nenv)) i) = ret o'"
proof -
  let ?nc = "NumaConfig nenv"
  have ij: "i < num_numa_nodes ?nc" "j < num_numa_nodes ?nc" "limit \<le> ne_node_size64 nenv j"
    "allowed_cpus_of_node nenv (num_cpus_possible ?nc) i \<noteq> []"
    using cell by (simp_all add: measured_cell_def)
  obtain t where "for_each (node_row limit cell ?nc) (below (num_numa_nodes ?nc))
      (Text title # map node_name (below (num_numa_nodes ?nc))) = ret t"
    using assms(1) by (auto elim!: andthen_eq_retE simp: node_matrix_def)
  from for_each_eq_retD [OF this, of i] obtain s t where "node_row limit cell ?nc i s = ret t"
    using ij(1) by (auto simp: set_below)
  then obtain s' t' where "for_each (\<lambda>j out. andthen (lift_run (map_at (node_to_mem ?nc) j))
      (\<lambda>mem. if mem < limit then ret out
        else andthen (cell i j (allowed_cpus_of_node nenv (num_cpus_possible ?nc) i)) (\<lambda>o'. ret (out @ o'))))
      (below (num_numa_nodes ?nc)) s' = ret t'"
    using ij(4) by (auto simp: node_row_def node_at(3) [OF ij(1)])
  from for_each_eq_retD [OF this, of j] ij(2,3) show ?thesis
    by (auto simp: set_below node_at(1) [OF ij(2)] elim!: andthen_eq_retE)
qed

lemma main_idle_latency_needs_calls:
  assumes main: "main_idle_latency envs hw (NumaConfig nenv) args = ret (0, out)"
    and parsed: "parse_options (Configuration (NumaConfig nenv) LATENCY) args = Inr config" and k: "k < 3"
  shows "\<not> cf_latency_matrix config \<Longrightarrow> calls_succeed (rn_join (envs 0 0 k)) (unat (cf_num_threads config))"
    and "cf_latency_matrix config \<Longrightarrow> measured_cell nenv (2 ^ 30) i j \<Longrightarrow>
      calls_succeed (rn_join (envs i j k)) (unat (cell_threads nenv config i))"
proof -
  assume mode: "\<not> cf_latency_matrix config"
  obtain shown err and wm :: mem_manager where wm: "WorkerThreadManager hw MemLatBwThreadPacket (cf_num_threads config)
      (all_allowed_cpus (cf_numa_config config)) (\<not> cf_no_binding config) (cf_verbose config) = (shown, err, wm)"
    by (metis prod_cases3)
  obtain wm1 o1 where "setup_memory_regions_idle_latency (envs 0 0 0) wm config (- 1) = ret wm1"
    and "run_idle_latency (envs 0 0) wm1 config = ret o1"
    using main parsed mode wm
    by (auto elim!: andthen_eq_retE simp: main_idle_latency_def setup_and_run_idle_latency_def)
  from idle_latency_needs_calls [OF wm this k]
  show "calls_succeed (rn_join (envs 0 0 k)) (unat (cf_num_threads config))" .
next
  assume mode: "cf_latency_matrix config" and cell: "measured_cell nenv (2 ^ 30) i j"
  let ?cpus = "allowed_cpus_of_node nenv (num_cpus_possible (NumaConfig nenv)) i"
  obtain title o0 where "node_matrix title (push_bit 30 1) (\<lambda>i j. idle_latency_cell (envs i j) hw config j)
      (NumaConfig nenv) = ret o0"
    using main parsed mode parsed_machine [OF parsed]
    by (auto elim!: andthen_eq_retE simp: main_idle_latency_def setup_and_run_idle_latency_def)
  then have "node_matrix title (2 ^ 30) (\<lambda>i j. idle_latency_cell (envs i j) hw config j) (NumaConfig nenv) = ret o0"
    unfolding matrix_limits .
  from node_matrix_eq_retD [OF this cell] have "\<exists>o'. idle_latency_cell (envs i j) hw config j ?cpus = ret o'" .
  moreover obtain shown err and wm :: mem_manager where wm: "WorkerThreadManager hw MemLatBwThreadPacket
      (cell_threads nenv config i) ?cpus True (cf_verbose config) = (shown, err, wm)"
    by (metis prod_cases3)
  ultimately obtain wm1 o1 where "setup_memory_regions_idle_latency (envs i j 0) wm config j = ret wm1"
    and "run_idle_latency (envs i j) wm1 config = ret o1"
    by (auto elim!: andthen_eq_retE simp: idle_latency_cell_def cell_threads_def [symmetric])
  from idle_latency_needs_calls [OF wm this k]
  show "calls_succeed (rn_join (envs i j k)) (unat (cell_threads nenv config i))" .
qed

lemma main_memcpy_needs_calls:
  assumes main: "main_memcpy envs setup_time hw nc args = ret (0, out)"
    and parsed: "parse_options (Configuration nc MEMCPY) args = Inr config0" and k: "k < 3"
  shows "calls_succeed (rn_join (envs k)) (unat (cf_num_threads config0))"
proof -
  obtain config where config: "memcpy_config config0 = Inr config"
    using main parsed by (auto simp: main_memcpy_def split: sum.splits)
  then have num: "cf_num_threads config = cf_num_threads config0"
    by (auto simp: memcpy_config_def Let_def split: if_splits)
  obtain shown err and wm :: mem_manager where wm: "WorkerThreadManager hw MemLatBwThreadPacket (cf_num_threads config)
      (all_allowed_cpus (cf_numa_config config)) (\<not> cf_no_binding config) (cf_verbose config) = (shown, err, wm)"
    by (metis prod_cases3)
  note new = new_manager [OF wm]
  obtain wm1 o1 wm2 p1 o2 wm3 p2 where s: "setup_memory_regions_memcpy (envs 0) wm config = ret wm1"
    and one: "measure_memcpy_bandwidth (envs 1) wm1 glibc_memcpy config 0 = ret (o1, wm2, p1)"
    and two: "measure_memcpy_bandwidth (envs 2) wm2 glibc_memcpy config p1 = ret (o2, wm3, p2)"
    using main parsed config wm by (auto elim!: andthen_eq_retE simp: main_memcpy_def)
  have s': "calls_succeed (rn_join (envs 0)) (unat (wm_num_threads wm)) \<and> manager_wf wm1 \<and>
      wm_num_threads wm1 = wm_num_threads wm"
    by (rule setups_need_calls [OF new(1)]) (use s in blast)
  then have one': "calls_succeed (rn_join (envs 1)) (unat (wm_num_threads wm1)) \<and> manager_wf wm2 \<and>
      wm_num_threads wm2 = wm_num_threads wm1"
    using measurements_need_calls [of wm1] one by blast
  then have "calls_succeed (rn_join (envs 2)) (unat (wm_num_threads wm2))"
    using measurements_need_calls [of wm2] two by blast
  with s' one' new(2) num k show ?thesis by (auto simp: less_three)
qed

lemma main_peak_bandwidth_needs_calls:
  assumes main: "main_peak_bandwidth envs setup_time hw (NumaConfig nenv) args = ret (0, out)"
    and parsed: "parse_options (Configuration (NumaConfig nenv) BANDWIDTH) args = Inr config"
  shows "\<not> cf_bandwidth_matrix config \<Longrightarrow> k < length (get_kernels_with_wrmix (cf_read_write_mix config)) + 2 \<Longrightarrow>
      calls_succeed (rn_join (envs 0 0 k)) (unat (cf_num_threads config))"
    and "cf_bandwidth_matrix config \<Longrightarrow> measured_cell nenv (2 ^ 31) i j \<Longrightarrow>
      k < length (get_kernels_with_wrmix (cf_read_write_mix (matrix_configuration config))) + 2 \<Longrightarrow>
      calls_succeed (rn_join (envs i j k)) (unat (cell_threads nenv config i))"
proof -
  assume mode: "\<not> cf_bandwidth_matrix config" and k: "k < length (get_kernels_with_wrmix (cf_read_write_mix config)) + 2"
  obtain shown err and wm :: mem_manager where wm: "WorkerThreadManager hw MemLatBwThreadPacket (cf_num_threads config)
      (all_allowed_cpus (cf_numa_config config)) (\<not> cf_no_binding config) (cf_verbose config) = (shown, err, wm)"
    by (metis prod_cases3)
  obtain wm1 o1 where "setup_memory_regions_peak_bandwidth (envs 0 0 0) wm config (- 1) = ret wm1"
    and "run_peak_bandwidth (envs 0 0) wm1 config = ret o1"
    using main parsed mode wm
    by (auto elim!: andthen_eq_retE simp: main_peak_bandwidth_def setup_and_run_peak_bandwidth_def Let_def)
  from peak_bandwidth_needs_calls [OF wm this k]
  show "calls_succeed (rn_join (envs 0 0 k)) (unat (cf_num_threads config))" .
next
  assume mode: "cf_bandwidth_matrix config" and cell: "measured_cell nenv (2 ^ 31) i j"
    and k: "k < length (get_kernels_with_wrmix (cf_read_write_mix (matrix_configuration config))) + 2"
  let ?cpus = "allowed_cpus_of_node nenv (num_cpus_possible (NumaConfig nenv)) i" and ?used = "matrix_configuration config"
  have used: "cf_bandwidth_matrix ?used" "cf_numa_config ?used = NumaConfig nenv"
    "cell_threads nenv ?used i = cell_threads nenv config i"
    using mode parsed_machine [OF parsed] by (simp_all add: matrix_configuration_def cell_threads_def)
  have "(if cf_bandwidth_matrix config \<and> cf_read_write_mix config = read_write_mix_sweep
      then config\<lparr>cf_read_write_mix := 0\<rparr> else config) = ?used"
    using mode by (simp add: matrix_configuration_def)
  then obtain o0 where "node_matrix ''Peak Bandwidth (GB/s)'' (push_bit 30 2)
      (\<lambda>i j. peak_bandwidth_cell (envs i j) hw ?used j) (NumaConfig nenv) = ret o0"
    using main parsed used
    by (auto elim!: andthen_eq_retE simp: main_peak_bandwidth_def setup_and_run_peak_bandwidth_def Let_def)
  then have "node_matrix ''Peak Bandwidth (GB/s)'' (2 ^ 31) (\<lambda>i j. peak_bandwidth_cell (envs i j) hw ?used j)
      (NumaConfig nenv) = ret o0"
    unfolding matrix_limits .
  from node_matrix_eq_retD [OF this cell] have "\<exists>o'. peak_bandwidth_cell (envs i j) hw ?used j ?cpus = ret o'" .
  moreover obtain shown err and wm :: mem_manager where wm: "WorkerThreadManager hw MemLatBwThreadPacket
      (cell_threads nenv ?used i) ?cpus True (cf_verbose ?used) = (shown, err, wm)"
    by (metis prod_cases3)
  ultimately obtain wm1 o1 where "setup_memory_regions_peak_bandwidth (envs i j 0) wm ?used j = ret wm1"
    and "run_peak_bandwidth (envs i j) wm1 ?used = ret o1"
    by (auto elim!: andthen_eq_retE simp: peak_bandwidth_cell_def cell_threads_def [symmetric])
  from peak_bandwidth_needs_calls [OF wm this k]
  show "calls_succeed (rn_join (envs i j k)) (unat (cell_threads nenv config i))" unfolding used(3) .
qed

lemma main_loaded_latency_needs_calls:
  assumes main: "main_loaded_latency envs setup_time hw nc args = ret (0, out)"
    and parsed: "parse_options (Configuration nc LATENCY_BANDWIDTH) args = Inr config"
  shows "\<exists>items. build_delays_and_kernels config = Inr items \<and>
    (\<forall>k < length items + 1. calls_succeed (rn_join (envs k)) (unat (cf_num_threads config)))"
proof -
  obtain shown err and wm :: mem_manager where wm: "WorkerThreadManager hw MemLatBwThreadPacket (cf_num_threads config)
      (all_allowed_cpus (cf_numa_config config)) (\<not> cf_no_binding config) (cf_verbose config) = (shown, err, wm)"
    by (metis prod_cases3)
  note new = new_manager [OF wm]
  obtain items wm1 o1 where items: "build_delays_and_kernels config = Inr items"
    and s: "setup_memory_regions_loaded_latency (envs 0) wm config = ret wm1"
    and sweep: "delay_sweep envs 1 config items wm1 0 0 = ret o1"
    using main parsed wm by (auto elim!: andthen_eq_retE simp: main_loaded_latency_def)
  have s': "calls_succeed (rn_join (envs 0)) (unat (wm_num_threads wm)) \<and> manager_wf wm1 \<and>
      wm_num_threads wm1 = wm_num_threads wm"
    by (rule setups_need_calls [OF new(1)]) (use s in blast)
  have "calls_succeed (rn_join (envs k)) (unat (cf_num_threads config))" if "k < length items + 1" for k
    using delay_sweep_needs_calls [OF sweep, of "k - 1"] s' new(2) that by (cases k) simp_all
  with items show ?thesis by blast
qed

lemma main_branch_needs_calls:
  assumes main: "main_branch_throughput envs hw nc args = ret (0, out)"
    and parsed: "parse_options (Configuration nc BRANCH_THROUGHPUT) args = Inr config"
    and c: "c \<in> set (branch_case_range config)"
  shows "calls_succeed (bn_join (envs c)) (unat (cf_num_threads config))"
proof -
  obtain shown err and wm :: branch_manager where wm: "WorkerThreadManager hw BrPredThreadPacket (cf_num_threads config)
      (all_allowed_cpus (cf_numa_config config)) (\<not> cf_no_binding config) (cf_verbose config) = (shown, err, wm)"
    by (metis prod_cases3)
  note new = new_manager [OF wm]
  obtain head pk s where loop: "for_each (branch_case_run envs (branch_duration config)) (branch_case_range config)
      (setRoutine (Some ()) wm, head, pk) = ret s"
    using main parsed wm
    by (auto elim!: andthen_eq_retE simp: main_branch_throughput_def Let_def split: if_splits)
  show ?thesis
    using branch_cases_need_calls [OF loop setRoutine_wf(1) [OF new(1)] all_have_routines_set [OF new(1)] c]
      setRoutine_wf(2) [OF new(1), of "Some ()"] new(2) by simp
qed

text \<open>
  C8. Results only from threads that ran. When a program ends with status 0, then in every
  run it made - the setup, the calibration, and one for each kernel, delay, copy or branch
  case it has measured, in a matrix in every cell - each of its threads was started, and was
  joined in time unless the timeout is switched off. A thread that fails to start or gets
  stuck therefore never leads to a result.
\<close>

theorem status_0_needs_threads:
  assumes parsed: "parse_options (Configuration (NumaConfig nenv) t) args = Inr config"
  defines "n \<equiv> unat (cf_num_threads config)" and "m \<equiv> \<lambda>i. unat (cell_threads nenv config i)"
    and "runs \<equiv> \<lambda>c. length (get_kernels_with_wrmix (cf_read_write_mix c)) + 2"
  shows "case t of
      LATENCY \<Rightarrow> main_idle_latency lenvs hw (NumaConfig nenv) args = ret (0, out) \<longrightarrow>
        (if cf_latency_matrix config
         then \<forall>i j. measured_cell nenv (2 ^ 30) i j \<longrightarrow> (\<forall>k < 3. calls_succeed (rn_join (lenvs i j k)) (m i))
         else \<forall>k < 3. calls_succeed (rn_join (lenvs 0 0 k)) n)
    | BANDWIDTH \<Rightarrow> main_peak_bandwidth lenvs setup_time hw (NumaConfig nenv) args = ret (0, out) \<longrightarrow>
        (if cf_bandwidth_matrix config
         then \<forall>i j. measured_cell nenv (2 ^ 31) i j \<longrightarrow>
           (\<forall>k < runs (matrix_configuration config). calls_succeed (rn_join (lenvs i j k)) (m i))
         else \<forall>k < runs config. calls_succeed (rn_join (lenvs 0 0 k)) n)
    | MEMCPY \<Rightarrow> main_memcpy envs setup_time hw (NumaConfig nenv) args = ret (0, out) \<longrightarrow>
        (\<forall>k < 3. calls_succeed (rn_join (envs k)) n)
    | LATENCY_BANDWIDTH \<Rightarrow> main_loaded_latency envs setup_time hw (NumaConfig nenv) args = ret (0, out) \<longrightarrow>
        (\<exists>items. build_delays_and_kernels config = Inr items \<and>
          (\<forall>k < length items + 1. calls_succeed (rn_join (envs k)) n))
    | BRANCH_THROUGHPUT \<Rightarrow> main_branch_throughput benvs hw (NumaConfig nenv) args = ret (0, out) \<longrightarrow>
        (\<forall>c \<in> set (branch_case_range config). calls_succeed (bn_join (benvs c)) n)"
proof (cases t)
  case LATENCY
  with parsed main_idle_latency_needs_calls [where nenv = nenv and args = args and config = config and envs = lenvs]
  show ?thesis unfolding n_def m_def by auto
next
  case BANDWIDTH
  with parsed main_peak_bandwidth_needs_calls [where nenv = nenv and args = args and config = config and envs = lenvs]
  show ?thesis unfolding n_def m_def runs_def by auto
next
  case MEMCPY
  with parsed main_memcpy_needs_calls show ?thesis unfolding n_def by auto
next
  case LATENCY_BANDWIDTH
  with parsed main_loaded_latency_needs_calls [of envs setup_time hw "NumaConfig nenv" args out config] show ?thesis
    unfolding n_def by auto
next
  case BRANCH_THROUGHPUT
  with parsed main_branch_needs_calls show ?thesis unfolding n_def by auto
qed

definition stuck_run_env :: run_env where
  "stuck_run_env = example_run_env\<lparr>rn_join := (rn_join example_run_env)\<lparr>je_join := (\<lambda>_. ETIMEDOUT)\<rparr>\<rparr>"

text \<open>
  On the example machine the program succeeds, and its three runs with it; with a thread that
  gets stuck in the last of them there is no result.
\<close>

lemma status_0_needs_threads_witness:
  "(\<exists>out. main_idle_latency (\<lambda>_ _ _. example_run_env) 4 example_machine [] = ret (0, out)) \<and>
   calls_succeed (rn_join example_run_env) 1 \<and>
   (\<forall>out. main_idle_latency (\<lambda>_ _ k. if k = 2 then stuck_run_env else example_run_env) 4 example_machine [] \<noteq>
      ret (0, out))"
proof -
  let ?config = "default_configuration example_machine LATENCY"
  have n: "unat (cf_num_threads ?config) = 1" by (simp add: example_latency(3))
  have parsed: "parse_options (Configuration (NumaConfig example_env) LATENCY) [] = Inr ?config"
    using example_latency(1) unfolding example_machine_def .
  have needs: "calls_succeed (rn_join (e k)) 1"
    if "main_idle_latency (\<lambda>_ _. e) 4 example_machine [] = ret (0, out)" and "k < 3" for e out k
  proof -
    have "main_idle_latency (\<lambda>_ _. e) 4 (NumaConfig example_env) [] = ret (0, out)"
      using that(1) unfolding example_machine_def .
    with status_0_needs_threads [OF parsed, where lenvs = "\<lambda>_ _. e" and hw = 4 and out = out] that(2)
    show ?thesis unfolding testing_type.case n if_not_P [OF example_latency(2)] by blast
  qed
  obtain out where out: "main_idle_latency (\<lambda>_ _ _. example_run_env) 4 example_machine [] = ret (0, out)"
    using example_latency_returns by blast
  from needs [OF this, of 0] have "calls_succeed (rn_join example_run_env) 1" by simp
  moreover have "main_idle_latency (\<lambda>_ _ k. if k = 2 then stuck_run_env else example_run_env) 4 example_machine [] \<noteq>
      ret (0, out)" for out
  proof
    assume "main_idle_latency (\<lambda>_ _ k. if k = 2 then stuck_run_env else example_run_env) 4 example_machine [] = ret (0, out)"
    from needs [OF this, of 2] have "calls_succeed (rn_join stuck_run_env) 1" by simp
    then show False by (auto simp: calls_succeed_def stuck_run_env_def example_run_env_def ETIMEDOUT_def)
  qed
  ultimately show ?thesis using out by blast
qed

end
