(* ===== verification/Named_Timers.thy ===== *)
theory Named_Timers
  imports Timing
begin

text \<open>
  The named timers of \<open>src/common/timing.cc\<close>: a timer is not disturbed by what happens to
  the timers of other names, and what is printed of it is the time between its start and
  its end in the unit that fits.
\<close>

section \<open>The unit\<close>

lemma elapsed_in_gt_1:
  assumes u: "u \<in> {10 ^ 3, 10 ^ 6, 10 ^ 9}" and t: "0 \<le> elapsed_time_ns t" "elapsed_time_ns t < 2 ^ 53"
  shows "elapsed_in u t > 1 \<longleftrightarrow> elapsed_time_ns t > int u"
proof -
  let ?d = "elapsed_time_ns t" and ?x = "of_int (elapsed_time_ns t) / of_nat u :: rat"
  have u0: "0 < u" "u \<le> 10 ^ 9" using u by auto
  then have ur: "(0 :: rat) < of_nat u" "(of_nat u :: rat) \<le> 10 ^ 9" using u by auto
  have err: "\<bar>elapsed_in u t - ?x\<bar> \<le> ?x * 2 powi - 53" by (rule elapsed_in_error [OF u0(1) t])
  consider "?d \<ge> int u + 1" | "?d = int u" | "?d \<le> int u - 1" by linarith
  then show ?thesis
  proof cases
    case 1
    then have "of_nat u + 1 \<le> (of_int ?d :: rat)" by (metis of_int_1 of_int_add of_int_le_iff of_int_of_nat_eq)
    from divide_right_mono [OF this, of "of_nat u"] have "1 + 1 / of_nat u \<le> ?x"
      using ur by (simp add: add_divide_distrib)
    moreover have "1 / 10 ^ 9 \<le> (1 :: rat) / of_nat u" using ur by (intro divide_left_mono) simp_all
    ultimately have x: "1 + 1 / 10 ^ 9 \<le> ?x" by linarith
    have "?x - ?x * 2 powi - 53 \<le> elapsed_in u t" using abs_le_D2 [OF err] by linarith
    moreover have "?x - ?x * 2 powi - 53 > 1" using x by (simp add: power_int_minus)
    ultimately show ?thesis using 1 by simp
  next
    case 2
    then have "(of_int ?d :: rat) = of_nat u" by simp
    then have "elapsed_in u t = 1"
      using rnd_exact [of u 53] u0 rnd_exact [of 1 53] ur by (simp add: elapsed_in_def)
    with 2 show ?thesis by simp
  next
    case 3
    then have "(of_int ?d :: rat) \<le> of_nat u - 1" by (metis of_int_1 of_int_diff of_int_le_iff of_int_of_nat_eq)
    from divide_right_mono [OF this, of "of_nat u"] have "?x \<le> 1 - 1 / of_nat u"
      using ur by (simp add: diff_divide_distrib)
    moreover have "1 / 10 ^ 9 \<le> (1 :: rat) / of_nat u" using ur by (intro divide_left_mono) simp_all
    ultimately have x: "?x \<le> 1 - 1 / 10 ^ 9" by linarith
    have "elapsed_in u t \<le> ?x + ?x * 2 powi - 53" using abs_le_D1 [OF err] by linarith
    moreover have "?x + ?x * 2 powi - 53 \<le> 1" using x by (simp add: power_int_minus)
    ultimately show ?thesis using 3 by simp
  qed
qed

text \<open>The text of \<open>d\<close> nanoseconds: exact below a microsecond, else rounded to a \<open>double\<close>.\<close>

definition shows_time :: "int \<Rightarrow> elapsed_text \<Rightarrow> bool" where
  "shows_time d e \<longleftrightarrow>
     (let near = \<lambda>u x. \<bar>x - of_int d / u\<bar> \<le> of_int d / u * 2 powi - 53
      in if d > 10 ^ 9 then \<exists>x. e = Sec x \<and> near (10 ^ 9) x
         else if d > 10 ^ 6 then \<exists>x. e = Ms x \<and> near (10 ^ 6) x
         else if d > 10 ^ 3 then \<exists>x. e = Us x \<and> near (10 ^ 3) x
         else e = Ns d)"

lemma getElapsedTimeStr_shows:
  assumes "0 \<le> elapsed_time_ns t" "elapsed_time_ns t < 2 ^ 53"
  shows "shows_time (elapsed_time_ns t) (getElapsedTimeStr t)"
  using elapsed_in_gt_1 [OF _ assms] elapsed_in_error [OF _ assms, of "10 ^ 9"]
    elapsed_in_error [OF _ assms, of "10 ^ 6"] elapsed_in_error [OF _ assms, of "10 ^ 3"]
  by (simp add: shows_time_def getElapsedTimeStr_def getElapsedTime_def getElapsedTimeMs_def getElapsedTimeUs_def
      getElapsedTimeNs_def)

section \<open>Sequences of calls\<close>

datatype timer_call = Start_Timer string | End_Timer string

fun timer_key :: "timer_call \<Rightarrow> string" where
  "timer_key (Start_Timer key) = key"
| "timer_key (End_Timer key) = key"

fun timer_calls :: "(int \<times> timer_call) list \<Rightarrow> timer_map \<Rightarrow> timer_map" where
  "timer_calls [] m = m"
| "timer_calls ((now, Start_Timer key) # calls) m = timer_calls calls (start_timer now key m)"
| "timer_calls ((now, End_Timer key) # calls) m = timer_calls calls (snd (end_timer now key m))"

lemma timer_calls_other:
  assumes "\<forall>(now, c) \<in> set calls. timer_key c \<noteq> key"
  shows "timer_calls calls (m(key := v)) = (timer_calls calls m)(key := v)"
  using assms
  by (induction calls m rule: timer_calls.induct)
     (auto simp: start_timer_def end_timer_def fun_upd_twist split: option.splits)

text \<open>
  C37. A named timer. Started at \<open>t0\<close> and ended at \<open>t1\<close>, with any starts and ends of timers
  of other names in between, it prints the time from \<open>t0\<close> to \<open>t1\<close>, whatever an older timer
  of the name had counted: in seconds above one second, else in milliseconds or microseconds
  above one of them, each to within one part in \<open>2 ^ 53\<close>, and else in nanoseconds.
  The timer is then gone, so that ending it again prints no time, and the timers of the other
  names are what the calls in between have made of them.
\<close>

theorem named_timer_elapsed:
  assumes "\<forall>(now, c) \<in> set calls. timer_key c \<noteq> key" and "t0 \<le> t1" and "t1 - t0 < 2 ^ 53"
  shows "\<exists>e m'. end_timer t1 key (timer_calls calls (start_timer t0 key m)) = ((key, Some e), m') \<and>
    shows_time (t1 - t0) e \<and> m' = (timer_calls calls m)(key := None) \<and>
    (\<forall>t2. end_timer t2 key m' = ((key, None), m'))"
proof -
  let ?t = "endTimer t1 (startTimer t0 Timer)"
  have m: "timer_calls calls (start_timer t0 key m) = (timer_calls calls m)(key \<mapsto> startTimer t0 Timer)"
    unfolding start_timer_def by (rule timer_calls_other [OF assms(1)])
  have t: "elapsed_time_ns ?t = t1 - t0" by (simp add: endTimer_def startTimer_def Timer_def Let_def)
  have "shows_time (t1 - t0) (getElapsedTimeStr ?t)"
    using getElapsedTimeStr_shows [of ?t] assms(2,3) unfolding t by simp
  then show ?thesis by (simp add: m end_timer_def)
qed

lemma named_timer_elapsed_witness:
  "\<exists>x. fst (end_timer 5000000007 ''setup'' (timer_calls [(9, Start_Timer ''run''), (12, End_Timer ''run'')]
     (start_timer 7 ''setup'' (\<lambda>_. None)))) = (''setup'', Some (Sec x)) \<and> \<bar>x - 5\<bar> \<le> 5 * 2 powi - 53"
proof -
  from named_timer_elapsed [of "[(9, Start_Timer ''run''), (12, End_Timer ''run'')]" "''setup''" 7 5000000007 "\<lambda>_. None"]
  show ?thesis by (auto simp: shows_time_def simp del: timer_calls.simps)
qed

end
