(* ===== verification/Spec2Isabelle.thy ===== *)
theory Spec2Isabelle
  imports Option_Props Numa_Dump Branch_Run Zero_Threads Worker_Warnings Region_Dump Matrix_Run Clean_Exit
    Named_Timers
begin

text \<open>
  A verification library for \<open>mm-mem\<close>, a set of memory and branch micro-benchmarks in C++.

  \<^bold>\<open>The program.\<close> Five programs under \<open>src/cpu_micro\<close> measure idle latency, peak bandwidth,
  loaded latency, \<open>memcpy\<close> bandwidth and taken-branch throughput; a sixth prints the NUMA
  topology. Each parses its arguments into a \<open>Configuration\<close>, builds a thread manager with
  one packet per thread, lets every thread allocate (and, for latency, initialise) a memory
  region, lets every thread run its measurement loop, and combines the packets into the
  numbers it prints. A first, short run calibrates the checkpoints of the second.

  \<^bold>\<open>Theories and code.\<close>

  \<^item> \<open>Prelude\<close>: machine integers, the outcomes of a computation (a value, a \<open>fault\<close>, or no
    end at all), decimal texts, generic lemmas.
  \<^item> \<open>Pointer_Store\<close>: the byte memory of a region as an instance of the locale \<open>cell_store\<close>,
    whose laws carry the proofs about pointer rings.
  \<^item> \<open>Mem_Region\<close> (\<open>common/mem_region.h\<close>, \<open>.cc\<close>): construction, allocation, destruction, the
    shuffle and the three initialisations. \<open>Region_Rings\<close>, \<open>Region_Init\<close> and \<open>Region_Props\<close>
    hold the correctness of the loops, of the initialisations, and the properties;
    \<open>Region_Outcomes\<close> how an initialisation can fail and what it never changes,
    \<open>Region_Dump\<close> the printout of a region. Besides the members of the class a region has
    its bytes and the memory policy that was set with \<open>set_mempolicy\<close> before its allocation.
  \<^item> \<open>Command_Line\<close> (\<open>common/command_line.h\<close>): options, the parser with its errors, the help
    text. \<open>Option_Grammar\<close> is the abstract grammar the parser refines, \<open>Option_Errors\<close> the
    rules by which it rejects an argument, one for each message; \<open>Option_Props\<close> the
    properties and the unit test's expectations.
  \<^item> \<open>Numa_Config\<close>, \<open>Numa_Dump\<close> (\<open>common/numa_config.h\<close>, \<open>.cc\<close>, \<open>cpu_numa_info.cc\<close>): the
    topology over what libnuma answers, and its printout.
  \<^item> \<open>Configuration\<close>, \<open>Configuration_Props\<close> (\<open>cpu_micro/lib_configuration.h\<close>, \<open>.cc\<close>): the
    options of each program, the parsed configuration, its summary.
  \<^item> \<open>Worker_Threads\<close>, \<open>Thread_Schedule\<close>, \<open>Run_Threads\<close>
    (\<open>common/worker_thread_manager.h\<close>): the manager and its binding, \<open>create\<close> and \<open>join\<close>;
    the interleaving of the main thread and the workers as a step relation over what
    \<open>pthread_create\<close> returns for each thread; both calls as one sequential operation. \<open>Parallel_Props\<close> and \<open>Run_Threads\<close> hold the properties.
  \<^item> \<open>Floating\<close>, \<open>Relative_Error\<close>: binary floating point as rationals rounded to nearest even
    at 53 and 24 bits, and the error of a chain of roundings.
  \<^item> \<open>Timing\<close> (\<open>common/timing.h\<close>, \<open>.cc\<close>): timers over a clock that is a parameter;
    \<open>Named_Timers\<close> the timers by name and the text of a time.
  \<^item> \<open>Kernels\<close>, \<open>Delay_Kernels\<close>, \<open>Kernel_Props\<close> (\<open>kernels_common.h\<close>, \<open>kernels_latency.h\<close>,
    \<open>kernels_bandwidth.h\<close>, \<open>kernels_memcpy.h\<close>, \<open>kernels_delay_bandwidth\<close>): each kernel as the
    list of its loads, stores and nops, macro by macro, and its execution on a region.
  \<^item> \<open>Checkpoint_Loop\<close>, \<open>Loop_Correct\<close>, \<open>Workers\<close>, \<open>Worker_Routines\<close>, \<open>Worker_Props\<close>,
    \<open>Write_Traffic\<close>, \<open>Measurements\<close> (\<open>worker_latency.h\<close>, \<open>worker_bandwidth.h\<close>,
    \<open>worker_memcpy.h\<close>, \<open>worker_thread_packet.h\<close>): the loop the three workers share, the
    workers, their small steps for the schedule, and allocation followed by measurement;
    \<open>Counted_Chases\<close> runs the latency worker with a counter of the hops its kernel makes,
    which the worker itself infers from its invocations; \<open>Worker_Warnings\<close> adds what they write when a run takes too long.
  \<^item> \<open>Branch_Kernels\<close>, \<open>Branch_Worker\<close>, \<open>Branch_Program\<close>, \<open>Cycle_Counter\<close>
    (\<open>kernels_branch.h\<close>, \<open>worker_branch_throughput.h\<close>, \<open>cpu_branch_throughput.cc\<close>,
    \<open>common/cycle_counter.h\<close>): the assembly of the branch chains on a small machine, the
    worker, the program, the counter over what the system calls answer.
  \<^item> \<open>Kmg_Parser\<close> (\<open>common/kmg_parser.h\<close>, \<open>.cc\<close>): byte counts with units.
  \<^item> \<open>Program_Common\<close>, \<open>Latency_Bandwidth_Programs\<close>, \<open>Loaded_Memcpy_Programs\<close>,
    \<open>Program_Props\<close> (the other \<open>cpu_*.cc\<close>): the drivers and mains with their output as a
    list of events.
  \<^item> \<open>Clocked_Runs\<close>: what a program needs of the clocks and the thread calls, and the bounds
    that follow. \<open>Idle_Latency_Run\<close>, \<open>Bandwidth_Run\<close>, \<open>Loaded_Run\<close>, \<open>Memcpy_Run\<close> and
    \<open>Branch_Run\<close> take each program from its arguments to its output, \<open>Matrix_Run\<close> the
    two that print a matrix of NUMA nodes, with where the threads and the memory of a cell
    are; \<open>Zero_Threads\<close> is what happens when no thread is asked for, \<open>Clean_Exit\<close> what
    happens when one cannot be started or is not joined.

  \<^bold>\<open>State and effects.\<close> A struct or class is a record, and an operation that changes it
  returns it updated. Undefined behaviour, traps and uncaught exceptions are values of the
  type \<open>fault\<close>; a computation that may run forever is a \<open>run\<close>, an option over them, so that
  not returning is the value \<open>None\<close>. What the kernel, libnuma, pthreads, the clock, the
  random numbers and the cycle counter answer are parameters (\<open>alloc_env\<close>, \<open>numa_env\<close>,
  \<open>thread_env\<close>, \<open>join_env\<close>, \<open>perf_env\<close>), about which the definitions assume nothing; a
  theorem that needs the clock to advance or an allocation to succeed says so.

  \<^bold>\<open>What the lemmas show.\<close> Regions: every initialisation builds one circular list through
  every active line, with the order its name promises, or stores out of bounds. Parser:
  it accepts exactly the grammar, fails with each message exactly for its reason, reads exactly the numbers that fit, and configurations
  survive printing and parsing. Threads: every interleaving gives what the routines give
  one by one and joins only threads that \<open>pthread_create\<close> has all started, none deadlocks,
  threads are pinned to distinct allowed CPUs, and in a matrix the memory is allocated
  under the policy of its node. Workers: under a
  clock that reaches the target a loop ends with an exact account of work and time, stays
  inside its region, and on regions below one kernel invocation it never ends. Kernels: each
  moves what its mix promises, and the delay table is sorted. Programs: from accepted
  arguments each ends with status 0, and every number it prints is the exact quotient of the
  work the threads did and the time they took, up to the rounding error, also in the cells
  of the matrices; none ends with status 0 when a thread was not started or not joined; with
  0 threads four of the five reach undefined behaviour.

  \<^bold>\<open>Bounds and fuel.\<close> No definition takes fuel: loops that may not end are partial functions
  over options. Word arithmetic wraps as in C++; signed values that cannot overflow
  (clock readings, durations in nanoseconds) are integers. The program theorems bound the
  readings of a clock (\<open>2 ^ 12\<close> checkpoints of milliseconds, \<open>2 ^ 20\<close> for latency) and its
  steps (about a second), so that sums stay exact in a \<open>double\<close> and below \<open>2 ^ 64\<close>. Floating point has no infinities, NaNs or subnormals: a division by zero is a
  fault, and the values that occur are far from the limits of the formats.

  \<^bold>\<open>Not modelled.\<close> Column widths, bases and digits of printed numbers, the formatted time
  text of a timer beyond its unit and number, the release of the CPU mask in the destructor of
  \<open>NumaConfig\<close>, the mutex of the named timers, the type names in \<open>worker_common.h\<close>, the scripts and the tests that are not C++.
  The output of a program leaves out what its workers write to the standard error stream.
\<close>

end
